(* ===== verification/Prelude.thy ===== *)
theory Prelude
  imports Main "HOL-Library.Word" "HOL-Library.List_Lexorder"
begin

text \<open>
  Shared vocabulary of the development: the machine types of the Rust sources, the
  sequencing of fallible code, the byte encodings of integers, and the generic lemmas
  the component theories share.  Nothing here models one particular component; the
  combinators stand for constructs of the Rust language (\<open>?\<close>, \<open>require!\<close>,
  \<open>ok_or\<close>, \<open>to_be_bytes\<close>).
\<close>

unbundle bit_operations_syntax

section \<open>Machine types\<close>

type_synonym u8 = "8 word"
type_synonym u16 = "16 word"
type_synonym u32 = "32 word"
type_synonym u64 = "64 word"
type_synonym u128 = "128 word"
type_synonym u256 = "256 word"
type_synonym bytes = "8 word list"
type_synonym pubkey = "8 word list"
type_synonym u64x4 = "64 word \<times> 64 word \<times> 64 word \<times> 64 word"

section \<open>Named collections\<close>

named_theorems res_simps \<open>inversion of the result combinators\<close>
named_theorems num_simps \<open>reading checked machine arithmetic as arithmetic on nat\<close>
named_theorems ledger_simps \<open>projections of updated ledgers\<close>

declare split_paired_Ex [simp del] split_paired_All [simp del]

section \<open>Sequencing fallible code\<close>

text \<open>\<open>Inl e\<close> is an error (or a panic), \<open>Inr x\<close> a value.  A Solana transaction that
  fails leaves no trace in the ledger, so an error carries no state.\<close>

definition bindE :: "'e + 'a \<Rightarrow> ('a \<Rightarrow> 'e + 'b) \<Rightarrow> 'e + 'b" where
  "bindE m k = (case m of Inl e \<Rightarrow> Inl e | Inr x \<Rightarrow> k x)"

definition require :: "bool \<Rightarrow> 'e \<Rightarrow> 'e + 'a \<Rightarrow> 'e + 'a" where
  "require c e k = (if c then k else Inl e)"

definition ok_or :: "'a option \<Rightarrow> 'e \<Rightarrow> 'e + 'a" where
  "ok_or v e = (case v of None \<Rightarrow> Inl e | Some x \<Rightarrow> Inr x)"

lemma bindE_simps [simp]:
  "bindE (Inl e) k = Inl e"
  "bindE (Inr x) k = k x"
  by (simp_all add: bindE_def)

lemma require_simps [simp]:
  "require True e k = k"
  "require False e k = Inl e"
  by (simp_all add: require_def)

lemma ok_or_simps [simp]:
  "ok_or None e = Inl e"
  "ok_or (Some x) e = Inr x"
  by (simp_all add: ok_or_def)

lemma bindE_Inr_iff [res_simps]:
  "bindE m k = Inr y \<longleftrightarrow> (\<exists>x. m = Inr x \<and> k x = Inr y)"
  by (cases m) simp_all

lemma bindE_Inl_iff:
  "bindE m k = Inl e \<longleftrightarrow> m = Inl e \<or> (\<exists>x. m = Inr x \<and> k x = Inl e)"
  by (cases m) simp_all

lemma require_Inr_iff [res_simps]:
  "require c e k = Inr y \<longleftrightarrow> c \<and> k = Inr y"
  by (cases c) simp_all

lemma require_Inl_iff:
  "require c e k = Inl f \<longleftrightarrow> (\<not> c \<and> e = f) \<or> (c \<and> k = Inl f)"
  by (cases c) simp_all

lemma ok_or_Inr_iff [res_simps]: "ok_or v e = Inr y \<longleftrightarrow> v = Some y"
  by (cases v) simp_all

lemma ok_or_Inl_iff: "ok_or v e = Inl f \<longleftrightarrow> v = None \<and> e = f"
  by (cases v) auto

lemma bindE_assoc: "bindE (bindE m k) h = bindE m (\<lambda>x. bindE (k x) h)"
  by (cases m) simp_all

lemma bindE_cong [fundef_cong]:
  "m = m' \<Longrightarrow> (\<And>x. m' = Inr x \<Longrightarrow> k x = k' x) \<Longrightarrow> bindE m k = bindE m' k'"
  by (cases m') simp_all

lemma not_isl_obtain:
  assumes "\<not> isl m"
  obtains x where "m = Inr x"
  using assms by (cases m) simp_all

section \<open>Words as naturals\<close>

lemma unat_less_2p: "unat (w :: 'a::len word) < 2 ^ LENGTH('a)"
  by (rule unsigned_less)

lemma word_eq_iff_unat: "(a :: 'a::len word) = b \<longleftrightarrow> unat a = unat b"
  by (rule word_unat_eq_iff)

lemma unat_add_ok: "unat (a :: 'a::len word) + unat b < 2 ^ LENGTH('a) \<Longrightarrow> unat (a + b) = unat a + unat b"
  by (simp add: unat_add_lem)

lemma unat_mult_ok: "unat (a :: 'a::len word) * unat b < 2 ^ LENGTH('a) \<Longrightarrow> unat (a * b) = unat a * unat b"
  by (simp add: unat_mult_lem)

lemma unat_sub_ok: "unat b \<le> unat a \<Longrightarrow> unat (a - b :: 'a::len word) = unat a - unat b"
  by (simp add: unat_sub word_le_nat_alt)

lemma unat_ucast_widen:
  "LENGTH('a) \<le> LENGTH('b) \<Longrightarrow> unat (ucast (w :: 'a::len word) :: 'b::len word) = unat w"
  by (simp add: unsigned_ucast_eq take_bit_nat_eq_self order_less_le_trans [OF unat_less_2p])

section \<open>Byte encodings of integers\<close>

text \<open>\<open>to_le_bytes\<close> and \<open>to_be_bytes\<close> of the integer types: the bytes of the word,
  least and most significant byte first.\<close>

definition to_le_bytes :: "'a::len word \<Rightarrow> bytes" where
  "to_le_bytes w = map (\<lambda>i. ucast (drop_bit (8 * i) w)) [0..<LENGTH('a) div 8]"

definition to_be_bytes :: "'a::len word \<Rightarrow> bytes" where
  "to_be_bytes w = rev (to_le_bytes w)"

definition bool_byte :: "bool \<Rightarrow> u8" where
  "bool_byte b = (if b then 1 else 0)"

text \<open>\<open>u16::from_be_bytes([hi, lo])\<close>.\<close>

definition u16_from_be_bytes :: "u8 \<Rightarrow> u8 \<Rightarrow> u16" where
  "u16_from_be_bytes hi lo = ucast hi * 256 + ucast lo"

text \<open>Borsh writes an array of integers as their little-endian bytes.\<close>

fun borsh_u64x4 :: "u64x4 \<Rightarrow> bytes" where
  "borsh_u64x4 (a, b, c, d) = to_le_bytes a @ to_le_bytes b @ to_le_bytes c @ to_le_bytes d"

lemma length_to_le_bytes [simp]: "length (to_le_bytes (w :: 'a::len word)) = LENGTH('a) div 8"
  by (simp add: to_le_bytes_def)

lemma length_to_be_bytes [simp]: "length (to_be_bytes (w :: 'a::len word)) = LENGTH('a) div 8"
  by (simp add: to_be_bytes_def)

lemma to_le_bytes_inj:
  assumes eq: "to_le_bytes (v :: 'a::len word) = to_le_bytes w" and dvd: "8 dvd LENGTH('a)"
  shows "v = w"
proof (rule bit_word_eqI)
  fix n assume n: "n < LENGTH('a)"
  have lt: "n div 8 < LENGTH('a) div 8" using n dvd by (simp add: less_mult_imp_div_less)
  from arg_cong [OF eq, of "\<lambda>xs. xs ! (n div 8)"]
  have "(ucast (drop_bit (8 * (n div 8)) v) :: u8) = ucast (drop_bit (8 * (n div 8)) w)"
    using lt by (simp add: to_le_bytes_def)
  from arg_cong [OF this, of "\<lambda>b. bit b (n mod 8)"]
  show "bit v n = bit w n" by (simp add: bit_simps)
qed

lemma to_be_bytes_inj:
  assumes "to_be_bytes (v :: 'a::len word) = to_be_bytes w" and "8 dvd LENGTH('a)"
  shows "v = w"
  using assms to_le_bytes_inj [of v w] by (simp add: to_be_bytes_def)

lemma bool_byte_inj [simp]: "bool_byte a = bool_byte b \<longleftrightarrow> a = b"
  by (simp add: bool_byte_def)

lemma length_borsh_u64x4 [simp]: "length (borsh_u64x4 x) = 32"
  by (cases x) simp

lemma borsh_u64x4_inj: "borsh_u64x4 x = borsh_u64x4 y \<longleftrightarrow> x = y"
  by (cases x; cases y) (auto dest: to_le_bytes_inj)

lemma to_be_bytes_eq_iff:
  "to_be_bytes (a :: 16 word) = to_be_bytes a' \<longleftrightarrow> a = a'"
  "to_be_bytes (b :: 32 word) = to_be_bytes b' \<longleftrightarrow> b = b'"
  "to_be_bytes (c :: 64 word) = to_be_bytes c' \<longleftrightarrow> c = c'"
  by (auto dest: to_be_bytes_inj)

lemma to_le_bytes_eq_iff:
  "to_le_bytes (a :: 16 word) = to_le_bytes a' \<longleftrightarrow> a = a'"
  "to_le_bytes (b :: 32 word) = to_le_bytes b' \<longleftrightarrow> b = b'"
  "to_le_bytes (c :: 64 word) = to_le_bytes c' \<longleftrightarrow> c = c'"
  by (auto dest: to_le_bytes_inj)

lemma unat_u16_from_be_bytes:
  "unat (u16_from_be_bytes hi lo) = unat hi * 256 + unat lo"
proof -
  have hi: "unat hi < 256" and lo: "unat lo < 256"
    using unat_less_2p [of hi] unat_less_2p [of lo] by simp_all
  have "unat (ucast hi * 256 :: u16) = unat hi * 256"
    using hi by (subst unat_mult_ok) (simp_all add: unat_ucast_widen)
  moreover have "unat (ucast lo :: u16) = unat lo" by (simp add: unat_ucast_widen)
  ultimately show ?thesis
    unfolding u16_from_be_bytes_def using hi lo by (subst unat_add_ok) simp_all
qed

section \<open>Division\<close>

lemma div_le_of_le_mult: "(a :: nat) \<le> b * c \<Longrightarrow> a div c \<le> b"
  by (metis div_by_0 div_le_mono le0 nonzero_mult_div_cancel_right)

text \<open>The ceiling quotient, the reference for the rounding-up divisions of the sources.\<close>

definition ceil_div :: "nat \<Rightarrow> nat \<Rightarrow> nat" where
  "ceil_div a b = (a + (b - 1)) div b"

lemma ceil_div_le_iff: "0 < b \<Longrightarrow> ceil_div a b \<le> c \<longleftrightarrow> a \<le> c * b"
proof -
  assume b: "0 < b"
  have "ceil_div a b \<le> c \<longleftrightarrow> a + (b - 1) < (c + 1) * b"
    unfolding ceil_div_def using b by (metis Suc_eq_plus1 div_less_iff_less_mult less_Suc_eq_le)
  also have "\<dots> \<longleftrightarrow> a \<le> c * b" using b by (auto simp: algebra_simps)
  finally show ?thesis .
qed

lemma ceil_div_upper: "0 < b \<Longrightarrow> a \<le> ceil_div a b * b"
  using ceil_div_le_iff by blast

lemma ceil_div_tight: "0 < b \<Longrightarrow> 0 < a \<Longrightarrow> (ceil_div a b - 1) * b < a"
proof (rule ccontr)
  assume b: "0 < b" and a: "0 < a" and "\<not> (ceil_div a b - 1) * b < a"
  then have "ceil_div a b \<le> ceil_div a b - 1" by (simp add: ceil_div_le_iff)
  then have "ceil_div a b = 0" by simp
  with a b show False using ceil_div_upper [of b a] by simp
qed

lemma ceil_div_mono: "a \<le> a' \<Longrightarrow> ceil_div a b \<le> ceil_div a' b"
  by (simp add: ceil_div_def div_le_mono)

end
