(* ===== verification/Errors.thy ===== *)
theory Errors
  imports Prelude
begin

text \<open>
  The errors the programs return, as values: \<open>EscrowError\<close> of \<open>common/src/error.rs\<close>,
  \<open>WhitelistError\<close> of \<open>programs/whitelist/src/error.rs\<close>, and the errors that reach them
  through the libraries they call.  \<open>Panic\<close> is a Rust panic: the workspace is built with
  \<open>overflow-checks = true\<close>, so arithmetic overflow aborts the transaction.  The theory
  also holds the checked and the panicking integer operations of Rust.
\<close>

section \<open>Error values\<close>

datatype EscrowError =
    ZeroAmountOrDeposit
  | SafetyDepositTooLarge
  | InvalidSecret
  | InvalidAccount
  | InvalidAmount
  | InvalidPartsAmount
  | InvalidCreationTime
  | InvalidTime
  | InvalidRescueStart
  | InvalidMint
  | MissingCreatorAta
  | MissingRecipientAta
  | InconsistentNativeTrait
  | CancelOrderByResolverIsForbidden
  | OrderNotExpired
  | OrderHasExpired
  | DutchAuctionDataHashMismatch
  | InvalidCancellationFee
  | InvalidMerkleProof
  | InvalidPartialFill
  | InconsistentMerkleProofTrait

datatype WhitelistError = Unauthorized

datatype ProgramError = ArithmeticOverflow

text \<open>The errors Anchor raises for the account constraints the sources declare.\<close>

datatype AnchorError =
    DeclaredProgramIdMismatch
  | AccountNotSigner
  | AccountNotInitialized
  | AccountDiscriminatorMismatch
  | ConstraintSeeds
  | ConstraintTokenMint
  | ConstraintTokenOwner
  | ConstraintAssociated
  | AccountNotAssociatedTokenAccount
  | ConstraintClose
  | ConstraintAssociatedTokenTokenProgram
  | ConstraintAddress
  | InvalidProgramId
  | BorshSerialization

text \<open>The errors of the programs called across a program boundary.\<close>

datatype CpiError =
    MissingRequiredSignature
  | InsufficientFunds
  | LamportOverflow
  | AccountAlreadyInUse
  | InvalidAccountData
  | MintMismatch
  | NonNativeHasBalance
  | OtherCpiError nat

datatype err =
    Escrow EscrowError
  | Whitelist WhitelistError
  | Program ProgramError
  | Anchor AnchorError
  | Cpi CpiError
  | Panic

type_synonym 'a res = "err + 'a"

section \<open>Checked and panicking arithmetic\<close>

text \<open>\<open>checked_add\<close>, \<open>checked_mul\<close>, \<open>checked_div\<close>: \<open>None\<close> where the exact result
  does not fit the width, or the divisor is zero.\<close>

definition checked_add :: "'a::len word \<Rightarrow> 'a word \<Rightarrow> 'a word option" where
  "checked_add a b = (if unat a + unat b < 2 ^ LENGTH('a) then Some (a + b) else None)"

definition checked_mul :: "'a::len word \<Rightarrow> 'a word \<Rightarrow> 'a word option" where
  "checked_mul a b = (if unat a * unat b < 2 ^ LENGTH('a) then Some (a * b) else None)"

definition checked_div :: "'a::len word \<Rightarrow> 'a word \<Rightarrow> 'a word option" where
  "checked_div a b = (if b = 0 then None else Some (a div b))"

text \<open>\<open>expect\<close> and \<open>unwrap\<close> panic on \<open>None\<close>.\<close>

definition expect :: "'a option \<Rightarrow> 'a res" where
  "expect v = ok_or v Panic"

text \<open>The operators \<open>+\<close>, \<open>-\<close>, \<open>*\<close>, \<open>/\<close> of an unsigned type, with overflow checks.\<close>

definition add_u :: "'a::len word \<Rightarrow> 'a word \<Rightarrow> 'a word res" where
  "add_u a b = expect (checked_add a b)"

definition sub_u :: "'a::len word \<Rightarrow> 'a word \<Rightarrow> 'a word res" where
  "sub_u a b = (if b \<le> a then Inr (a - b) else Inl Panic)"

definition mul_u :: "'a::len word \<Rightarrow> 'a word \<Rightarrow> 'a word res" where
  "mul_u a b = expect (checked_mul a b)"

definition div_u :: "'a::len word \<Rightarrow> 'a word \<Rightarrow> 'a word res" where
  "div_u a b = expect (checked_div a b)"

lemma expect_simps [simp]: "expect None = Inl Panic" "expect (Some x) = Inr x"
  by (simp_all add: expect_def)

lemma expect_Inr_iff [res_simps]: "expect v = Inr y \<longleftrightarrow> v = Some y"
  by (simp add: expect_def ok_or_Inr_iff)

lemma checked_add_Some_iff [res_simps]:
  "checked_add a b = Some c \<longleftrightarrow> unat a + unat b = unat (c :: 'a::len word)"
proof
  assume "checked_add a b = Some c"
  then show "unat a + unat b = unat c"
    by (auto simp: checked_add_def unat_add_ok split: if_splits)
next
  assume eq: "unat a + unat b = unat c"
  then have "unat a + unat b < 2 ^ LENGTH('a)" by (simp add: unat_less_2p)
  then show "checked_add a b = Some c"
    by (simp add: checked_add_def word_eq_iff_unat unat_add_ok eq)
qed

lemma checked_mul_Some_iff [res_simps]:
  "checked_mul a b = Some c \<longleftrightarrow> unat a * unat b = unat (c :: 'a::len word)"
proof
  assume "checked_mul a b = Some c"
  then show "unat a * unat b = unat c"
    by (auto simp: checked_mul_def unat_mult_ok split: if_splits)
next
  assume eq: "unat a * unat b = unat c"
  then have "unat a * unat b < 2 ^ LENGTH('a)" by (simp add: unat_less_2p)
  then show "checked_mul a b = Some c"
    by (simp add: checked_mul_def word_eq_iff_unat unat_mult_ok eq)
qed

lemma checked_div_Some_iff [res_simps]:
  "checked_div a b = Some c \<longleftrightarrow> unat b \<noteq> 0 \<and> unat a div unat b = unat c"
  by (auto simp: checked_div_def word_eq_iff_unat unat_div_distrib)

lemma add_u_Inr_iff [res_simps]: "add_u a b = Inr c \<longleftrightarrow> unat a + unat b = unat c"
  by (simp add: add_u_def res_simps)

lemma sub_u_Inr_iff [res_simps]: "sub_u a b = Inr c \<longleftrightarrow> unat b \<le> unat a \<and> unat a - unat b = unat c"
  by (auto simp: sub_u_def word_le_nat_alt word_eq_iff_unat unat_sub)

lemma mul_u_Inr_iff [res_simps]: "mul_u a b = Inr c \<longleftrightarrow> unat a * unat b = unat c"
  by (simp add: mul_u_def res_simps)

lemma div_u_Inr_iff [res_simps]: "div_u a b = Inr c \<longleftrightarrow> unat b \<noteq> 0 \<and> unat a div unat b = unat c"
  by (simp add: div_u_def res_simps)

text \<open>Total versions, to rewrite a computation known not to overflow.\<close>

lemma add_u_ok [num_simps]:
  "unat a + unat b < 2 ^ LENGTH('a) \<Longrightarrow> add_u a b = Inr (a + b :: 'a::len word)"
  by (simp add: add_u_def checked_add_def)

lemma sub_u_ok [num_simps]: "unat b \<le> unat a \<Longrightarrow> sub_u a b = Inr (a - b)"
  by (simp add: sub_u_def word_le_nat_alt)

lemma mul_u_ok [num_simps]:
  "unat a * unat b < 2 ^ LENGTH('a) \<Longrightarrow> mul_u a b = Inr (a * b :: 'a::len word)"
  by (simp add: mul_u_def checked_mul_def)

lemma div_u_ok [num_simps]: "unat b \<noteq> 0 \<Longrightarrow> div_u a b = Inr (a div b)"
  by (auto simp: div_u_def checked_div_def)

text \<open>The panics.\<close>

lemma sub_u_panic [num_simps]: "unat a < unat b \<Longrightarrow> sub_u a b = Inl Panic"
  by (simp add: sub_u_def word_le_nat_alt)

lemma mul_u_panic [num_simps]:
  "2 ^ LENGTH('a) \<le> unat a * unat b \<Longrightarrow> mul_u a (b :: 'a::len word) = Inl Panic"
  by (simp add: mul_u_def checked_mul_def)

lemma div_u_panic [num_simps]: "unat b = 0 \<Longrightarrow> div_u a b = Inl Panic"
  by (simp add: div_u_def checked_div_def unat_eq_zero)

end
