(* ===== verification/Timelocks.thy ===== *)
theory Timelocks
  imports Errors
begin

text \<open>
  \<open>common/src/timelocks.rs\<close> and \<open>common/src/utils.rs\<close>.  The timelocks of a swap are one
  256-bit integer: seven 32-bit delays, one for each stage, and the deployment time in the
  top 32 bits.  The lemmas read the packed integer field by field: writing the deployment
  time changes no delay, and \<open>get\<close> is the checked sum of deployment time and delay.
\<close>

section \<open>Constants of \<open>common/src/constants.rs\<close>\<close>

definition DISCRIMINATOR_BYTES :: nat where
  "DISCRIMINATOR_BYTES = 8"

definition RESCUE_DELAY :: u32 where
  "RESCUE_DELAY = 691200"

definition BASE_1E7 :: u64 where
  "BASE_1E7 = 10000000"

section \<open>256-bit integers as four limbs\<close>

text \<open>\<open>U256([u64; 4])\<close> lists the limbs from the least significant one; \<open>.0\<close> reads them back.\<close>

fun U256 :: "u64x4 \<Rightarrow> u256" where
  "U256 (a, b, c, d) =
     ucast a OR push_bit 64 (ucast b) OR push_bit 128 (ucast c) OR push_bit 192 (ucast d)"

definition limbs :: "u256 \<Rightarrow> u64x4" where
  "limbs w = (ucast w, ucast (drop_bit 64 w), ucast (drop_bit 128 w), ucast (drop_bit 192 w))"

text \<open>\<open>as_u32\<close> panics when the value does not fit.\<close>

definition as_u32 :: "u256 \<Rightarrow> u32 res" where
  "as_u32 w = (if unat w < 2 ^ 32 then Inr (ucast w) else Inl Panic)"

section \<open>The packed timelocks\<close>

datatype Timelocks = Timelocks u256

datatype Stage =
    SrcWithdrawal
  | SrcPublicWithdrawal
  | SrcCancellation
  | SrcPublicCancellation
  | DstWithdrawal
  | DstPublicWithdrawal
  | DstCancellation

fun stage_repr :: "Stage \<Rightarrow> nat" where
  "stage_repr SrcWithdrawal = 0"
| "stage_repr SrcPublicWithdrawal = 1"
| "stage_repr SrcCancellation = 2"
| "stage_repr SrcPublicCancellation = 3"
| "stage_repr DstWithdrawal = 4"
| "stage_repr DstPublicWithdrawal = 5"
| "stage_repr DstCancellation = 6"

definition DEPLOYED_AT_OFFSET :: nat where
  "DEPLOYED_AT_OFFSET = 224"

definition STAGE_BIT_SIZE :: nat where
  "STAGE_BIT_SIZE = 32"

definition DEPLOYED_AT_MASK :: u256 where
  "DEPLOYED_AT_MASK = U256 (0, 0, 0, 0xffffffff00000000)"

fun get_timelocks :: "Timelocks \<Rightarrow> u64x4" where
  "get_timelocks (Timelocks w) = limbs w"

fun set_deployed_at :: "Timelocks \<Rightarrow> u32 \<Rightarrow> Timelocks" where
  "set_deployed_at (Timelocks w) value =
     (let cleared = w AND NOT DEPLOYED_AT_MASK
      in Timelocks (cleared OR push_bit DEPLOYED_AT_OFFSET (ucast value)))"

fun rescue_start :: "Timelocks \<Rightarrow> u32 \<Rightarrow> u32 res" where
  "rescue_start (Timelocks w) rescue_delay =
     bindE (as_u32 (drop_bit DEPLOYED_AT_OFFSET w)) (\<lambda>deployed_at.
     ok_or (checked_add deployed_at rescue_delay) (Program ArithmeticOverflow))"

fun get :: "Timelocks \<Rightarrow> Stage \<Rightarrow> u32 res" where
  "get (Timelocks w) stage =
     (let shift = stage_repr stage * STAGE_BIT_SIZE in
      bindE (as_u32 (drop_bit DEPLOYED_AT_OFFSET w)) (\<lambda>deployed_at.
      bindE (as_u32 (drop_bit shift w AND ucast (0xffffffff :: u32))) (\<lambda>delta.
      ok_or (checked_add deployed_at delta) (Program ArithmeticOverflow))))"

text \<open>\<open>now >= timelocks.get(from)? && now < timelocks.get(until)?\<close>, with its short circuit.\<close>

definition in_window :: "u32 \<Rightarrow> Timelocks \<Rightarrow> Stage \<Rightarrow> Stage \<Rightarrow> bool res" where
  "in_window t timelocks since until =
     bindE (get timelocks since) (\<lambda>s.
     if t \<ge> s then bindE (get timelocks until) (\<lambda>u. Inr (t < u)) else Inr False)"

section \<open>The clock\<close>

text \<open>\<open>Clock::get()?.unix_timestamp\<close> is an \<open>i64\<close>; the cast to \<open>u32\<close> keeps the low 32 bits.\<close>

definition get_current_timestamp :: "64 word \<Rightarrow> u32" where
  "get_current_timestamp unix_timestamp = ucast unix_timestamp"

section \<open>Reading the fields\<close>

definition deployed_at :: "u256 \<Rightarrow> u32" where
  "deployed_at w = ucast (drop_bit 224 w)"

definition delta :: "u256 \<Rightarrow> Stage \<Rightarrow> u32" where
  "delta w s = ucast (drop_bit (32 * stage_repr s) w)"

lemma U256_limbs [simp]: "U256 (limbs w) = w"
proof (rule bit_word_eqI)
  fix n assume "n < LENGTH(256)"
  then consider "n < 64" | "64 \<le> n" "n < 128" | "128 \<le> n" "n < 192" | "192 \<le> n" "n < 256"
    by fastforce
  then show "bit (U256 (limbs w)) n = bit w n"
    by cases (auto simp: limbs_def bit_simps)
qed

lemma limbs_U256 [simp]: "limbs (U256 x) = x"
proof (cases x)
  case (fields a b c d)
  have "ucast (U256 (a, b, c, d)) = a"
    by (rule bit_word_eqI) (auto simp: bit_simps dest: bit_imp_le_length)
  moreover have "ucast (drop_bit 64 (U256 (a, b, c, d))) = b"
    by (rule bit_word_eqI) (auto simp: bit_simps dest: bit_imp_le_length)
  moreover have "ucast (drop_bit 128 (U256 (a, b, c, d))) = c"
    by (rule bit_word_eqI) (auto simp: bit_simps dest: bit_imp_le_length)
  moreover have "ucast (drop_bit 192 (U256 (a, b, c, d))) = d"
    by (rule bit_word_eqI) (auto simp: bit_simps dest: bit_imp_le_length)
  ultimately show ?thesis by (simp add: fields limbs_def)
qed

lemma stage_repr_le: "stage_repr s \<le> 6"
  by (cases s) simp_all

lemma bit_DEPLOYED_AT_MASK: "bit DEPLOYED_AT_MASK n \<longleftrightarrow> 224 \<le> n \<and> n < 256"
proof -
  have eq: "DEPLOYED_AT_MASK = push_bit 224 (mask 32)"
    by (simp add: DEPLOYED_AT_MASK_def mask_eq_exp_minus_1)
  show ?thesis unfolding eq bit_push_bit_iff bit_mask_iff by auto
qed

lemma as_u32_deployed: "as_u32 (drop_bit DEPLOYED_AT_OFFSET w) = Inr (deployed_at w)"
proof -
  have "unat (drop_bit 224 w) < 2 ^ 32"
    unfolding unat_drop_bit_eq using unat_less_2p [of w] by (simp add: drop_bit_eq_div less_mult_imp_div_less)
  then show ?thesis by (simp add: as_u32_def DEPLOYED_AT_OFFSET_def deployed_at_def)
qed

lemma as_u32_delta:
  "as_u32 (drop_bit (stage_repr s * STAGE_BIT_SIZE) w AND ucast (0xffffffff :: u32)) = Inr (delta w s)"
proof -
  let ?v = "drop_bit (stage_repr s * STAGE_BIT_SIZE) w AND ucast (0xffffffff :: u32)"
  have m: "ucast (0xffffffff :: u32) = (mask 32 :: u256)"
    by (simp add: mask_eq_exp_minus_1)
  have v: "?v = take_bit 32 (drop_bit (32 * stage_repr s) w)"
    unfolding m STAGE_BIT_SIZE_def take_bit_eq_mask by (simp only: mult.commute)
  have "unat ?v < 2 ^ 32" unfolding v unsigned_take_bit_eq by (rule take_bit_nat_less_exp)
  moreover have "(ucast ?v :: u32) = delta w s"
    unfolding v delta_def by (rule bit_word_eqI) (simp add: bit_simps)
  ultimately show ?thesis by (simp add: as_u32_def)
qed

lemma get_eq:
  "get (Timelocks w) s =
     (if unat (deployed_at w) + unat (delta w s) < 2 ^ 32
      then Inr (deployed_at w + delta w s) else Inl (Program ArithmeticOverflow))"
  unfolding get.simps Let_def as_u32_deployed as_u32_delta by (simp add: checked_add_def)

lemma rescue_start_eq:
  "rescue_start (Timelocks w) d =
     (if unat (deployed_at w) + unat d < 2 ^ 32
      then Inr (deployed_at w + d) else Inl (Program ArithmeticOverflow))"
  by (simp add: as_u32_deployed checked_add_def)

declare get.simps [simp del] rescue_start.simps [simp del]

lemma get_Inr_iff:
  "get (Timelocks w) s = Inr t \<longleftrightarrow> unat (deployed_at w) + unat (delta w s) = unat t"
  using unat_less_2p [of t] by (auto simp: get_eq unat_add_ok word_eq_iff_unat)

lemma rescue_start_Inr_iff:
  "rescue_start (Timelocks w) d = Inr t \<longleftrightarrow> unat (deployed_at w) + unat d = unat t"
  using unat_less_2p [of t] by (auto simp: rescue_start_eq unat_add_ok word_eq_iff_unat)

text \<open>The fields in the limbs.\<close>

lemma deployed_at_U256: "deployed_at (U256 (a, b, c, d)) = ucast (drop_bit 32 d)"
  unfolding deployed_at_def by (rule bit_word_eqI) (auto simp: bit_simps dest: bit_imp_le_length)

lemma delta_U256:
  "delta (U256 (a, b, c, d)) SrcWithdrawal = ucast a"
  "delta (U256 (a, b, c, d)) SrcPublicWithdrawal = ucast (drop_bit 32 a)"
  "delta (U256 (a, b, c, d)) SrcCancellation = ucast b"
  "delta (U256 (a, b, c, d)) SrcPublicCancellation = ucast (drop_bit 32 b)"
  "delta (U256 (a, b, c, d)) DstWithdrawal = ucast c"
  "delta (U256 (a, b, c, d)) DstPublicWithdrawal = ucast (drop_bit 32 c)"
  "delta (U256 (a, b, c, d)) DstCancellation = ucast d"
  unfolding delta_def by (rule bit_word_eqI, auto simp: bit_simps dest: bit_imp_le_length)+

text \<open>A window is open exactly between its two stages.\<close>

lemma in_window_Inr_iff:
  "in_window t (Timelocks w) s u = Inr True \<longleftrightarrow>
     unat (deployed_at w) + unat (delta w s) \<le> unat t \<and> unat t < unat (deployed_at w) + unat (delta w u)
     \<and> unat (deployed_at w) + unat (delta w u) < 2 ^ 32"
proof
  assume "in_window t (Timelocks w) s u = Inr True"
  then obtain a where a: "get (Timelocks w) s = Inr a" and
    b: "(if t \<ge> a then bindE (get (Timelocks w) u) (\<lambda>u. Inr (t < u)) else Inr False) = Inr True"
    by (auto simp: in_window_def res_simps)
  then obtain b where b: "a \<le> t" "get (Timelocks w) u = Inr b" "t < b"
    by (auto simp: res_simps split: if_splits)
  then show "unat (deployed_at w) + unat (delta w s) \<le> unat t \<and> unat t < unat (deployed_at w) + unat (delta w u)
     \<and> unat (deployed_at w) + unat (delta w u) < 2 ^ 32"
    using a unat_less_2p [of b] by (auto simp: get_Inr_iff word_le_nat_alt word_less_nat_alt)
next
  assume r: "unat (deployed_at w) + unat (delta w s) \<le> unat t \<and> unat t < unat (deployed_at w) + unat (delta w u)
     \<and> unat (deployed_at w) + unat (delta w u) < 2 ^ 32"
  then have "unat (deployed_at w) + unat (delta w s) < 2 ^ 32"
    using unat_less_2p [of t] by simp
  with r show "in_window t (Timelocks w) s u = Inr True"
    by (simp add: in_window_def get_eq word_le_nat_alt word_less_nat_alt unat_add_ok)
qed

text \<open>Writing the deployment time.\<close>

definition with_deployed_at :: "u256 \<Rightarrow> u32 \<Rightarrow> u256" where
  "with_deployed_at w v = (w AND NOT DEPLOYED_AT_MASK) OR push_bit 224 (ucast v)"

lemma set_deployed_at_eq: "set_deployed_at (Timelocks w) v = Timelocks (with_deployed_at w v)"
  by (simp add: with_deployed_at_def DEPLOYED_AT_OFFSET_def)

declare set_deployed_at.simps [simp del]

lemma deployed_at_set [simp]: "deployed_at (with_deployed_at w v) = v"
  unfolding deployed_at_def with_deployed_at_def
  by (rule bit_word_eqI) (auto simp: bit_simps bit_DEPLOYED_AT_MASK)

lemma delta_set [simp]: "delta (with_deployed_at w v) s = delta w s"
  unfolding delta_def with_deployed_at_def
  using stage_repr_le [of s]
  by (intro bit_word_eqI) (auto simp: bit_simps bit_DEPLOYED_AT_MASK)

lemma with_deployed_at_U256:
  "with_deployed_at (U256 (a, b, c, d)) v = U256 (a, b, c, take_bit 32 d OR push_bit 32 (ucast v))"
proof (rule bit_word_eqI)
  fix n assume "n < LENGTH(256)"
  then consider "n < 64" | "64 \<le> n" "n < 128" | "128 \<le> n" "n < 192" | "192 \<le> n" "n < 224" | "224 \<le> n" "n < 256"
    by fastforce
  then show "bit (with_deployed_at (U256 (a, b, c, d)) v) n
    = bit (U256 (a, b, c, take_bit 32 d OR push_bit 32 (ucast v))) n"
    unfolding with_deployed_at_def
    by cases (auto simp: bit_simps bit_DEPLOYED_AT_MASK dest: bit_imp_le_length)
qed

section \<open>The order of the stages\<close>

instantiation Stage :: linorder
begin

definition less_eq_Stage :: "Stage \<Rightarrow> Stage \<Rightarrow> bool" where
  "s \<le> t \<longleftrightarrow> stage_repr s \<le> stage_repr t"

definition less_Stage :: "Stage \<Rightarrow> Stage \<Rightarrow> bool" where
  "s < t \<longleftrightarrow> stage_repr s < stage_repr t"

instance
proof
  fix s t :: Stage
  assume "s \<le> t" and "t \<le> s"
  then have "stage_repr s = stage_repr t" by (simp add: less_eq_Stage_def)
  then show "s = t" by (cases s; cases t) simp_all
qed (auto simp: less_eq_Stage_def less_Stage_def)

end

text \<open>C34: the timelocks stored when a contract is deployed at time \<open>now\<close> read back as that
  time plus the delay of the stage, computed without wrap-around: the delays the maker fixed
  are not disturbed, and a sum past \<open>2^32 - 1\<close> is reported as an arithmetic overflow.\<close>

theorem get_set_deployed_at:
  "get (set_deployed_at (Timelocks w) now) s =
     (if unat now + unat (delta w s) < 2 ^ 32
      then Inr (now + delta w s) else Inl (Program ArithmeticOverflow))"
  by (simp add: set_deployed_at_eq get_eq)

end
