(* ===== verification/Accounts.thy ===== *)
theory Accounts
  imports Timelocks
begin

text \<open>
  The state the programs work on.  Every program of the repository keeps its state in
  accounts of the Solana ledger; the records here are the account types the sources declare
  (\<open>Order\<close> and \<open>EscrowSrc\<close> of the source program, \<open>EscrowDst\<close> of the destination program,
  \<open>WhitelistState\<close> and \<open>ResolverAccess\<close> of the whitelist), together with the token accounts
  and mints they refer to.  A ledger maps public keys to lamport balances, token accounts,
  mints and program data.
\<close>

section \<open>Account types of the programs\<close>

record Order =
  o_order_hash :: bytes
  o_hashlock :: bytes
  o_creator :: pubkey
  o_token :: pubkey
  o_amount :: u64
  o_remaining_amount :: u64
  o_safety_deposit :: u64
  o_timelocks :: u64x4
  o_expiration_time :: u32
  o_asset_is_native :: bool
  o_dst_amount :: u64x4
  o_dutch_auction_data_hash :: bytes
  o_max_cancellation_premium :: u64
  o_cancellation_auction_duration :: u32
  o_allow_multiple_fills :: bool
  o_bump :: u8

record EscrowSrc =
  es_order_hash :: bytes
  es_hashlock :: bytes
  es_maker :: pubkey
  es_taker :: pubkey
  es_token :: pubkey
  es_amount :: u64
  es_safety_deposit :: u64
  es_timelocks :: u64x4
  es_asset_is_native :: bool
  es_dst_amount :: u64x4
  es_bump :: u8

record EscrowDst =
  ed_order_hash :: bytes
  ed_hashlock :: bytes
  ed_creator :: pubkey
  ed_recipient :: pubkey
  ed_token :: pubkey
  ed_asset_is_native :: bool
  ed_amount :: u64
  ed_safety_deposit :: u64
  ed_timelocks :: u64x4
  ed_bump :: u8

record WhitelistState =
  authority :: pubkey

record ResolverAccess =
  ra_bump :: u8

text \<open>The sizes \<open>derive(InitSpace)\<close> computes: the sum of the sizes of the fields.\<close>

definition Order_INIT_SPACE :: nat where
  "Order_INIT_SPACE = 4 * 32 + 3 * 8 + 32 + 4 + 1 + 32 + 32 + 8 + 4 + 1 + 1"

definition EscrowSrc_INIT_SPACE :: nat where
  "EscrowSrc_INIT_SPACE = 5 * 32 + 2 * 8 + 32 + 1 + 32 + 1"

definition EscrowDst_INIT_SPACE :: nat where
  "EscrowDst_INIT_SPACE = 5 * 32 + 1 + 2 * 8 + 32 + 1"

definition WhitelistState_INIT_SPACE :: nat where
  "WhitelistState_INIT_SPACE = 32"

definition ResolverAccess_INIT_SPACE :: nat where
  "ResolverAccess_INIT_SPACE = 1"

section \<open>Program identities\<close>

text \<open>The keys of \<open>declare_id!\<close>, base 58 in the sources.\<close>

definition src_ID :: pubkey where
  "src_ID = [24, 221, 16, 241, 23, 34, 28, 255, 120, 244, 92, 16, 185, 98, 218, 184,
     90, 119, 4, 210, 166, 236, 114, 206, 50, 204, 117, 190, 214, 240, 228, 97]"

definition dst_ID :: pubkey where
  "dst_ID = [236, 157, 120, 48, 195, 205, 9, 112, 21, 36, 177, 17, 213, 209, 151, 164,
     39, 68, 106, 87, 0, 110, 0, 39, 223, 5, 11, 86, 66, 108, 239, 207]"

definition whitelist_ID :: pubkey where
  "whitelist_ID = [170, 5, 244, 79, 146, 16, 119, 74, 230, 143, 46, 226, 18, 94, 39, 74,
     77, 83, 134, 201, 103, 219, 237, 226, 10, 41, 63, 132, 147, 102, 240, 110]"

text \<open>Seed prefixes: the bytes of \<open>"order"\<close>, \<open>"escrow"\<close> and \<open>"whitelist_state"\<close>.\<close>

definition ascii :: "string \<Rightarrow> bytes" where
  "ascii s = map (\<lambda>c. of_nat (of_char c)) s"

definition ORDER_SEED :: bytes where
  "ORDER_SEED = ascii ''order''"

definition ESCROW_SEED :: bytes where
  "ESCROW_SEED = ascii ''escrow''"

definition WHITELIST_STATE_SEED :: bytes where
  "WHITELIST_STATE_SEED = ascii ''whitelist_state''"

section \<open>The ledger\<close>

text \<open>A token account of an SPL token program; \<open>ta_native\<close> is \<open>is_native\<close>, the rent reserve
  of an account of wrapped SOL.\<close>

record TokenAccount =
  ta_mint :: pubkey
  ta_owner :: pubkey
  ta_amount :: u64
  ta_native :: "u64 option"
  ta_program :: pubkey

record Mint =
  m_decimals :: u8
  m_program :: pubkey

datatype ProgramData =
    OrderAcc Order
  | EscrowSrcAcc EscrowSrc
  | EscrowDstAcc EscrowDst
  | WhitelistAcc WhitelistState
  | ResolverAcc ResolverAccess

record ledger =
  lam :: "pubkey \<Rightarrow> u64"
  tok :: "pubkey \<rightharpoonup> TokenAccount"
  mints :: "pubkey \<rightharpoonup> Mint"
  prog :: "pubkey \<rightharpoonup> ProgramData"

definition no_data :: "ledger \<Rightarrow> pubkey \<Rightarrow> bool" where
  "no_data L k \<longleftrightarrow> prog L k = None \<and> tok L k = None \<and> mints L k = None"

definition set_data :: "pubkey \<Rightarrow> ProgramData \<Rightarrow> ledger \<Rightarrow> ledger" where
  "set_data k d L = L\<lparr>prog := (prog L)(k \<mapsto> d)\<rparr>"

text \<open>Balances as naturals, and their sum over a set of accounts.\<close>

definition lamports :: "ledger \<Rightarrow> pubkey \<Rightarrow> nat" where
  "lamports L k = unat (lam L k)"

definition tokens :: "ledger \<Rightarrow> pubkey \<Rightarrow> nat" where
  "tokens L k = (case tok L k of None \<Rightarrow> 0 | Some t \<Rightarrow> unat (ta_amount t))"

definition total_lamports :: "pubkey set \<Rightarrow> ledger \<Rightarrow> nat" where
  "total_lamports S L = (\<Sum>k\<in>S. lamports L k)"

definition total_tokens :: "pubkey set \<Rightarrow> ledger \<Rightarrow> nat" where
  "total_tokens S L = (\<Sum>k\<in>S. tokens L k)"

section \<open>The context of an instruction\<close>

record exec =
  program_id :: pubkey
  signers :: "pubkey list"
  unix_timestamp :: "64 word"

definition now :: "exec \<Rightarrow> u32" where
  "now x = get_current_timestamp (unix_timestamp x)"

lemma set_data_simps [simp]:
  "lam (set_data k d L) = lam L"
  "tok (set_data k d L) = tok L"
  "mints (set_data k d L) = mints L"
  "prog (set_data k d L) = (prog L)(k \<mapsto> d)"
  by (simp_all add: set_data_def)

lemma total_lamports_cong: "lam L = lam L' \<Longrightarrow> total_lamports S L = total_lamports S L'"
  by (simp add: total_lamports_def lamports_def)

end
