(* ===== verification/Runtime.thy ===== *)
theory Runtime
  imports Accounts
begin

text \<open>
  What the programs use of code outside the repository: the Keccak hash, the derivation of
  program addresses, and the calls into the system program, the SPL token programs and the
  Anchor framework.  All of it is a parameter, the record \<open>runtime\<close>, passed to every
  definition that uses it.  What the programs rely on is stated as the named hypotheses
  \<open>system_ok\<close>, \<open>token_ok\<close> and \<open>anchor_ok\<close>: whenever such a call succeeds, its effect on the
  ledger is the documented one, given by the definitions \<open>spec_...\<close>.  A call may fail for any
  further reason.  \<open>spec_runtime\<close> is an instance in which the hypotheses hold.
\<close>

section \<open>The runtime\<close>

record runtime =
  keccak :: "bytes \<Rightarrow> bytes"
  create_program_address :: "bytes list \<Rightarrow> pubkey \<Rightarrow> pubkey option"
  find_program_address :: "bytes list \<Rightarrow> pubkey \<Rightarrow> pubkey \<times> u8"
  associated_token_address :: "pubkey \<Rightarrow> pubkey \<Rightarrow> pubkey \<Rightarrow> pubkey"
  minimum_balance :: "nat \<Rightarrow> u64"
  token_account_rent :: "pubkey \<Rightarrow> u64"
  native_mint :: pubkey
  system_program_id :: pubkey
  associated_token_program_id :: pubkey
  token_program_ids :: "pubkey list"
  rent_sysvar_id :: pubkey
  system_transfer :: "pubkey list \<Rightarrow> pubkey \<Rightarrow> pubkey \<Rightarrow> u64 \<Rightarrow> ledger \<Rightarrow> ledger res"
  transfer_checked ::
    "pubkey list \<Rightarrow> pubkey \<Rightarrow> pubkey \<Rightarrow> pubkey \<Rightarrow> pubkey \<Rightarrow> pubkey \<Rightarrow> u64 \<Rightarrow> u8 \<Rightarrow> ledger \<Rightarrow> ledger res"
  close_token_account :: "pubkey list \<Rightarrow> pubkey \<Rightarrow> pubkey \<Rightarrow> pubkey \<Rightarrow> pubkey \<Rightarrow> ledger \<Rightarrow> ledger res"
  sync_native :: "pubkey \<Rightarrow> pubkey \<Rightarrow> ledger \<Rightarrow> ledger res"
  init_account :: "pubkey list \<Rightarrow> pubkey \<Rightarrow> pubkey \<Rightarrow> nat \<Rightarrow> pubkey \<Rightarrow> ledger \<Rightarrow> ledger res"
  init_associated_token ::
    "pubkey list \<Rightarrow> pubkey \<Rightarrow> pubkey \<Rightarrow> pubkey \<Rightarrow> pubkey \<Rightarrow> pubkey \<Rightarrow> ledger \<Rightarrow> ledger res"
  close_program_account :: "pubkey \<Rightarrow> pubkey \<Rightarrow> ledger \<Rightarrow> ledger res"
  sub_lamports :: "pubkey \<Rightarrow> u64 \<Rightarrow> ledger \<Rightarrow> ledger res"
  add_lamports :: "pubkey \<Rightarrow> u64 \<Rightarrow> ledger \<Rightarrow> ledger res"

section \<open>Moving lamports\<close>

definition debit :: "pubkey \<Rightarrow> u64 \<Rightarrow> err \<Rightarrow> ledger \<Rightarrow> ledger res" where
  "debit k a e L = require (a \<le> lam L k) e (Inr (L\<lparr>lam := (lam L)(k := lam L k - a)\<rparr>))"

definition credit :: "pubkey \<Rightarrow> u64 \<Rightarrow> err \<Rightarrow> ledger \<Rightarrow> ledger res" where
  "credit k a e L =
     require (unat (lam L k) + unat a < 2 ^ 64) e (Inr (L\<lparr>lam := (lam L)(k := lam L k + a)\<rparr>))"

definition move_lamports :: "pubkey \<Rightarrow> pubkey \<Rightarrow> u64 \<Rightarrow> ledger \<Rightarrow> ledger res" where
  "move_lamports f t a L =
     bindE (debit f a (Cpi InsufficientFunds) L) (\<lambda>L1. credit t a (Cpi LamportOverflow) L1)"

section \<open>Documented effects\<close>

text \<open>System program: the source signs, holds no data and has the funds.\<close>

definition spec_system_transfer :: "pubkey list \<Rightarrow> pubkey \<Rightarrow> pubkey \<Rightarrow> u64 \<Rightarrow> ledger \<Rightarrow> ledger res" where
  "spec_system_transfer sg f t a L =
     require (f \<in> set sg) (Cpi MissingRequiredSignature)
     (require (no_data L f) (Cpi InvalidAccountData)
     (move_lamports f t a L))"

text \<open>Token program: \<open>TransferChecked\<close>.  The amounts of an account of wrapped SOL are backed
  by its lamports, which move with them.\<close>

definition move_tokens :: "pubkey \<Rightarrow> pubkey \<Rightarrow> u64 \<Rightarrow> ledger \<Rightarrow> ledger res" where
  "move_tokens f t a L =
     bindE (ok_or (tok L f) (Cpi InvalidAccountData)) (\<lambda>tf.
     require (a \<le> ta_amount tf) (Cpi InsufficientFunds)
     (let L1 = L\<lparr>tok := (tok L)(f \<mapsto> tf\<lparr>ta_amount := ta_amount tf - a\<rparr>)\<rparr> in
      bindE (ok_or (tok L1 t) (Cpi InvalidAccountData)) (\<lambda>tt.
      require (unat (ta_amount tt) + unat a < 2 ^ 64) (Cpi LamportOverflow)
      (Inr (L1\<lparr>tok := (tok L1)(t \<mapsto> tt\<lparr>ta_amount := ta_amount tt + a\<rparr>)\<rparr>)))))"

definition spec_transfer_checked ::
  "pubkey list \<Rightarrow> pubkey \<Rightarrow> pubkey \<Rightarrow> pubkey \<Rightarrow> pubkey \<Rightarrow> pubkey \<Rightarrow> u64 \<Rightarrow> u8 \<Rightarrow> ledger \<Rightarrow> ledger res" where
  "spec_transfer_checked sg program f mint t auth a decimals L =
     bindE (ok_or (tok L f) (Cpi InvalidAccountData)) (\<lambda>tf.
     bindE (ok_or (tok L t) (Cpi InvalidAccountData)) (\<lambda>tt.
     bindE (ok_or (mints L mint) (Cpi InvalidAccountData)) (\<lambda>m.
     require (ta_program tf = program \<and> ta_program tt = program) (Cpi InvalidAccountData)
     (require (ta_mint tf = mint \<and> ta_mint tt = mint \<and> m_decimals m = decimals) (Cpi MintMismatch)
     (require (auth \<in> set sg) (Cpi MissingRequiredSignature)
     (bindE (move_tokens f t a L) (\<lambda>L1.
      if ta_native tf = None then Inr L1 else move_lamports f t a L1)))))))"

text \<open>Token program: \<open>CloseAccount\<close>.  An account of wrapped SOL may be closed with a balance.\<close>

definition spec_close_token_account ::
  "pubkey list \<Rightarrow> pubkey \<Rightarrow> pubkey \<Rightarrow> pubkey \<Rightarrow> pubkey \<Rightarrow> ledger \<Rightarrow> ledger res" where
  "spec_close_token_account sg program account destination auth L =
     bindE (ok_or (tok L account) (Cpi InvalidAccountData)) (\<lambda>ta.
     require (auth \<in> set sg) (Cpi MissingRequiredSignature)
     (require (destination \<noteq> account) (Cpi InvalidAccountData)
     (require (ta_native ta \<noteq> None \<or> ta_amount ta = 0) (Cpi NonNativeHasBalance)
     (bindE (move_lamports account destination (lam L account) L) (\<lambda>L1.
      Inr (L1\<lparr>tok := (tok L1)(account := None)\<rparr>))))))"

text \<open>Token program: \<open>SyncNative\<close> sets the amount to the lamports above the rent reserve.\<close>

definition spec_sync_native :: "pubkey \<Rightarrow> pubkey \<Rightarrow> ledger \<Rightarrow> ledger res" where
  "spec_sync_native program account L =
     bindE (ok_or (tok L account) (Cpi InvalidAccountData)) (\<lambda>ta.
     bindE (ok_or (ta_native ta) (Cpi InvalidAccountData)) (\<lambda>reserve.
     require (reserve \<le> lam L account) (Cpi InvalidAccountData)
     (require (ta_amount ta \<le> lam L account - reserve) (Cpi InvalidAccountData)
     (Inr (L\<lparr>tok := (tok L)(account \<mapsto> ta\<lparr>ta_amount := lam L account - reserve\<rparr>)\<rparr>)))))"

text \<open>Anchor \<open>init\<close>: the account must be unused; the payer tops its lamports up to the rent.\<close>

definition top_up :: "pubkey list \<Rightarrow> pubkey \<Rightarrow> pubkey \<Rightarrow> u64 \<Rightarrow> ledger \<Rightarrow> ledger res" where
  "top_up sg payer key rent L =
     require (no_data L key) (Cpi AccountAlreadyInUse)
     (if lam L key < rent then spec_system_transfer sg payer key (rent - lam L key) L else Inr L)"

definition spec_init_account ::
  "(nat \<Rightarrow> u64) \<Rightarrow> pubkey list \<Rightarrow> pubkey \<Rightarrow> pubkey \<Rightarrow> nat \<Rightarrow> pubkey \<Rightarrow> ledger \<Rightarrow> ledger res" where
  "spec_init_account min_balance sg payer key space owner L = top_up sg payer key (min_balance space) L"

text \<open>Associated token program: creates the token account of a wallet and a mint.\<close>

definition spec_init_associated_token ::
  "pubkey \<Rightarrow> (pubkey \<Rightarrow> u64) \<Rightarrow> pubkey list \<Rightarrow> pubkey \<Rightarrow> pubkey \<Rightarrow> pubkey \<Rightarrow> pubkey \<Rightarrow> pubkey
    \<Rightarrow> ledger \<Rightarrow> ledger res" where
  "spec_init_associated_token nmint rent sg payer key wallet mint program L =
     bindE (top_up sg payer key (rent program) L) (\<lambda>L1.
     Inr (L1\<lparr>tok := (tok L1)(key \<mapsto>
       \<lparr>ta_mint = mint, ta_owner = wallet,
        ta_amount = (if mint = nmint then lam L1 key - rent program else 0),
        ta_native = (if mint = nmint then Some (rent program) else None),
        ta_program = program\<rparr>)\<rparr>))"

text \<open>Anchor \<open>close\<close>: the lamports go to the destination, the data is dropped.\<close>

definition spec_close_program_account :: "pubkey \<Rightarrow> pubkey \<Rightarrow> ledger \<Rightarrow> ledger res" where
  "spec_close_program_account key destination L =
     require (destination \<noteq> key) (Anchor ConstraintClose)
     (bindE (move_lamports key destination (lam L key) L) (\<lambda>L1.
      Inr (L1\<lparr>prog := (prog L1)(key := None)\<rparr>)))"

text \<open>Anchor \<open>sub_lamports\<close> and \<open>add_lamports\<close> change one balance, checked.\<close>

definition spec_sub_lamports :: "pubkey \<Rightarrow> u64 \<Rightarrow> ledger \<Rightarrow> ledger res" where
  "spec_sub_lamports k a L = debit k a (Program ArithmeticOverflow) L"

definition spec_add_lamports :: "pubkey \<Rightarrow> u64 \<Rightarrow> ledger \<Rightarrow> ledger res" where
  "spec_add_lamports k a L = credit k a (Program ArithmeticOverflow) L"

section \<open>The hypotheses on the runtime\<close>

definition system_ok :: "runtime \<Rightarrow> bool" where
  "system_ok rt \<longleftrightarrow>
     (\<forall>sg f t a L L'. system_transfer rt sg f t a L = Inr L' \<longrightarrow> spec_system_transfer sg f t a L = Inr L')"

definition token_ok :: "runtime \<Rightarrow> bool" where
  "token_ok rt \<longleftrightarrow>
     (\<forall>sg p f m t au a d L L'. transfer_checked rt sg p f m t au a d L = Inr L' \<longrightarrow>
        spec_transfer_checked sg p f m t au a d L = Inr L') \<and>
     (\<forall>sg p k d au L L'. close_token_account rt sg p k d au L = Inr L' \<longrightarrow>
        spec_close_token_account sg p k d au L = Inr L') \<and>
     (\<forall>p k L L'. sync_native rt p k L = Inr L' \<longrightarrow> spec_sync_native p k L = Inr L') \<and>
     (\<forall>sg payer k w m p L L'. init_associated_token rt sg payer k w m p L = Inr L' \<longrightarrow>
        spec_init_associated_token (native_mint rt) (token_account_rent rt) sg payer k w m p L = Inr L')"

definition anchor_ok :: "runtime \<Rightarrow> bool" where
  "anchor_ok rt \<longleftrightarrow>
     (\<forall>sg payer k n p L L'. init_account rt sg payer k n p L = Inr L' \<longrightarrow>
        spec_init_account (minimum_balance rt) sg payer k n p L = Inr L') \<and>
     (\<forall>k d L L'. close_program_account rt k d L = Inr L' \<longrightarrow> spec_close_program_account k d L = Inr L') \<and>
     (\<forall>k a L L'. sub_lamports rt k a L = Inr L' \<longrightarrow> spec_sub_lamports k a L = Inr L') \<and>
     (\<forall>k a L L'. add_lamports rt k a L = Inr L' \<longrightarrow> spec_add_lamports k a L = Inr L')"

definition runtime_ok :: "runtime \<Rightarrow> bool" where
  "runtime_ok rt \<longleftrightarrow> system_ok rt \<and> token_ok rt \<and> anchor_ok rt"

lemma runtime_okD:
  assumes "runtime_ok rt"
  shows "system_transfer rt sg f t a L = Inr L' \<Longrightarrow> spec_system_transfer sg f t a L = Inr L'"
    and "transfer_checked rt sg p f m t au a d L = Inr L' \<Longrightarrow> spec_transfer_checked sg p f m t au a d L = Inr L'"
    and "close_token_account rt sg p k t au L = Inr L' \<Longrightarrow> spec_close_token_account sg p k t au L = Inr L'"
    and "sync_native rt p k L = Inr L' \<Longrightarrow> spec_sync_native p k L = Inr L'"
    and "init_associated_token rt sg f k w m p L = Inr L' \<Longrightarrow>
      spec_init_associated_token (native_mint rt) (token_account_rent rt) sg f k w m p L = Inr L'"
    and "init_account rt sg f k n p L = Inr L' \<Longrightarrow> spec_init_account (minimum_balance rt) sg f k n p L = Inr L'"
    and "close_program_account rt k t L = Inr L' \<Longrightarrow> spec_close_program_account k t L = Inr L'"
    and "sub_lamports rt k a L = Inr L' \<Longrightarrow> spec_sub_lamports k a L = Inr L'"
    and "add_lamports rt k a L = Inr L' \<Longrightarrow> spec_add_lamports k a L = Inr L'"
  using assms unfolding runtime_ok_def system_ok_def token_ok_def anchor_ok_def by auto

section \<open>Reading the effects\<close>

text \<open>What an operation leaves alone, and what it does to one balance.\<close>

definition static :: "TokenAccount \<Rightarrow> pubkey \<times> pubkey \<times> u64 option \<times> pubkey" where
  "static t = (ta_mint t, ta_owner t, ta_native t, ta_program t)"

definition statics :: "ledger \<Rightarrow> pubkey \<Rightarrow> (pubkey \<times> pubkey \<times> u64 option \<times> pubkey) option" where
  "statics L k = map_option static (tok L k)"

definition shifted :: "pubkey \<Rightarrow> pubkey \<Rightarrow> nat \<Rightarrow> (pubkey \<Rightarrow> nat) \<Rightarrow> (pubkey \<Rightarrow> nat) \<Rightarrow> bool" where
  "shifted f t a b b' \<longleftrightarrow> a \<le> b f \<and> b' = (if f = t then b else b(f := b f - a, t := b t + a))"

lemma shifted_sum:
  assumes "shifted f t a b b'" "finite S" "f \<in> S" "t \<in> S"
  shows "sum b' S = sum b S"
proof (cases "f = t")
  case True
  with assms(1) show ?thesis by (simp add: shifted_def)
next
  case False
  define R where "R = S - {f, t}"
  have S: "S = insert f (insert t R)" "f \<notin> insert t R" "t \<notin> R" "finite R"
    using assms(2-4) False by (auto simp: R_def)
  have "sum b' R = sum b R"
    using assms(1) False by (intro sum.cong) (auto simp: shifted_def R_def)
  then show ?thesis using assms(1) False S by (simp add: shifted_def)
qed

lemma move_lamports_effect:
  assumes "move_lamports f t a L = Inr L'"
  shows "shifted f t (unat a) (lamports L) (lamports L')"
    and "tok L' = tok L" "mints L' = mints L" "prog L' = prog L"
proof -
  have a: "unat a \<le> unat (lam L f)" and
    o: "unat (((lam L)(f := lam L f - a)) t) + unat a < 2 ^ 64" and
    L': "L' = L\<lparr>lam := ((lam L)(f := lam L f - a))(t := ((lam L)(f := lam L f - a)) t + a)\<rparr>"
    using assms by (simp_all add: move_lamports_def debit_def credit_def res_simps word_le_nat_alt)
  show "shifted f t (unat a) (lamports L) (lamports L')"
    using a o by (auto simp: shifted_def lamports_def L' fun_eq_iff unat_add_ok unat_sub_ok)
  show "tok L' = tok L" "mints L' = mints L" "prog L' = prog L" by (simp_all add: L')
qed

lemma move_tokens_effect:
  assumes "move_tokens f t a L = Inr L'"
  shows "shifted f t (unat a) (tokens L) (tokens L')" and "statics L' = statics L"
    and "lam L' = lam L" "mints L' = mints L" "prog L' = prog L"
proof -
  from assms obtain tf tt where tf: "tok L f = Some tf" and a: "unat a \<le> unat (ta_amount tf)" and
    tt: "((tok L)(f \<mapsto> tf\<lparr>ta_amount := ta_amount tf - a\<rparr>)) t = Some tt" and
    o: "unat (ta_amount tt) + unat a < 2 ^ 64" and
    L': "L' = L\<lparr>tok := ((tok L)(f \<mapsto> tf\<lparr>ta_amount := ta_amount tf - a\<rparr>))(t \<mapsto> tt\<lparr>ta_amount := ta_amount tt + a\<rparr>)\<rparr>"
    by (auto simp: move_tokens_def res_simps Let_def word_le_nat_alt)
  show "shifted f t (unat a) (tokens L) (tokens L')"
    using tf a tt o by (auto simp: shifted_def tokens_def L' fun_eq_iff unat_add_ok unat_sub_ok split: if_splits)
  show "statics L' = statics L"
    using tf tt by (auto simp: statics_def static_def L' fun_eq_iff split: if_splits)
  show "lam L' = lam L" "mints L' = mints L" "prog L' = prog L" by (simp_all add: L')
qed

lemma lamports_cong: "lam L' = lam L \<Longrightarrow> lamports L' = lamports L"
  by (simp add: lamports_def fun_eq_iff)

lemma tokens_cong: "tok L' = tok L \<Longrightarrow> tokens L' = tokens L"
  by (simp add: tokens_def fun_eq_iff)

lemma statics_cong: "tok L' = tok L \<Longrightarrow> statics L' = statics L"
  by (simp add: statics_def fun_eq_iff)

lemma statics_None_iff: "statics L k = None \<longleftrightarrow> tok L k = None"
  by (simp add: statics_def)

lemma system_transfer_effect:
  assumes "spec_system_transfer sg f t a L = Inr L'"
  shows "f \<in> set sg" "no_data L f" "shifted f t (unat a) (lamports L) (lamports L')"
    and "tok L' = tok L" "mints L' = mints L" "prog L' = prog L"
  using assms by (auto simp: spec_system_transfer_def res_simps dest: move_lamports_effect)

lemma transfer_checked_effect:
  assumes "spec_transfer_checked sg p f m t au a d L = Inr L'"
  shows "au \<in> set sg" "shifted f t (unat a) (tokens L) (tokens L')" "statics L' = statics L"
    and "mints L' = mints L" "prog L' = prog L"
    and "\<exists>tf tt. tok L f = Some tf \<and> tok L t = Some tt \<and> ta_mint tf = m \<and> ta_mint tt = m
      \<and> ta_program tf = p \<and> ta_program tt = p
      \<and> (if ta_native tf = None then lamports L' = lamports L
         else shifted f t (unat a) (lamports L) (lamports L'))"
proof -
  from assms obtain tf tt L1 where r: "tok L f = Some tf" "tok L t = Some tt" "ta_mint tf = m" "ta_mint tt = m"
      "ta_program tf = p" "ta_program tt = p" and au: "au \<in> set sg" and
    L1: "move_tokens f t a L = Inr L1" and
    L': "(if ta_native tf = None then Inr L1 else move_lamports f t a L1) = Inr L'"
    by (auto simp: spec_transfer_checked_def res_simps)
  note e1 = move_tokens_effect [OF L1]
  have t: "tok L' = tok L1" "mints L' = mints L1" "prog L' = prog L1"
    using L' by (auto split: if_splits dest: move_lamports_effect)
  show "au \<in> set sg" by (rule au)
  show "shifted f t (unat a) (tokens L) (tokens L')" using e1(1) tokens_cong [OF t(1)] by simp
  show "statics L' = statics L" using e1(2) statics_cong [OF t(1)] by simp
  show "mints L' = mints L" "prog L' = prog L" using e1 t by simp_all
  have "if ta_native tf = None then lamports L' = lamports L
        else shifted f t (unat a) (lamports L) (lamports L')"
    using L' lamports_cong [OF e1(3)] move_lamports_effect(1) [of f t a L1 L'] by auto
  with r show "\<exists>tf tt. tok L f = Some tf \<and> tok L t = Some tt \<and> ta_mint tf = m \<and> ta_mint tt = m
      \<and> ta_program tf = p \<and> ta_program tt = p
      \<and> (if ta_native tf = None then lamports L' = lamports L
         else shifted f t (unat a) (lamports L) (lamports L'))" by blast
qed

lemma close_token_account_effect:
  assumes "spec_close_token_account sg p k d au L = Inr L'"
  shows "au \<in> set sg" "d \<noteq> k" "tok L k \<noteq> None"
    and "shifted k d (lamports L k) (lamports L) (lamports L')"
    and "tok L' = (tok L)(k := None)" "mints L' = mints L" "prog L' = prog L"
    and "\<exists>ta. tok L k = Some ta \<and> (ta_native ta = None \<longrightarrow> ta_amount ta = 0)"
proof -
  from assms obtain ta L1 where ta: "tok L k = Some ta" "ta_native ta \<noteq> None \<or> ta_amount ta = 0" and
    au: "au \<in> set sg" "d \<noteq> k" and L1: "move_lamports k d (lam L k) L = Inr L1" and
    L': "L' = L1\<lparr>tok := (tok L1)(k := None)\<rparr>"
    by (auto simp: spec_close_token_account_def res_simps)
  note e = move_lamports_effect [OF L1]
  show "au \<in> set sg" "d \<noteq> k" "tok L k \<noteq> None" using au ta by simp_all
  show "shifted k d (lamports L k) (lamports L) (lamports L')"
    using e(1) lamports_cong [of L' L1] by (simp add: L' lamports_def)
  show "tok L' = (tok L)(k := None)" "mints L' = mints L" "prog L' = prog L" using e by (simp_all add: L')
  show "\<exists>ta. tok L k = Some ta \<and> (ta_native ta = None \<longrightarrow> ta_amount ta = 0)" using ta by auto
qed

lemma sync_native_effect:
  assumes "spec_sync_native p k L = Inr L'"
  shows "lam L' = lam L" "mints L' = mints L" "prog L' = prog L" "statics L' = statics L"
    and "\<exists>ta r. tok L k = Some ta \<and> ta_native ta = Some r \<and> unat r \<le> lamports L k
      \<and> tokens L' = (tokens L)(k := lamports L k - unat r) \<and> tokens L k \<le> lamports L k - unat r"
proof -
  from assms obtain ta r where ta: "tok L k = Some ta" "ta_native ta = Some r" "unat r \<le> unat (lam L k)"
      "ta_amount ta \<le> lam L k - r" and
    L': "L' = L\<lparr>tok := (tok L)(k \<mapsto> ta\<lparr>ta_amount := lam L k - r\<rparr>)\<rparr>"
    by (auto simp: spec_sync_native_def res_simps word_le_nat_alt)
  show "lam L' = lam L" "mints L' = mints L" "prog L' = prog L" by (simp_all add: L')
  show "statics L' = statics L" using ta by (auto simp: statics_def static_def L' fun_eq_iff)
  have "tokens L' = (tokens L)(k := lamports L k - unat r)"
    using ta by (simp add: tokens_def lamports_def L' fun_eq_iff unat_sub_ok)
  moreover have "tokens L k \<le> lamports L k - unat r"
    using ta by (simp add: tokens_def lamports_def word_le_nat_alt unat_sub_ok)
  ultimately show "\<exists>ta r. tok L k = Some ta \<and> ta_native ta = Some r \<and> unat r \<le> lamports L k
      \<and> tokens L' = (tokens L)(k := lamports L k - unat r) \<and> tokens L k \<le> lamports L k - unat r"
    using ta by (auto simp: lamports_def)
qed

lemma top_up_effect:
  assumes "top_up sg payer key rent L = Inr L'"
  shows "no_data L key" "tok L' = tok L" "mints L' = mints L" "prog L' = prog L"
    and "shifted payer key (unat rent - lamports L key) (lamports L) (lamports L')"
    and "payer \<noteq> key \<Longrightarrow> unat rent \<le> lamports L' key"
proof -
  have n: "no_data L key" and
    c: "(if lam L key < rent then spec_system_transfer sg payer key (rent - lam L key) L else Inr L) = Inr L'"
    using assms by (simp_all add: top_up_def res_simps)
  show "no_data L key" by (rule n)
  show "tok L' = tok L" "mints L' = mints L" "prog L' = prog L"
    using c by (auto split: if_splits dest: system_transfer_effect)
  show s: "shifted payer key (unat rent - lamports L key) (lamports L) (lamports L')"
  proof (cases "lam L key < rent")
    case True
    then have "unat (rent - lam L key) = unat rent - lamports L key"
      by (simp add: lamports_def unat_sub_ok word_less_nat_alt)
    with True c system_transfer_effect(3) [of sg payer key "rent - lam L key" L L'] show ?thesis by simp
  next
    case False
    with c show ?thesis by (auto simp: shifted_def lamports_def fun_eq_iff word_less_nat_alt)
  qed
  assume "payer \<noteq> key"
  with s show "unat rent \<le> lamports L' key" by (simp add: shifted_def)
qed

lemma init_account_effect:
  assumes "spec_init_account mb sg payer key n p L = Inr L'"
  shows "no_data L key" "tok L' = tok L" "mints L' = mints L" "prog L' = prog L"
    and "shifted payer key (unat (mb n) - lamports L key) (lamports L) (lamports L')"
    and "payer \<noteq> key \<Longrightarrow> unat (mb n) \<le> lamports L' key"
  using top_up_effect [OF assms [unfolded spec_init_account_def]] by auto

lemma init_associated_token_effect:
  assumes "spec_init_associated_token nmint rent sg payer key w m p L = Inr L'"
  shows "no_data L key" "mints L' = mints L" "prog L' = prog L"
    and "shifted payer key (unat (rent p) - lamports L key) (lamports L) (lamports L')"
    and "\<exists>ta. tok L' = (tok L)(key \<mapsto> ta) \<and> ta_mint ta = m \<and> ta_owner ta = w \<and> ta_program ta = p
      \<and> ta_native ta = (if m = nmint then Some (rent p) else None) \<and> (m \<noteq> nmint \<longrightarrow> ta_amount ta = 0)"
proof -
  from assms obtain L1 where L1: "top_up sg payer key (rent p) L = Inr L1" and
    L': "L' = L1\<lparr>tok := (tok L1)(key \<mapsto>
       \<lparr>ta_mint = m, ta_owner = w, ta_amount = (if m = nmint then lam L1 key - rent p else 0),
        ta_native = (if m = nmint then Some (rent p) else None), ta_program = p\<rparr>)\<rparr>"
    by (auto simp: spec_init_associated_token_def res_simps)
  note e = top_up_effect [OF L1]
  show "no_data L key" "mints L' = mints L" "prog L' = prog L" using e by (simp_all add: L')
  show "shifted payer key (unat (rent p) - lamports L key) (lamports L) (lamports L')"
    using e(5) lamports_cong [of L' L1] by (simp add: L')
  show "\<exists>ta. tok L' = (tok L)(key \<mapsto> ta) \<and> ta_mint ta = m \<and> ta_owner ta = w \<and> ta_program ta = p
      \<and> ta_native ta = (if m = nmint then Some (rent p) else None) \<and> (m \<noteq> nmint \<longrightarrow> ta_amount ta = 0)"
    by (rule exI [where x = "the (tok L' key)"]) (simp add: L' e)
qed

text \<open>The amount of an account of wrapped SOL is covered by its lamports above the reserve.\<close>

definition backed_at :: "ledger \<Rightarrow> pubkey \<Rightarrow> bool" where
  "backed_at L k \<longleftrightarrow> (case tok L k of None \<Rightarrow> True | Some t \<Rightarrow>
     (case ta_native t of None \<Rightarrow> True | Some r \<Rightarrow> unat r + unat (ta_amount t) \<le> lamports L k))"

lemma init_associated_token_backed:
  assumes "spec_init_associated_token nmint rent sg payer key w m p L = Inr L'" "payer \<noteq> key"
  shows "backed_at L' key"
proof -
  from assms obtain L1 where L1: "top_up sg payer key (rent p) L = Inr L1" and
    L': "L' = L1\<lparr>tok := (tok L1)(key \<mapsto>
       \<lparr>ta_mint = m, ta_owner = w, ta_amount = (if m = nmint then lam L1 key - rent p else 0),
        ta_native = (if m = nmint then Some (rent p) else None), ta_program = p\<rparr>)\<rparr>"
    by (auto simp: spec_init_associated_token_def res_simps)
  have "unat (rent p) \<le> unat (lam L1 key)" using top_up_effect(6) [OF L1 assms(2)] by (simp add: lamports_def)
  then show ?thesis by (simp add: backed_at_def L' lamports_def unat_sub_ok)
qed

lemma close_program_account_effect:
  assumes "spec_close_program_account k d L = Inr L'"
  shows "d \<noteq> k" "shifted k d (lamports L k) (lamports L) (lamports L')"
    and "tok L' = tok L" "mints L' = mints L" "prog L' = (prog L)(k := None)"
proof -
  from assms obtain L1 where d: "d \<noteq> k" and L1: "move_lamports k d (lam L k) L = Inr L1" and
    L': "L' = L1\<lparr>prog := (prog L1)(k := None)\<rparr>"
    by (auto simp: spec_close_program_account_def res_simps)
  note e = move_lamports_effect [OF L1]
  show "d \<noteq> k" by (rule d)
  show "shifted k d (lamports L k) (lamports L) (lamports L')"
    using e(1) lamports_cong [of L' L1] by (simp add: L' lamports_def)
  show "tok L' = tok L" "mints L' = mints L" "prog L' = (prog L)(k := None)" using e by (simp_all add: L')
qed

text \<open>A debit of one account followed by the credit of another is a move.\<close>

lemma sub_add_lamports_effect:
  assumes "spec_sub_lamports f a L = Inr L1" and "spec_add_lamports t a L1 = Inr L'"
  shows "shifted f t (unat a) (lamports L) (lamports L')"
    and "tok L' = tok L" "mints L' = mints L" "prog L' = prog L"
proof -
  have "move_lamports f t a L = Inr L'"
    using assms by (auto simp: move_lamports_def spec_sub_lamports_def spec_add_lamports_def debit_def
        credit_def res_simps)
  from move_lamports_effect [OF this]
  show "shifted f t (unat a) (lamports L) (lamports L')"
    and "tok L' = tok L" "mints L' = mints L" "prog L' = prog L" by simp_all
qed

section \<open>An instance\<close>

text \<open>The documented effects as a runtime, over any hash and any address derivation.\<close>

definition spec_runtime ::
  "(bytes \<Rightarrow> bytes) \<Rightarrow> (bytes list \<Rightarrow> pubkey \<Rightarrow> pubkey option) \<Rightarrow> (bytes list \<Rightarrow> pubkey \<Rightarrow> pubkey \<times> u8)
   \<Rightarrow> (pubkey \<Rightarrow> pubkey \<Rightarrow> pubkey \<Rightarrow> pubkey) \<Rightarrow> (nat \<Rightarrow> u64) \<Rightarrow> (pubkey \<Rightarrow> u64) \<Rightarrow> pubkey \<Rightarrow> runtime" where
  "spec_runtime h cpa fpa ata minb trent nmint =
     \<lparr>keccak = h, create_program_address = cpa, find_program_address = fpa,
      associated_token_address = ata, minimum_balance = minb, token_account_rent = trent,
      native_mint = nmint, system_program_id = [0], associated_token_program_id = [1],
      token_program_ids = [[2], [3]], rent_sysvar_id = [4],
      system_transfer = spec_system_transfer, transfer_checked = spec_transfer_checked,
      close_token_account = spec_close_token_account, sync_native = spec_sync_native,
      init_account = spec_init_account minb,
      init_associated_token = spec_init_associated_token nmint trent,
      close_program_account = spec_close_program_account,
      sub_lamports = spec_sub_lamports, add_lamports = spec_add_lamports\<rparr>"

lemma runtime_ok_spec_runtime: "runtime_ok (spec_runtime h cpa fpa ata minb trent nmint)"
  by (simp add: runtime_ok_def system_ok_def token_ok_def anchor_ok_def spec_runtime_def)

text \<open>The runtime of the examples: the hash is the identity, a program address is its seeds
  without the bump, rents are small.\<close>

definition demo_runtime :: runtime where
  "demo_runtime = spec_runtime (\<lambda>b. b) (\<lambda>s p. Some (concat (butlast s))) (\<lambda>s p. (concat s, 255))
     (\<lambda>w m p. 200 # w @ m) (\<lambda>n. 10) (\<lambda>p. 20) [5]"

lemma demo_runtime_ok: "runtime_ok demo_runtime"
  unfolding demo_runtime_def by (rule runtime_ok_spec_runtime)

lemma demo_runtime_simps [simp]:
  "keccak demo_runtime = (\<lambda>b. b)"
  "create_program_address demo_runtime = (\<lambda>s p. Some (concat (butlast s)))"
  "find_program_address demo_runtime = (\<lambda>s p. (concat s, 255))"
  "associated_token_address demo_runtime = (\<lambda>w m p. 200 # w @ m)"
  "minimum_balance demo_runtime = (\<lambda>n. 10)"
  "token_account_rent demo_runtime = (\<lambda>p. 20)"
  "native_mint demo_runtime = [5]"
  "system_program_id demo_runtime = [0]"
  "associated_token_program_id demo_runtime = [1]"
  "token_program_ids demo_runtime = [[2], [3]]"
  "rent_sysvar_id demo_runtime = [4]"
  "system_transfer demo_runtime = spec_system_transfer"
  "transfer_checked demo_runtime = spec_transfer_checked"
  "close_token_account demo_runtime = spec_close_token_account"
  "sync_native demo_runtime = spec_sync_native"
  "init_account demo_runtime = spec_init_account (\<lambda>n. 10)"
  "init_associated_token demo_runtime = spec_init_associated_token [5] (\<lambda>p. 20)"
  "close_program_account demo_runtime = spec_close_program_account"
  "sub_lamports demo_runtime = spec_sub_lamports"
  "add_lamports demo_runtime = spec_add_lamports"
  by (simp_all add: demo_runtime_def spec_runtime_def)

text \<open>Evaluating the documented effects on a concrete ledger.\<close>

lemmas effect_defs = spec_system_transfer_def spec_transfer_checked_def spec_close_token_account_def
  spec_sync_native_def spec_init_account_def spec_init_associated_token_def spec_close_program_account_def
  spec_sub_lamports_def spec_add_lamports_def top_up_def move_lamports_def move_tokens_def debit_def
  credit_def no_data_def

end
