(* ===== verification/Constraints.thy ===== *)
theory Constraints
  imports Runtime
begin

text \<open>
  The account constraints the instructions declare in their \<open>#[derive(Accounts)]\<close> structs,
  as checks: an account of a declared type is loaded, a signer has signed, a program address
  has the declared seeds and bump, a token account is the associated account of a wallet and
  a mint, an account is initialised if needed.  Whether an account is passed as writable
  (\<open>mut\<close>) is a flag of the transaction and is not modelled.
\<close>

section \<open>Loading accounts\<close>

type_synonym mint_ref = "pubkey \<times> Mint"
type_synonym token_ref = "pubkey \<times> TokenAccount"

definition load_Order :: "ledger \<Rightarrow> pubkey \<Rightarrow> Order res" where
  "load_Order L k =
     (case prog L k of
        None \<Rightarrow> Inl (Anchor AccountNotInitialized)
      | Some (OrderAcc d) \<Rightarrow> Inr d
      | Some _ \<Rightarrow> Inl (Anchor AccountDiscriminatorMismatch))"

definition load_EscrowSrc :: "ledger \<Rightarrow> pubkey \<Rightarrow> EscrowSrc res" where
  "load_EscrowSrc L k =
     (case prog L k of
        None \<Rightarrow> Inl (Anchor AccountNotInitialized)
      | Some (EscrowSrcAcc d) \<Rightarrow> Inr d
      | Some _ \<Rightarrow> Inl (Anchor AccountDiscriminatorMismatch))"

definition load_EscrowDst :: "ledger \<Rightarrow> pubkey \<Rightarrow> EscrowDst res" where
  "load_EscrowDst L k =
     (case prog L k of
        None \<Rightarrow> Inl (Anchor AccountNotInitialized)
      | Some (EscrowDstAcc d) \<Rightarrow> Inr d
      | Some _ \<Rightarrow> Inl (Anchor AccountDiscriminatorMismatch))"

definition load_WhitelistState :: "ledger \<Rightarrow> pubkey \<Rightarrow> WhitelistState res" where
  "load_WhitelistState L k =
     (case prog L k of
        None \<Rightarrow> Inl (Anchor AccountNotInitialized)
      | Some (WhitelistAcc d) \<Rightarrow> Inr d
      | Some _ \<Rightarrow> Inl (Anchor AccountDiscriminatorMismatch))"

definition load_ResolverAccess :: "ledger \<Rightarrow> pubkey \<Rightarrow> ResolverAccess res" where
  "load_ResolverAccess L k =
     (case prog L k of
        None \<Rightarrow> Inl (Anchor AccountNotInitialized)
      | Some (ResolverAcc d) \<Rightarrow> Inr d
      | Some _ \<Rightarrow> Inl (Anchor AccountDiscriminatorMismatch))"

definition load_token :: "ledger \<Rightarrow> pubkey \<Rightarrow> token_ref res" where
  "load_token L k = bindE (ok_or (tok L k) (Anchor AccountNotInitialized)) (\<lambda>t. Inr (k, t))"

definition load_mint :: "ledger \<Rightarrow> pubkey \<Rightarrow> mint_ref res" where
  "load_mint L k = bindE (ok_or (mints L k) (Anchor AccountNotInitialized)) (\<lambda>m. Inr (k, m))"

definition load_token_opt :: "ledger \<Rightarrow> pubkey option \<Rightarrow> token_ref option res" where
  "load_token_opt L ko =
     (case ko of None \<Rightarrow> Inr None | Some k \<Rightarrow> bindE (load_token L k) (\<lambda>t. Inr (Some t)))"

section \<open>Checks\<close>

definition check_signer :: "exec \<Rightarrow> pubkey \<Rightarrow> unit res" where
  "check_signer x k = require (k \<in> set (signers x)) (Anchor AccountNotSigner) (Inr ())"

definition check_key :: "bool \<Rightarrow> err \<Rightarrow> unit res" where
  "check_key c e = require c e (Inr ())"

text \<open>\<open>seeds = [...]\<close> with a stored \<open>bump\<close>, and with a bare \<open>bump\<close>, which is searched.\<close>

definition check_pda :: "runtime \<Rightarrow> bytes list \<Rightarrow> u8 \<Rightarrow> pubkey \<Rightarrow> pubkey \<Rightarrow> unit res" where
  "check_pda rt seeds bump program key =
     require (create_program_address rt (seeds @ [[bump]]) program = Some key) (Anchor ConstraintSeeds) (Inr ())"

definition find_pda :: "runtime \<Rightarrow> bytes list \<Rightarrow> pubkey \<Rightarrow> pubkey \<Rightarrow> u8 res" where
  "find_pda rt seeds program key =
     (let (address, bump) = find_program_address rt seeds program in
      require (address = key) (Anchor ConstraintSeeds) (Inr bump))"

text \<open>\<open>associated_token::mint\<close>, \<open>::authority\<close> and \<open>::token_program\<close> of an existing account.\<close>

definition check_ata :: "runtime \<Rightarrow> token_ref \<Rightarrow> pubkey \<Rightarrow> pubkey \<Rightarrow> pubkey \<Rightarrow> unit res" where
  "check_ata rt ta mint auth token_program =
     require (ta_owner (snd ta) = auth) (Anchor ConstraintTokenOwner)
     (require (fst ta = associated_token_address rt auth mint token_program) (Anchor ConstraintAssociated)
     (require (ta_program (snd ta) = token_program) (Anchor ConstraintAssociatedTokenTokenProgram) (Inr ())))"

definition check_ata_opt :: "runtime \<Rightarrow> token_ref option \<Rightarrow> pubkey \<Rightarrow> pubkey \<Rightarrow> pubkey \<Rightarrow> unit res" where
  "check_ata_opt rt tao mint auth token_program =
     (case tao of None \<Rightarrow> Inr () | Some ta \<Rightarrow> check_ata rt ta mint auth token_program)"

text \<open>\<open>init_if_needed\<close> of an associated token account: created when absent, checked always.\<close>

definition init_if_needed_ata ::
  "runtime \<Rightarrow> exec \<Rightarrow> pubkey \<Rightarrow> pubkey \<Rightarrow> pubkey \<Rightarrow> pubkey \<Rightarrow> pubkey \<Rightarrow> ledger \<Rightarrow> (ledger \<times> token_ref) res" where
  "init_if_needed_ata rt x key payer mint auth token_program L =
     bindE (if tok L key = None then init_associated_token rt (signers x) payer key auth mint token_program L
            else Inr L) (\<lambda>L1.
     bindE (load_token L1 key) (\<lambda>ta.
     require (ta_mint (snd ta) = mint) (Anchor ConstraintTokenMint)
     (require (ta_owner (snd ta) = auth) (Anchor ConstraintTokenOwner)
     (require (ta_program (snd ta) = token_program) (Anchor ConstraintAssociatedTokenTokenProgram)
     (require (key = associated_token_address rt auth mint token_program)
        (Anchor AccountNotAssociatedTokenAccount)
     (Inr (L1, ta)))))))"

definition init_if_needed_ata_opt ::
  "runtime \<Rightarrow> exec \<Rightarrow> pubkey option \<Rightarrow> pubkey \<Rightarrow> pubkey \<Rightarrow> pubkey \<Rightarrow> pubkey \<Rightarrow> ledger
    \<Rightarrow> (ledger \<times> token_ref option) res" where
  "init_if_needed_ata_opt rt x ko payer mint auth token_program L =
     (case ko of
        None \<Rightarrow> Inr (L, None)
      | Some key \<Rightarrow> bindE (init_if_needed_ata rt x key payer mint auth token_program L)
          (\<lambda>(L1, ta). Inr (L1, Some ta)))"

text \<open>\<open>init\<close> of a program account: the account is created, and holds zeroes until the handler
  fills it.\<close>

definition zero_key :: pubkey where
  "zero_key = replicate 32 0"

definition init_data ::
  "runtime \<Rightarrow> exec \<Rightarrow> pubkey \<Rightarrow> pubkey \<Rightarrow> nat \<Rightarrow> pubkey \<Rightarrow> ProgramData \<Rightarrow> ledger \<Rightarrow> ledger res" where
  "init_data rt x payer key space owner d L =
     bindE (init_account rt (signers x) payer key space owner L) (\<lambda>L1. Inr (set_data key d L1))"

text \<open>The programs an instruction names: \<open>Program\<close>, \<open>Interface\<close> and \<open>address\<close> constraints.\<close>

definition check_token_program :: "runtime \<Rightarrow> pubkey \<Rightarrow> unit res" where
  "check_token_program rt k = require (k \<in> set (token_program_ids rt)) (Anchor InvalidProgramId) (Inr ())"

definition check_system_program :: "runtime \<Rightarrow> pubkey \<Rightarrow> unit res" where
  "check_system_program rt k = require (k = system_program_id rt) (Anchor InvalidProgramId) (Inr ())"

definition check_associated_token_program :: "runtime \<Rightarrow> pubkey \<Rightarrow> unit res" where
  "check_associated_token_program rt k =
     require (k = associated_token_program_id rt) (Anchor InvalidProgramId) (Inr ())"

definition check_rent :: "runtime \<Rightarrow> pubkey \<Rightarrow> unit res" where
  "check_rent rt k = require (k = rent_sysvar_id rt) (Anchor ConstraintAddress) (Inr ())"

text \<open>Anchor's entry point refuses to run under another program's key.\<close>

definition check_entry :: "pubkey \<Rightarrow> exec \<Rightarrow> unit res" where
  "check_entry declared x = require (program_id x = declared) (Anchor DeclaredProgramIdMismatch) (Inr ())"

text \<open>The keys that sign a call: the transaction's signers and the program addresses of the
  signer seeds.\<close>

definition cpi_signers :: "runtime \<Rightarrow> exec \<Rightarrow> bytes list list option \<Rightarrow> pubkey list" where
  "cpi_signers rt x signer_seeds =
     (case signer_seeds of
        None \<Rightarrow> signers x
      | Some seedss \<Rightarrow> signers x @ List.map_filter (\<lambda>s. create_program_address rt s (program_id x)) seedss)"

text \<open>The accounts an instruction works with once its checks have passed.\<close>

record 'a loaded =
  ld_state :: 'a
  ld_mint :: mint_ref
  ld_ata :: token_ref
  ld_dest :: "token_ref option"

section \<open>Inversion\<close>

lemma load_Inr_iff [res_simps]:
  "load_Order L k = Inr o' \<longleftrightarrow> prog L k = Some (OrderAcc o')"
  "load_EscrowSrc L k = Inr e \<longleftrightarrow> prog L k = Some (EscrowSrcAcc e)"
  "load_EscrowDst L k = Inr d \<longleftrightarrow> prog L k = Some (EscrowDstAcc d)"
  "load_WhitelistState L k = Inr w \<longleftrightarrow> prog L k = Some (WhitelistAcc w)"
  "load_ResolverAccess L k = Inr r \<longleftrightarrow> prog L k = Some (ResolverAcc r)"
  by (auto simp: load_Order_def load_EscrowSrc_def load_EscrowDst_def load_WhitelistState_def
      load_ResolverAccess_def split: option.splits ProgramData.splits)

lemma load_token_Inr_iff [res_simps]:
  "load_token L k = Inr ta \<longleftrightarrow> fst ta = k \<and> tok L k = Some (snd ta)"
  by (cases ta) (auto simp: load_token_def res_simps)

lemma load_mint_Inr_iff [res_simps]:
  "load_mint L k = Inr m \<longleftrightarrow> fst m = k \<and> mints L k = Some (snd m)"
  by (cases m) (auto simp: load_mint_def res_simps)

lemma load_token_opt_Inr_iff [res_simps]:
  "load_token_opt L ko = Inr tao \<longleftrightarrow> ko = map_option fst tao \<and> (\<forall>ta. tao = Some ta \<longrightarrow> tok L (fst ta) = Some (snd ta))"
  by (cases ko; cases tao) (auto simp: load_token_opt_def res_simps)

lemma check_Inr_iff [res_simps]:
  "check_signer x k = Inr u \<longleftrightarrow> k \<in> set (signers x)"
  "check_key c e = Inr u \<longleftrightarrow> c"
  "check_pda rt seeds b program key = Inr u \<longleftrightarrow> create_program_address rt (seeds @ [[b]]) program = Some key"
  "check_token_program rt k = Inr u \<longleftrightarrow> k \<in> set (token_program_ids rt)"
  "check_system_program rt k = Inr u \<longleftrightarrow> k = system_program_id rt"
  "check_associated_token_program rt k = Inr u \<longleftrightarrow> k = associated_token_program_id rt"
  "check_rent rt k = Inr u \<longleftrightarrow> k = rent_sysvar_id rt"
  "check_entry p x = Inr u \<longleftrightarrow> program_id x = p"
  by (simp_all add: check_signer_def check_key_def check_pda_def check_token_program_def
      check_system_program_def check_associated_token_program_def check_rent_def check_entry_def res_simps)

lemma find_pda_Inr_iff [res_simps]:
  "find_pda rt seeds program key = Inr b \<longleftrightarrow> find_program_address rt seeds program = (key, b)"
  by (auto simp: find_pda_def Let_def res_simps split: prod.splits)

lemma check_ata_Inr_iff [res_simps]:
  "check_ata rt ta m au p = Inr u \<longleftrightarrow>
     ta_owner (snd ta) = au \<and> fst ta = associated_token_address rt au m p \<and> ta_program (snd ta) = p"
  by (simp add: check_ata_def res_simps)

lemma check_ata_opt_Inr_iff [res_simps]:
  "check_ata_opt rt tao m au p = Inr u \<longleftrightarrow> (\<forall>ta. tao = Some ta \<longrightarrow>
     ta_owner (snd ta) = au \<and> fst ta = associated_token_address rt au m p \<and> ta_program (snd ta) = p)"
  by (cases tao) (simp_all add: check_ata_opt_def res_simps)

text \<open>An account initialised if needed: the balances move from the payer, nothing else.\<close>

lemma init_if_needed_ata_effect:
  assumes "runtime_ok rt" "init_if_needed_ata rt x key payer mint auth p L = Inr (L1, ta)"
  shows "fst ta = key" "tok L1 key = Some (snd ta)" "\<forall>k. k \<noteq> key \<longrightarrow> tok L1 k = tok L k"
    and "prog L1 = prog L" "mints L1 = mints L"
    and "\<exists>a. shifted payer key a (lamports L) (lamports L1)"
    and "ta_mint (snd ta) = mint" "ta_owner (snd ta) = auth" "ta_program (snd ta) = p"
    and "key = associated_token_address rt auth mint p"
    and "tok L key \<noteq> None \<Longrightarrow> L1 = L"
proof -
  from assms(2) have c: "(if tok L key = None
        then init_associated_token rt (signers x) payer key auth mint p L else Inr L) = Inr L1"
    and t: "fst ta = key" "tok L1 key = Some (snd ta)" "ta_mint (snd ta) = mint" "ta_owner (snd ta) = auth"
      "ta_program (snd ta) = p" "key = associated_token_address rt auth mint p"
    by (auto simp: init_if_needed_ata_def res_simps)
  show "fst ta = key" "tok L1 key = Some (snd ta)" "ta_mint (snd ta) = mint" "ta_owner (snd ta) = auth"
    "ta_program (snd ta) = p" "key = associated_token_address rt auth mint p" by (fact t)+
  show "tok L key \<noteq> None \<Longrightarrow> L1 = L" using c by (auto split: if_splits)
  have id: "shifted payer key 0 b b" for b by (auto simp: shifted_def)
  have "(\<forall>k. k \<noteq> key \<longrightarrow> tok L1 k = tok L k) \<and> prog L1 = prog L \<and> mints L1 = mints L
      \<and> (\<exists>a. shifted payer key a (lamports L) (lamports L1))"
  proof (cases "tok L key = None")
    case True
    with c have "init_associated_token rt (signers x) payer key auth mint p L = Inr L1" by simp
    note e = init_associated_token_effect [OF runtime_okD(5) [OF assms(1) this]]
    show ?thesis using e by auto
  next
    case False
    with c id show ?thesis by auto
  qed
  then show "\<forall>k. k \<noteq> key \<longrightarrow> tok L1 k = tok L k" "prog L1 = prog L" "mints L1 = mints L"
    "\<exists>a. shifted payer key a (lamports L) (lamports L1)" by blast+
qed

lemma init_if_needed_ata_funds:
  assumes ok: "runtime_ok rt" and r: "init_if_needed_ata rt x key payer mint auth p L = Inr (L1, ta)"
  shows "tokens L key \<le> tokens L1 key" "mint \<noteq> native_mint rt \<Longrightarrow> tokens L1 = tokens L"
    and "payer \<noteq> key \<Longrightarrow> backed_at L key \<Longrightarrow> backed_at L1 key"
    and "tok L key = None \<Longrightarrow> no_data L key"
proof -
  have "tokens L key \<le> tokens L1 key \<and> (mint \<noteq> native_mint rt \<longrightarrow> tokens L1 = tokens L)
    \<and> (payer \<noteq> key \<and> backed_at L key \<longrightarrow> backed_at L1 key) \<and> (tok L key = None \<longrightarrow> no_data L key)"
  proof (cases "tok L key = None")
    case True
    with r have i: "init_associated_token rt (signers x) payer key auth mint p L = Inr L1"
      by (auto simp: init_if_needed_ata_def res_simps)
    note s = runtime_okD(5) [OF ok i]
    from init_associated_token_effect [OF s] obtain t where
      t: "tok L1 = (tok L)(key \<mapsto> t)" "mint \<noteq> native_mint rt \<longrightarrow> ta_amount t = 0" "no_data L key" by blast
    have "tokens L key = 0" using True by (simp add: tokens_def)
    moreover have "mint \<noteq> native_mint rt \<longrightarrow> tokens L1 = tokens L"
      using t True by (auto simp: tokens_def fun_eq_iff)
    ultimately show ?thesis using t(3) init_associated_token_backed [OF s] by simp
  next
    case False
    with init_if_needed_ata_effect(11) [OF ok r] show ?thesis by auto
  qed
  then show "tokens L key \<le> tokens L1 key" "mint \<noteq> native_mint rt \<Longrightarrow> tokens L1 = tokens L"
    "payer \<noteq> key \<Longrightarrow> backed_at L key \<Longrightarrow> backed_at L1 key" "tok L key = None \<Longrightarrow> no_data L key" by blast+
qed

text \<open>The ledger after an optional account has been initialised if needed, at the expense of
  \<open>payer\<close>.\<close>

definition opened :: "pubkey \<Rightarrow> pubkey option \<Rightarrow> ledger \<Rightarrow> ledger \<Rightarrow> bool" where
  "opened payer ko L L1 \<longleftrightarrow> prog L1 = prog L \<and> mints L1 = mints L
     \<and> (case ko of
          None \<Rightarrow> L1 = L
        | Some key \<Rightarrow> (tok L key \<noteq> None \<longrightarrow> L1 = L) \<and> (tok L key = None \<longrightarrow> no_data L key)
            \<and> (\<forall>k. k \<noteq> key \<longrightarrow> tok L1 k = tok L k) \<and> tokens L key \<le> tokens L1 key
            \<and> (\<exists>a. shifted payer key a (lamports L) (lamports L1)))"

lemma init_if_needed_ata_opt_effect:
  assumes "runtime_ok rt" "init_if_needed_ata_opt rt x ko payer m auth p L = Inr (L1, tao)"
  shows "opened payer ko L L1" "ko = map_option fst tao"
    and "\<forall>ta. tao = Some ta \<longrightarrow> tok L1 (fst ta) = Some (snd ta) \<and> ta_owner (snd ta) = auth"
proof -
  have "opened payer ko L L1 \<and> ko = map_option fst tao
    \<and> (\<forall>ta. tao = Some ta \<longrightarrow> tok L1 (fst ta) = Some (snd ta) \<and> ta_owner (snd ta) = auth)"
  proof (cases ko)
    case None
    with assms(2) show ?thesis by (simp add: init_if_needed_ata_opt_def opened_def)
  next
    case (Some key)
    with assms(2) obtain ta where r: "init_if_needed_ata rt x key payer m auth p L = Inr (L1, ta)" and t: "tao = Some ta"
      by (auto simp: init_if_needed_ata_opt_def res_simps)
    note e = init_if_needed_ata_effect [OF assms(1) r]
    from e init_if_needed_ata_funds(1,4) [OF assms(1) r] t Some show ?thesis by (simp add: opened_def)
  qed
  then show "opened payer ko L L1" "ko = map_option fst tao"
    "\<forall>ta. tao = Some ta \<longrightarrow> tok L1 (fst ta) = Some (snd ta) \<and> ta_owner (snd ta) = auth" by blast+
qed

lemma opened_tok: "opened payer ko L L1 \<Longrightarrow> tok L k = Some t \<Longrightarrow> tok L1 k = Some t"
  by (cases "ko = Some k") (auto simp: opened_def split: option.splits)

lemma init_data_effect:
  assumes "runtime_ok rt" "init_data rt x payer key n p d L = Inr L'"
  shows "no_data L key" "prog L' = (prog L)(key \<mapsto> d)" "tok L' = tok L" "mints L' = mints L"
    and "shifted payer key (unat (minimum_balance rt n) - lamports L key) (lamports L) (lamports L')"
    and "payer \<noteq> key \<Longrightarrow> unat (minimum_balance rt n) \<le> lamports L' key"
proof -
  from assms(2) obtain L1 where 1: "init_account rt (signers x) payer key n p L = Inr L1" and
    L': "L' = set_data key d L1" by (auto simp: init_data_def res_simps)
  note e = init_account_effect [OF runtime_okD(6) [OF assms(1) 1]]
  have "lamports L' = lamports L1" by (rule lamports_cong) (simp add: L')
  then show "no_data L key" "prog L' = (prog L)(key \<mapsto> d)" "tok L' = tok L" "mints L' = mints L"
    "shifted payer key (unat (minimum_balance rt n) - lamports L key) (lamports L) (lamports L')"
    "payer \<noteq> key \<Longrightarrow> unat (minimum_balance rt n) \<le> lamports L' key"
    using e by (simp_all add: L')
qed

lemma backed_at_cong: "tok L' k = tok L k \<Longrightarrow> lamports L' k = lamports L k \<Longrightarrow> backed_at L' k = backed_at L k"
  by (simp add: backed_at_def split: option.splits)


end
