(* ===== verification/Balances.thy ===== *)
theory Balances
  imports Constraints
begin

text \<open>
  The language in which the effects of an instruction on balances are stated.
  \<open>settle b closed paid\<close> is \<open>b\<close> after the accounts \<open>closed\<close> have been emptied and the
  amounts \<open>paid\<close> handed out; \<open>conserved K b b'\<close> says that balances moved only inside \<open>K\<close>
  and none was created or lost; \<open>wf_ledger\<close> says that no key holds two kinds of data.
\<close>

section \<open>Settlements\<close>

fun paid_to :: "pubkey \<Rightarrow> (pubkey \<times> nat) list \<Rightarrow> nat" where
  "paid_to k [] = 0"
| "paid_to k ((j, n) # ps) = (if j = k then n else 0) + paid_to k ps"

definition settle :: "(pubkey \<Rightarrow> nat) \<Rightarrow> pubkey list \<Rightarrow> (pubkey \<times> nat) list \<Rightarrow> pubkey \<Rightarrow> nat" where
  "settle b closed paid k = (if k \<in> set closed then 0 else b k) + paid_to k paid"

lemma shifted_0 [simp]: "shifted f t 0 b b' \<longleftrightarrow> b' = b"
  by (auto simp: shifted_def fun_eq_iff)

lemma shifted_le: "shifted f t a b b' \<Longrightarrow> a \<le> b f"
  by (simp add: shifted_def)

lemma shifted_apply: "shifted f t a b b' \<Longrightarrow> f \<noteq> t \<Longrightarrow> b' = b(f := b f - a, t := b t + a)"
  by (simp add: shifted_def)

lemma shifted_other: "shifted f t a b b' \<Longrightarrow> k \<noteq> f \<Longrightarrow> k \<noteq> t \<Longrightarrow> b' k = b k"
  by (auto simp: shifted_def split: if_splits)

lemma shifted_settle:
  "shifted f t (b f) b b' \<Longrightarrow> f \<noteq> t \<Longrightarrow> b' = settle b [f] [(t, b f)]"
  by (auto simp: shifted_def settle_def fun_eq_iff)

text \<open>The movements of a payout: an associated account is emptied, partly to \<open>dest\<close> and for the
  rest to \<open>rr\<close>; then the escrow account pays a deposit and is closed to \<open>rr\<close>.\<close>

lemma payout_settle:
  assumes s: "shifted ea dest np b b1" "shifted ea rr (b1 ea) b1 b2"
    "shifted es sdr dep b2 b3" "shifted es rr (b3 es) b3 b4"
    and n: "es \<noteq> ea" "ea \<noteq> dest" "ea \<noteq> rr" "es \<noteq> rr" "es \<noteq> dest" "es \<noteq> sdr"
  shows "b4 = settle b [es, ea] [(dest, np), (sdr, dep), (rr, b es + b ea - np - dep)]"
    and "np + dep \<le> b es + b ea"
proof -
  have 1: "np \<le> b ea" "b1 = b(ea := b ea - np, dest := b dest + np)"
    using s(1) n by (auto simp: shifted_def)
  have 2: "b2 = b1(ea := 0, rr := b1 rr + b1 ea)" using s(2) n by (auto simp: shifted_def)
  have e2: "b2 es = b es" using 1 2 n by simp
  have 3: "dep \<le> b es" "b3 = b2(es := b es - dep, sdr := b2 sdr + dep)"
    using s(3) n e2 by (auto simp: shifted_def)
  have 4: "b4 = b3(es := 0, rr := b3 rr + b3 es)" using s(4) n by (auto simp: shifted_def)
  have e3: "b3 es = b es - dep" using 3 n by simp
  have r: "b es + b ea - np - dep = (b ea - np) + (b es - dep)" using 1 3 by simp
  show "np + dep \<le> b es + b ea" using 1 3 by simp
  show "b4 = settle b [es, ea] [(dest, np), (sdr, dep), (rr, b es + b ea - np - dep)]"
    unfolding r
  proof
    fix k
    show "b4 k = settle b [es, ea] [(dest, np), (sdr, dep), (rr, (b ea - np) + (b es - dep))] k"
      unfolding 4 e3 unfolding 3(2) 2 1(2) settle_def using n by simp
  qed
qed

lemma native_payout_settle:
  assumes s: "shifted ea es (b ea) b b1" "shifted es dest amt b1 b2"
    "shifted es sdr dep b2 b3" "shifted es rr (b3 es) b3 b4"
    and n: "es \<noteq> ea" "es \<noteq> rr" "es \<noteq> dest" "es \<noteq> sdr"
  shows "b4 = settle b [es, ea] [(dest, amt), (sdr, dep), (rr, b es + b ea - amt - dep)]"
    and "amt + dep \<le> b es + b ea"
proof -
  have 1: "b1 = b(ea := 0, es := b es + b ea)" using s(1) n by (auto simp: shifted_def)
  have e1: "b1 es = b es + b ea" using 1 by simp
  have 2: "amt \<le> b es + b ea" "b2 = b1(es := b es + b ea - amt, dest := b1 dest + amt)"
    using s(2) n e1 by (auto simp: shifted_def)
  have e2: "b2 es = b es + b ea - amt" using 2 n by simp
  have 3: "dep \<le> b es + b ea - amt" "b3 = b2(es := b es + b ea - amt - dep, sdr := b2 sdr + dep)"
    using s(3) n e2 by (auto simp: shifted_def)
  have 4: "b4 = b3(es := 0, rr := b3 rr + b3 es)" using s(4) n by (auto simp: shifted_def)
  have e3: "b3 es = b es + b ea - amt - dep" using 3 n by simp
  show "amt + dep \<le> b es + b ea" using 2 3 by simp
  show "b4 = settle b [es, ea] [(dest, amt), (sdr, dep), (rr, b es + b ea - amt - dep)]"
  proof
    fix k
    show "b4 k = settle b [es, ea] [(dest, amt), (sdr, dep), (rr, b es + b ea - amt - dep)] k"
      unfolding 4 e3 unfolding 3(2) 2(2) 1 settle_def using n by simp
  qed
qed

text \<open>The movements of a cancellation by a resolver: the emptied account goes to the resolver,
  who keeps the premium \<open>p\<close> and passes the rest on.\<close>

lemma premium_settle:
  assumes s: "shifted oa ca np b b1" "shifted oa res (b1 oa) b1 b2"
    "shifted res cr (b1 oa - p) b2 b3" "shifted ord cr (b3 ord) b3 b4"
    and p: "p \<le> b1 oa"
    and n: "ord \<noteq> oa" "oa \<noteq> ca" "oa \<noteq> res" "ord \<noteq> ca" "ord \<noteq> res" "ord \<noteq> cr"
  shows "b4 = settle b [ord, oa] [(ca, np), (res, p), (cr, b ord + b oa - np - p)]"
    and "np + p \<le> b ord + b oa"
proof -
  have 1: "np \<le> b oa" "b1 = b(oa := b oa - np, ca := b ca + np)"
    using s(1) n by (auto simp: shifted_def)
  have o1: "b1 oa = b oa - np" using 1 n by simp
  have 2: "b2 = b1(oa := 0, res := b1 res + (b oa - np))" using s(2) n o1 by (auto simp: shifted_def)
  have 3: "b3 = (if res = cr then b2
      else b2(res := b2 res - (b oa - np - p), cr := b2 cr + (b oa - np - p)))"
    using s(3) by (simp add: shifted_def o1)
  have e3: "b3 ord = b ord" unfolding 3 2 1(2) using n by simp
  have 4: "b4 = b3(ord := 0, cr := b3 cr + b ord)" using s(4) n e3 by (auto simp: shifted_def)
  have p': "p \<le> b oa - np" using p o1 by simp
  show "np + p \<le> b ord + b oa" using p' 1(1) by simp
  show "b4 = settle b [ord, oa] [(ca, np), (res, p), (cr, b ord + b oa - np - p)]"
  proof
    fix k
    show "b4 k = settle b [ord, oa] [(ca, np), (res, p), (cr, b ord + b oa - np - p)] k"
    proof (cases "res = cr")
      case True
      then show ?thesis
        unfolding 4 3 2 1(2) settle_def using n p' 1(1) by auto
    next
      case False
      then show ?thesis
        unfolding 4 3 2 1(2) settle_def using n p' 1(1) by auto
    qed
  qed
qed

section \<open>Conservation\<close>

definition conserved :: "pubkey set \<Rightarrow> (pubkey \<Rightarrow> nat) \<Rightarrow> (pubkey \<Rightarrow> nat) \<Rightarrow> bool" where
  "conserved K b b' \<longleftrightarrow> (\<forall>k. k \<notin> K \<longrightarrow> b' k = b k) \<and> sum b' K = sum b K"

lemma conserved_refl [simp, intro]: "conserved K b b"
  by (simp add: conserved_def)

lemma conserved_trans [trans]: "conserved K b b' \<Longrightarrow> conserved K b' b'' \<Longrightarrow> conserved K b b''"
  by (simp add: conserved_def)

lemma shifted_conserved:
  "shifted f t a b b' \<Longrightarrow> finite K \<Longrightarrow> f \<in> K \<Longrightarrow> t \<in> K \<Longrightarrow> conserved K b b'"
  by (auto simp: conserved_def shifted_sum dest: shifted_other)

lemma conserved_total:
  assumes "conserved K (lamports L) (lamports L')" "finite S" "K \<subseteq> S"
  shows "total_lamports S L' = total_lamports S L"
proof -
  have "sum b S = sum b K + sum b (S - K)" for b :: "pubkey \<Rightarrow> nat"
    using assms(2,3) by (metis add.commute sum.subset_diff)
  moreover have "sum (lamports L') (S - K) = sum (lamports L) (S - K)"
    using assms(1) by (intro sum.cong) (auto simp: conserved_def)
  ultimately show ?thesis using assms(1) by (simp add: total_lamports_def conserved_def)
qed

lemma paid_to_other: "k \<notin> fst ` set ps \<Longrightarrow> paid_to k ps = 0"
  by (induction k ps rule: paid_to.induct) auto

lemma paid_to_sum:
  "finite K \<Longrightarrow> fst ` set ps \<subseteq> K \<Longrightarrow> (\<Sum>k\<in>K. paid_to k ps) = sum_list (map snd ps)"
proof (induction ps)
  case (Cons p ps)
  obtain j n where p: "p = (j, n)" by (cases p)
  have "(\<Sum>k\<in>K. paid_to k (p # ps)) = (\<Sum>k\<in>K. if j = k then n else 0) + (\<Sum>k\<in>K. paid_to k ps)"
    by (simp add: p sum.distrib)
  then show ?case using Cons p by simp
qed simp

lemma settle_conserved:
  assumes K: "finite K" "set cl \<subseteq> K" "fst ` set ps \<subseteq> K" and d: "distinct cl"
    and eq: "sum_list (map snd ps) = (\<Sum>k\<leftarrow>cl. b k)"
  shows "conserved K b (settle b cl ps)"
proof -
  have o: "settle b cl ps k = b k" if "k \<notin> K" for k
  proof -
    have "k \<notin> set cl" "k \<notin> fst ` set ps" using that K by blast+
    then show ?thesis by (simp add: settle_def paid_to_other)
  qed
  have "sum (settle b cl ps) K = (\<Sum>k\<in>K. if k \<in> set cl then 0 else b k) + (\<Sum>k\<in>K. paid_to k ps)"
    by (simp add: settle_def sum.distrib)
  also have "(\<Sum>k\<in>K. if k \<in> set cl then 0 else b k) = sum b (K - set cl)"
    using K(1) by (intro sum.mono_neutral_cong_right) auto
  also have "(\<Sum>k\<in>K. paid_to k ps) = sum b (set cl)"
    using paid_to_sum [OF K(1,3)] eq d by (simp add: sum_list_distinct_conv_sum_set)
  also have "sum b (K - set cl) + sum b (set cl) = sum b K"
    using sum.subset_diff [OF K(2,1), of b] by simp
  finally show ?thesis using o by (simp add: conserved_def)
qed

section \<open>Well-formed ledgers\<close>

definition wf_ledger :: "ledger \<Rightarrow> bool" where
  "wf_ledger L \<longleftrightarrow> dom (prog L) \<inter> dom (tok L) = {} \<and> dom (prog L) \<inter> dom (mints L) = {}
     \<and> dom (tok L) \<inter> dom (mints L) = {}"

lemma wf_ledgerD:
  "wf_ledger L \<Longrightarrow> prog L k = Some d \<Longrightarrow> tok L k = None"
  "wf_ledger L \<Longrightarrow> tok L k = Some t \<Longrightarrow> prog L k = None"
  unfolding wf_ledger_def by (metis (no_types) disjoint_iff domIff option.distinct(1))+

lemma wf_ledger_neq: "wf_ledger L \<Longrightarrow> prog L k \<noteq> None \<Longrightarrow> tok L j \<noteq> None \<Longrightarrow> k \<noteq> j"
  unfolding wf_ledger_def by blast

lemma no_data_dom: "no_data L k \<longleftrightarrow> k \<notin> dom (prog L) \<and> k \<notin> dom (tok L) \<and> k \<notin> dom (mints L)"
  by (simp add: no_data_def domIff)

text \<open>What a ledger holds at which keys only shrinks, or grows at one unused key.\<close>

lemma wf_ledger_sub:
  assumes "wf_ledger L" "dom (prog L') \<subseteq> dom (prog L)" "dom (tok L') \<subseteq> dom (tok L)" "mints L' = mints L"
  shows "wf_ledger L'"
  using assms unfolding wf_ledger_def by simp blast

lemma wf_ledger_new_prog:
  assumes "wf_ledger L" "no_data L key" "dom (prog L') \<subseteq> insert key (dom (prog L))" "tok L' = tok L"
    "mints L' = mints L"
  shows "wf_ledger L'"
  using assms unfolding wf_ledger_def no_data_dom by simp blast

lemma wf_ledger_new_tok:
  assumes "wf_ledger L" "no_data L key" "dom (tok L') \<subseteq> insert key (dom (tok L))" "prog L' = prog L"
    "mints L' = mints L"
  shows "wf_ledger L'"
  using assms unfolding wf_ledger_def no_data_dom by simp blast

lemma opened_wf: "opened payer ko L L1 \<Longrightarrow> wf_ledger L \<Longrightarrow> wf_ledger L1"
proof (cases ko)
  case (Some key)
  assume o: "opened payer ko L L1" and wf: "wf_ledger L"
  show ?thesis
  proof (cases "tok L key = None")
    case True
    have "dom (tok L1) \<subseteq> insert key (dom (tok L))" using o Some by (auto simp: opened_def)
    with wf_ledger_new_tok [OF wf, of key L1] o Some True show ?thesis by (simp add: opened_def)
  next
    case False
    with o Some wf show ?thesis by (simp add: opened_def)
  qed
qed (simp add: opened_def)

lemma opened_conserved:
  assumes "opened payer ko L L1" "finite K" "payer \<in> K" "set_option ko \<subseteq> K"
  shows "conserved K (lamports L) (lamports L1)"
  using assms by (cases ko) (auto simp: opened_def intro: shifted_conserved)

lemma init_pair_lamports:
  assumes i: "shifted pay es a l l1" and j: "shifted pay ea b l1 l2" and ne: "ea \<noteq> es"
  shows "pay \<noteq> es \<Longrightarrow> l2 es = l1 es" and "pay \<noteq> ea \<Longrightarrow> l1 ea = l ea"
    and "pay \<noteq> ea \<Longrightarrow> l ea \<le> l2 ea"
    and "finite K \<Longrightarrow> {pay, es, ea} \<subseteq> K \<Longrightarrow> conserved K l l2"
proof -
  show "l2 es = l1 es" if "pay \<noteq> es" by (rule shifted_other [OF j]) (use that ne in auto)
  show e: "l1 ea = l ea" if "pay \<noteq> ea" by (rule shifted_other [OF i]) (use that ne in auto)
  show "l ea \<le> l2 ea" if "pay \<noteq> ea" using e [OF that] j by (auto simp: shifted_def)
  show "conserved K l l2" if "finite K" "{pay, es, ea} \<subseteq> K"
  proof -
    have "conserved K l l1" by (rule shifted_conserved [OF i]) (use that in auto)
    also have "conserved K l1 l2" by (rule shifted_conserved [OF j]) (use that in auto)
    finally show ?thesis .
  qed
qed

lemma init_if_needed_ata_wf:
  assumes ok: "runtime_ok rt" and j: "init_if_needed_ata rt x ea pay m es tp L = Inr (L', ta)" and wf: "wf_ledger L"
  shows "wf_ledger L'"
proof (cases "tok L ea = None")
  case True
  note en = init_if_needed_ata_effect [OF ok j]
  have "dom (tok L') \<subseteq> insert ea (dom (tok L))" using en(3) by (auto simp: dom_def)
  then show ?thesis by (rule wf_ledger_new_tok [OF wf init_if_needed_ata_funds(4) [OF ok j True] _ en(4,5)])
next
  case False
  with init_if_needed_ata_effect(11) [OF ok j] wf show ?thesis by simp
qed

text \<open>An account created together with its associated token account, as by every \<open>create\<close>.\<close>

lemma init_pair_effect:
  assumes ok: "runtime_ok rt" and i: "init_data rt x pay es n pid d L = Inr L1"
    and j: "init_if_needed_ata rt x ea pay m es tp L1 = Inr (L2, ta)"
  shows "no_data L es" "prog L2 = (prog L)(es \<mapsto> d)" "mints L2 = mints L" "ea \<noteq> es"
    and "tok L2 ea = Some (snd ta)" "fst ta = ea" "ta_owner (snd ta) = es"
    and "\<forall>k. k \<noteq> ea \<longrightarrow> tok L2 k = tok L k" "tok L k = Some t \<Longrightarrow> tok L2 k = Some t"
    and "tokens L ea \<le> tokens L2 ea" "m \<noteq> native_mint rt \<Longrightarrow> tokens L2 = tokens L"
    and "pay \<noteq> es \<Longrightarrow> pay \<noteq> ea \<Longrightarrow> backed_at L ea \<Longrightarrow> backed_at L2 ea"
    and "pay \<noteq> es \<Longrightarrow> unat (minimum_balance rt n) \<le> lamports L2 es"
    and "tok L ea = None \<Longrightarrow> no_data L ea"
    and "finite K \<Longrightarrow> {pay, es, ea} \<subseteq> K \<Longrightarrow> conserved K (lamports L) (lamports L2)"
    and "pay \<noteq> ea \<Longrightarrow> lamports L ea \<le> lamports L2 ea"
    and "wf_ledger L \<Longrightarrow> wf_ledger L2"
proof -
  note ei = init_data_effect [OF ok i]
  note en = init_if_needed_ata_effect [OF ok j]
  note ef = init_if_needed_ata_funds [OF ok j]
  show nd: "no_data L es" by (rule ei(1))
  show "prog L2 = (prog L)(es \<mapsto> d)" "mints L2 = mints L" using ei en by simp_all
  show ne: "ea \<noteq> es"
  proof
    assume eq: "ea = es"
    have "tok L1 ea = None" using nd ei(3) eq by (simp add: no_data_def)
    from ef(4) [OF this] ei(2) eq show False by (simp add: no_data_def)
  qed
  show "tok L2 ea = Some (snd ta)" "fst ta = ea" "ta_owner (snd ta) = es" using en by simp_all
  show tk: "\<forall>k. k \<noteq> ea \<longrightarrow> tok L2 k = tok L k" using en(3) ei(3) by simp
  show "tok L k = Some t \<Longrightarrow> tok L2 k = Some t"
    using tk en(11) ei(3) by (cases "k = ea") auto
  have t1: "tokens L1 = tokens L" by (rule tokens_cong [OF ei(3)])
  show "tokens L ea \<le> tokens L2 ea" "m \<noteq> native_mint rt \<Longrightarrow> tokens L2 = tokens L" using ef t1 by simp_all
  obtain b where s2: "shifted pay ea b (lamports L1) (lamports L2)" using en(6) by blast
  note ml = init_pair_lamports [OF ei(5) s2 ne]
  show "backed_at L2 ea" if "pay \<noteq> es" "pay \<noteq> ea" "backed_at L ea"
    using ef(3) backed_at_cong [of L1 ea L] ei(3) ml(2) that by simp
  show "unat (minimum_balance rt n) \<le> lamports L2 es" if "pay \<noteq> es" using ei(6) ml(1) that by simp
  show "no_data L ea" if "tok L ea = None"
  proof -
    have "no_data L1 ea" using ef(4) that ei(3) by simp
    then show ?thesis using ei ne by (simp add: no_data_def)
  qed
  show "lamports L ea \<le> lamports L2 ea" if "pay \<noteq> ea" by (rule ml(3) [OF that])
  show "conserved K (lamports L) (lamports L2)" if "finite K" "{pay, es, ea} \<subseteq> K" by (rule ml(4) [OF that])
  have "wf_ledger L1" if "wf_ledger L" by (rule wf_ledger_new_prog [OF that nd]) (use ei in auto)
  then show "wf_ledger L2" if "wf_ledger L" by (rule init_if_needed_ata_wf [OF ok j]) (rule that)
qed

end
