(* ===== verification/Interfaces.thy ===== *)
theory Interfaces
  imports Balances
begin

text \<open>
  The contracts the components rely on, as locales.  \<open>registry\<close>: entries are granted and
  revoked, and nothing else changes them (resolver access, open orders, open escrows).
  \<open>htlc_window\<close>: the times at which a hash-time-locked escrow can be claimed and refunded.
  \<open>conserving\<close>: instructions that only move lamports between the accounts they are given.
  Each is interpreted on the definitions of the component that provides it.
\<close>

section \<open>Registries\<close>

datatype 'k registry_op = Grant 'k | Revoke 'k

text \<open>Whether an entry is present after a sequence of operations, and the sequence as a run.\<close>

fun held :: "bool \<Rightarrow> 'k registry_op list \<Rightarrow> 'k \<Rightarrow> bool" where
  "held b [] k = b"
| "held b (Grant j # ops) k = held (j = k \<or> b) ops k"
| "held b (Revoke j # ops) k = held (j \<noteq> k \<and> b) ops k"

fun trace ::
  "('k \<Rightarrow> 's \<Rightarrow> 's \<Rightarrow> bool) \<Rightarrow> ('k \<Rightarrow> 's \<Rightarrow> 's \<Rightarrow> bool) \<Rightarrow> 's \<Rightarrow> 'k registry_op list \<Rightarrow> 's \<Rightarrow> bool" where
  "trace g r s [] s' \<longleftrightarrow> s' = s"
| "trace g r s (Grant k # ops) s' \<longleftrightarrow> (\<exists>t. g k s t \<and> trace g r t ops s')"
| "trace g r s (Revoke k # ops) s' \<longleftrightarrow> (\<exists>t. r k s t \<and> trace g r t ops s')"

lemma trace_append: "trace g r s (ops @ ops') s' \<longleftrightarrow> (\<exists>t. trace g r s ops t \<and> trace g r t ops' s')"
proof (induction ops arbitrary: s)
  case (Cons op ops)
  then show ?case by (cases op) auto
qed simp

lemma held_False: "held False ops k \<Longrightarrow> Grant k \<in> set ops"
proof (induction ops)
  case (Cons op ops)
  show ?case
  proof (cases op)
    case (Grant j)
    with Cons show ?thesis by (cases "j = k") simp_all
  next
    case (Revoke j)
    with Cons show ?thesis by (cases "j = k") simp_all
  qed
qed simp

lemma held_True: "\<not> held True ops k \<Longrightarrow> Revoke k \<in> set ops"
proof (induction ops)
  case (Cons op ops)
  show ?case
  proof (cases op)
    case (Grant j)
    with Cons show ?thesis by (cases "j = k") simp_all
  next
    case (Revoke j)
    with Cons show ?thesis by (cases "j = k") simp_all
  qed
qed simp

locale registry =
  fixes mem :: "'s \<Rightarrow> 'k \<Rightarrow> bool"
    and grant :: "'k \<Rightarrow> 's \<Rightarrow> 's \<Rightarrow> bool"
    and revoke :: "'k \<Rightarrow> 's \<Rightarrow> 's \<Rightarrow> bool"
  assumes grant_fresh: "grant k s s' \<Longrightarrow> \<not> mem s k"
    and grant_mem: "grant k s s' \<Longrightarrow> mem s' j \<longleftrightarrow> j = k \<or> mem s j"
    and revoke_present: "revoke k s s' \<Longrightarrow> mem s k"
    and revoke_mem: "revoke k s s' \<Longrightarrow> mem s' j \<longleftrightarrow> j \<noteq> k \<and> mem s j"
begin

lemma trace_mem: "trace grant revoke s ops s' \<Longrightarrow> mem s' k = held (mem s k) ops k"
proof (induction ops arbitrary: s)
  case (Cons op ops)
  show ?case
  proof (cases op)
    case (Grant j)
    with Cons.prems obtain t where t: "grant j s t" "trace grant revoke t ops s'" by auto
    then have "mem t k = (j = k \<or> mem s k)" using grant_mem [of j s t k] by auto
    with Cons.IH [OF t(2)] Grant show ?thesis by simp
  next
    case (Revoke j)
    with Cons.prems obtain t where t: "revoke j s t" "trace grant revoke t ops s'" by auto
    then have "mem t k = (j \<noteq> k \<and> mem s k)" using revoke_mem [of j s t k] by auto
    with Cons.IH [OF t(2)] Revoke show ?thesis by simp
  qed
qed simp

text \<open>An entry revoked twice has been granted again in between.\<close>

lemma revoked_twice:
  assumes "trace grant revoke s (Revoke k # ops @ [Revoke k]) s'"
  shows "Grant k \<in> set ops"
proof -
  from assms obtain t u where t: "revoke k s t" "trace grant revoke t ops u" "revoke k u s'"
    by (auto simp: trace_append)
  have "\<not> mem t k" using revoke_mem [OF t(1), of k] by simp
  moreover have "mem u k" using revoke_present [OF t(3)] .
  ultimately have "held False ops k" using trace_mem [OF t(2), of k] by simp
  then show ?thesis by (rule held_False)
qed

text \<open>An entry granted twice has been revoked in between.\<close>

lemma granted_twice:
  assumes "trace grant revoke s (Grant k # ops @ [Grant k]) s'"
  shows "Revoke k \<in> set ops"
proof -
  from assms obtain t u where t: "grant k s t" "trace grant revoke t ops u" "grant k u s'"
    by (auto simp: trace_append)
  have "mem t k" using grant_mem [OF t(1), of k] by simp
  moreover have "\<not> mem u k" using grant_fresh [OF t(3)] .
  ultimately have "\<not> held True ops k" using trace_mem [OF t(2), of k] by simp
  then show ?thesis by (rule held_True)
qed

end

section \<open>Claim and refund windows\<close>

locale htlc_window =
  fixes can_claim :: "'e \<Rightarrow> u32 \<Rightarrow> bool"
    and can_refund :: "'e \<Rightarrow> u32 \<Rightarrow> bool"
  assumes claim_before_refund: "can_claim e t \<Longrightarrow> can_refund e t' \<Longrightarrow> t < t'"
    and refund_stays_open: "can_refund e t \<Longrightarrow> t \<le> t' \<Longrightarrow> can_refund e t'"
begin

lemma exclusive: "\<not> (can_claim e t \<and> can_refund e t)"
  using claim_before_refund [of e t t] by auto

lemma no_claim_after_refund: "can_refund e t \<Longrightarrow> t \<le> t' \<Longrightarrow> \<not> can_claim e t'"
  using refund_stays_open exclusive by blast

end

section \<open>Conservation\<close>

locale conserving =
  fixes run :: "'i \<Rightarrow> ledger \<Rightarrow> ledger \<Rightarrow> bool"
    and touched :: "'i \<Rightarrow> pubkey set"
  assumes finite_touched: "finite (touched i)"
    and run_conserved: "run i L L' \<Longrightarrow> conserved (touched i) (lamports L) (lamports L')"
begin

lemma total_unchanged:
  assumes "run i L L'" "finite S" "touched i \<subseteq> S"
  shows "total_lamports S L' = total_lamports S L"
  using conserved_total [OF run_conserved [OF assms(1)] assms(2,3)] .

lemma untouched_unchanged: "run i L L' \<Longrightarrow> k \<notin> touched i \<Longrightarrow> lamports L' k = lamports L k"
  using run_conserved [of i L L'] by (simp add: conserved_def)

end

end
