(* ===== verification/Auction.thy ===== *)
theory Auction
  imports Errors
begin

text \<open>
  \<open>programs/cross-chain-escrow-src/src/auction.rs\<close>: the 24-bit integers of the auction
  data, the rate bump of the Dutch auction at a time, and the premium a resolver may claim
  for cancelling an expired order.  \<open>rate_bump\<close> and \<open>premium\<close> are the reference values on
  natural numbers; the lemmas show that the 64-bit code computes the first for every input
  without overflow, bound it by the points of the curve, and show that it falls with time
  when the points do.
\<close>

section \<open>24-bit integers\<close>

datatype U24 = U24 u8 u8 u8

fun to_u32 :: "U24 \<Rightarrow> u32" where
  "to_u32 (U24 b0 b1 b2) =
     push_bit 16 (ucast b0) OR push_bit 8 (ucast b1) OR ucast b2"

definition to_u64 :: "U24 \<Rightarrow> u64" where
  "to_u64 x = ucast (to_u32 x)"

text \<open>\<open>impl From<u32> for U24\<close> asserts that the value fits.\<close>

definition u24_from_u32 :: "u32 \<Rightarrow> U24 res" where
  "u24_from_u32 val =
     (if val \<le> 0xFFFFFF
      then Inr (U24 (ucast (drop_bit 16 val)) (ucast (drop_bit 8 val)) (ucast val))
      else Inl Panic)"

section \<open>The auction data\<close>

record PointAndTimeDelta =
  rate_bump :: U24
  time_delta :: u16

record AuctionData =
  start_time :: u32
  duration :: u32
  initial_rate_bump :: U24
  points_and_time_deltas :: "PointAndTimeDelta list"

section \<open>The rate bump\<close>

text \<open>The \<open>for\<close> loop over the points, with the two variables it updates, and the
  interpolation after the loop.\<close>

fun rate_bump_loop ::
  "u64 \<Rightarrow> u64 \<Rightarrow> u64 \<Rightarrow> u64 \<Rightarrow> PointAndTimeDelta list \<Rightarrow> u64 res" where
  "rate_bump_loop timestamp auction_finish_time current_rate_bump current_point_time [] =
     bindE (sub_u auction_finish_time timestamp) (\<lambda>left.
     bindE (mul_u current_rate_bump left) (\<lambda>num.
     bindE (sub_u auction_finish_time current_point_time) (\<lambda>den.
     div_u num den)))"
| "rate_bump_loop timestamp auction_finish_time current_rate_bump current_point_time (p # ps) =
     (let next_rate_bump = to_u64 (rate_bump p);
          point_time_delta = ucast (time_delta p)
      in bindE (add_u current_point_time point_time_delta) (\<lambda>next_point_time.
         if timestamp \<le> next_point_time then
           bindE (sub_u timestamp current_point_time) (\<lambda>past.
           bindE (mul_u past next_rate_bump) (\<lambda>x.
           bindE (sub_u next_point_time timestamp) (\<lambda>left.
           bindE (mul_u left current_rate_bump) (\<lambda>y.
           bindE (add_u x y) (\<lambda>num.
           div_u num point_time_delta)))))
         else rate_bump_loop timestamp auction_finish_time next_rate_bump next_point_time ps))"

definition calculate_rate_bump :: "u64 \<Rightarrow> AuctionData \<Rightarrow> u64 res" where
  "calculate_rate_bump timestamp data =
     (if timestamp \<le> ucast (start_time data) then Inr (to_u64 (initial_rate_bump data))
      else bindE (add_u (ucast (start_time data)) (ucast (duration data))) (\<lambda>auction_finish_time.
        if timestamp \<ge> auction_finish_time then Inr 0
        else rate_bump_loop timestamp auction_finish_time (to_u64 (initial_rate_bump data))
               (ucast (start_time data)) (points_and_time_deltas data)))"

section \<open>The cancellation premium\<close>

definition calculate_premium :: "u32 \<Rightarrow> u32 \<Rightarrow> u32 \<Rightarrow> u64 \<Rightarrow> u64 res" where
  "calculate_premium timestamp auction_start_time auction_duration max_cancellation_premium =
     (if timestamp \<le> auction_start_time then Inr 0
      else bindE (sub_u timestamp auction_start_time) (\<lambda>time_elapsed.
        if time_elapsed \<ge> auction_duration then Inr max_cancellation_premium
        else bindE (mul_u (ucast time_elapsed) max_cancellation_premium) (\<lambda>x.
             div_u x (ucast auction_duration))))"


section \<open>24-bit integers: range and round trip\<close>

lemma unat_to_u32: "unat (to_u32 (U24 b0 b1 b2)) = unat b0 * 65536 + unat b1 * 256 + unat b2"
proof -
  have "to_u32 (U24 b0 b1 b2) = ucast b0 * 65536 + ucast b1 * 256 + ucast b2"
  proof -
    have "push_bit 16 (ucast b0) OR push_bit 8 (ucast b1) OR ucast b2
        = push_bit 16 (ucast b0) + (push_bit 8 (ucast b1) + (ucast b2 :: u32))"
    proof -
      have "push_bit 8 (ucast b1) OR ucast b2 = push_bit 8 (ucast b1) + (ucast b2 :: u32)"
        by (rule disjunctive_add [symmetric]) (auto simp: bit_simps dest: bit_imp_le_length)
      moreover have "push_bit 16 (ucast b0) OR (push_bit 8 (ucast b1) OR ucast b2)
          = push_bit 16 (ucast b0) + (push_bit 8 (ucast b1) OR (ucast b2 :: u32))"
        by (rule disjunctive_add [symmetric]) (auto simp: bit_simps dest: bit_imp_le_length)
      ultimately show ?thesis by simp
    qed
    then show ?thesis by (simp add: push_bit_eq_mult mult.commute)
  qed
  moreover have "unat b0 < 256" "unat b1 < 256" "unat b2 < 256"
    using unat_less_2p [of b0] unat_less_2p [of b1] unat_less_2p [of b2] by simp_all
  ultimately show ?thesis
    by (simp add: unat_word_ariths unat_ucast_widen)
qed

lemma unat_to_u64: "unat (to_u64 x) = unat (to_u32 x)"
  by (simp add: to_u64_def unat_ucast_widen)

lemma to_u64_less: "unat (to_u64 x) < 2 ^ 24"
proof (cases x)
  case (U24 b0 b1 b2)
  have "unat b0 < 256" "unat b1 < 256" "unat b2 < 256"
    using unat_less_2p [of b0] unat_less_2p [of b1] unat_less_2p [of b2] by simp_all
  then show ?thesis unfolding unat_to_u64 U24 unat_to_u32 by simp
qed

declare to_u32.simps [simp del]

text \<open>The three bytes of a \<open>U24\<close> and the \<open>u32\<close> it stands for determine each other: the
  conversion from \<open>u32\<close> panics exactly above \<open>0xFFFFFF\<close>, and otherwise \<open>to_u32\<close> undoes it.\<close>

theorem u24_round_trip:
  "u24_from_u32 val = Inl Panic \<and> 2 ^ 24 \<le> unat val
   \<or> (\<exists>x. u24_from_u32 val = Inr x \<and> to_u32 x = val \<and> unat val < 2 ^ 24)"
proof (cases "val \<le> 0xFFFFFF")
  case True
  then have lt: "unat val < 2 ^ 24" by (simp add: word_le_nat_alt)
  have "to_u32 (U24 (ucast (drop_bit 16 val)) (ucast (drop_bit 8 val)) (ucast val)) = val"
  proof (rule bit_word_eqI)
    fix n assume n: "n < LENGTH(32)"
    have hi: "\<not> bit val n" if "24 \<le> n"
    proof -
      have "take_bit 24 val = val" using lt by (simp add: word_eq_iff_unat unsigned_take_bit_eq take_bit_nat_eq_self)
      with that show ?thesis by (metis bit_take_bit_iff not_less)
    qed
    consider "n < 8" | "8 \<le> n" "n < 16" | "16 \<le> n" "n < 24" | "24 \<le> n" "n < 32"
      using n by fastforce
    then show "bit (to_u32 (U24 (ucast (drop_bit 16 val)) (ucast (drop_bit 8 val)) (ucast val))) n = bit val n"
      by cases (use hi in \<open>auto simp: to_u32.simps bit_simps\<close>)
  qed
  with True lt show ?thesis by (simp add: u24_from_u32_def)
next
  case False
  then show ?thesis by (simp add: u24_from_u32_def word_le_nat_alt)
qed

section \<open>The reference curve\<close>

text \<open>The bump on natural numbers: \<open>lerp\<close> is the line through two points of the curve, and
  \<open>curve\<close> walks to the segment of the timestamp.  Quotients are rounded down, as in the code.\<close>

definition lerp :: "nat \<Rightarrow> nat \<Rightarrow> nat \<Rightarrow> nat \<Rightarrow> nat \<Rightarrow> nat" where
  "lerp t c d r r' = ((t - c) * r' + (c + d - t) * r) div d"

fun curve :: "nat \<Rightarrow> nat \<Rightarrow> nat \<Rightarrow> nat \<Rightarrow> (nat \<times> nat) list \<Rightarrow> nat" where
  "curve t fin r c [] = lerp t c (fin - c) r 0"
| "curve t fin r c ((r', d) # ps) =
     (if t \<le> c + d then lerp t c d r r' else curve t fin r' (c + d) ps)"

definition point :: "PointAndTimeDelta \<Rightarrow> nat \<times> nat" where
  "point p = (unat (to_u64 (rate_bump p)), unat (time_delta p))"

definition bump_at :: "nat \<Rightarrow> AuctionData \<Rightarrow> nat" where
  "bump_at t data =
     (if t \<le> unat (start_time data) then unat (to_u64 (initial_rate_bump data))
      else if unat (start_time data) + unat (duration data) \<le> t then 0
      else curve t (unat (start_time data) + unat (duration data))
             (unat (to_u64 (initial_rate_bump data))) (unat (start_time data))
             (map point (points_and_time_deltas data)))"

text \<open>The bumps of the curve, from the initial one.\<close>

definition bumps :: "AuctionData \<Rightarrow> nat list" where
  "bumps data = unat (to_u64 (initial_rate_bump data)) # map (fst \<circ> point) (points_and_time_deltas data)"

lemma segment_split:
  assumes "(c :: nat) < t" "t \<le> c + d"
  shows "(t - c) * m + (c + d - t) * m = m * d"
proof -
  have "(t - c) + (c + d - t) = d" using assms by arith
  then show ?thesis by (metis add_mult_distrib mult.commute)
qed

lemma lerp_le:
  assumes "c < t" "t \<le> c + d" "r \<le> m" "r' \<le> m"
  shows "lerp t c d r r' \<le> m"
proof -
  have "(t - c) * r' + (c + d - t) * r \<le> (t - c) * m + (c + d - t) * m"
    using assms by (intro add_mono mult_le_mono) simp_all
  also have "\<dots> = m * d" using assms(1,2) by (rule segment_split)
  finally show ?thesis unfolding lerp_def by (rule div_le_of_le_mult)
qed

lemma lerp_ge:
  assumes "c < t" "t \<le> c + d" "m \<le> r" "m \<le> r'"
  shows "m \<le> lerp t c d r r'"
proof -
  have "m * d = (t - c) * m + (c + d - t) * m"
    using assms(1,2) by (rule segment_split [symmetric])
  also have "\<dots> \<le> (t - c) * r' + (c + d - t) * r"
    using assms by (intro add_mono mult_le_mono) simp_all
  finally have "m * d div d \<le> lerp t c d r r'" unfolding lerp_def by (rule div_le_mono)
  with assms show ?thesis by simp
qed

lemma lerp_antimono:
  assumes "c \<le> t" "t \<le> t'" "t' \<le> c + d" "r' \<le> r"
  shows "lerp t' c d r r' \<le> lerp t c d r r'"
proof -
  obtain x where t: "t = c + x" using assms(1) le_Suc_ex by blast
  obtain y where t': "t' = c + x + y" using assms(2) le_Suc_ex unfolding t by blast
  obtain z where d: "d = x + y + z" using assms(3) le_Suc_ex unfolding t' by (metis add.assoc nat_add_left_cancel_le)
  have "(x + y) * r' + z * r \<le> x * r' + (y + z) * r"
    using mult_le_mono2 [OF assms(4), of y] by (simp add: algebra_simps)
  then show ?thesis unfolding lerp_def t t' d by (intro div_le_mono) (simp add: add.commute add.left_commute)
qed

lemma curve_le:
  "c < t \<Longrightarrow> t < fin \<Longrightarrow> r \<le> m \<Longrightarrow> (\<forall>x \<in> set ps. fst x \<le> m) \<Longrightarrow> curve t fin r c ps \<le> m"
  by (induction t fin r c ps rule: curve.induct) (auto intro: lerp_le)

lemma curve_antimono:
  assumes "c < t" "t \<le> t'" "t' < fin" "sorted_wrt (\<ge>) (r # map fst ps)"
  shows "curve t' fin r c ps \<le> curve t fin r c ps"
  using assms
proof (induction t fin r c ps rule: curve.induct)
  case (1 t fin r c)
  then show ?case by (auto intro: lerp_antimono)
next
  case (2 t fin r c r' d ps)
  then have le: "\<forall>x \<in> set ps. fst x \<le> r'" "r' \<le> r" by auto
  consider "t' \<le> c + d" | "t \<le> c + d" "c + d < t'" | "c + d < t" by linarith
  then show ?case
  proof cases
    case 1
    with 2 le show ?thesis by (auto intro: lerp_antimono)
  next
    case 2
    have "curve t' fin r c ((r', d) # ps) \<le> r'"
      using 2 "2.prems" le by (auto intro: curve_le)
    also have "\<dots> \<le> curve t fin r c ((r', d) # ps)"
      using 2 "2.prems" le by (auto intro: lerp_ge)
    finally show ?thesis .
  next
    case 3
    with 2 show ?thesis by auto
  qed
qed

section \<open>The code computes the reference curve\<close>

lemma mult_less_2p:
  assumes "(a :: nat) \<le> 2 ^ i" "b \<le> 2 ^ j" "i + j < 64"
  shows "a * b < 2 ^ 64"
proof -
  have "a * b \<le> 2 ^ i * 2 ^ j" using assms by (intro mult_le_mono)
  also have "\<dots> = 2 ^ (i + j)" by (simp add: power_add)
  also have "\<dots> < 2 ^ 64" using assms(3) by (rule power_strict_increasing) simp
  finally show ?thesis .
qed

text \<open>On the segment of the auction that contains the current time nothing overflows.\<close>

lemma rate_bump_segment:
  fixes c d t r r' :: u64
  assumes c: "unat c < unat t" "unat t \<le> unat c + unat d" "unat (c + d) = unat c + unat d"
    and b: "unat d < 2 ^ 16" "unat r < 2 ^ 24" "unat r' < 2 ^ 24"
  shows "unat (t - c) = unat t - unat c" "unat (c + d - t) = unat c + unat d - unat t"
    and "(unat t - unat c) * unat r' \<le> 2 ^ 40" "(unat c + unat d - unat t) * unat r \<le> 2 ^ 40"
    and "unat ((t - c) * r') = (unat t - unat c) * unat r'"
    and "unat ((c + d - t) * r) = (unat c + unat d - unat t) * unat r"
    and "unat ((t - c) * r' + (c + d - t) * r)
      = (unat t - unat c) * unat r' + (unat c + unat d - unat t) * unat r"
proof -
  show l: "unat (t - c) = unat t - unat c" "unat (c + d - t) = unat c + unat d - unat t"
    using c by (simp_all add: unat_sub word_le_nat_alt)
  show p: "(unat t - unat c) * unat r' \<le> 2 ^ 40" "(unat c + unat d - unat t) * unat r \<le> 2 ^ 40"
    using mult_le_mono [of "unat t - unat c" "2 ^ 16" "unat r'" "2 ^ 24"]
      mult_le_mono [of "unat c + unat d - unat t" "2 ^ 16" "unat r" "2 ^ 24"] c b by simp_all
  show m: "unat ((t - c) * r') = (unat t - unat c) * unat r'"
    "unat ((c + d - t) * r) = (unat c + unat d - unat t) * unat r"
    using p by (simp_all add: unat_mult_ok l)
  show "unat ((t - c) * r' + (c + d - t) * r)
      = (unat t - unat c) * unat r' + (unat c + unat d - unat t) * unat r"
    using p by (simp add: unat_add_ok m)
qed

lemma rate_bump_loop_eq:
  assumes "unat c < unat t" "unat t < unat fin" "unat fin < 2 ^ 33" "unat r < 2 ^ 24"
  shows "\<exists>b. rate_bump_loop t fin r c ps = Inr b
    \<and> unat b = curve (unat t) (unat fin) (unat r) (unat c) (map point ps)"
  using assms
proof (induction t fin r c ps rule: rate_bump_loop.induct)
  case (1 t fin r c)
  have p: "unat r * (unat fin - unat t) < 2 ^ 64"
    using 1 by (intro mult_less_2p [where i = 24 and j = 33]) simp_all
  have l: "unat (fin - t) = unat fin - unat t" "unat (fin - c) = unat fin - unat c"
    using 1 by (auto intro!: unat_sub simp: word_le_nat_alt)
  have m: "unat (r * (fin - t)) = unat r * (unat fin - unat t)"
    using p by (subst unat_mult_ok) (simp_all add: l)
  have "rate_bump_loop t fin r c [] = Inr (r * (fin - t) div (fin - c))"
    using 1 p by (simp add: num_simps l)
  then show ?case using 1
    by (simp add: unat_div_distrib m l lerp_def mult.commute)
next
  case (2 t fin r c p ps)
  define r' where "r' = to_u64 (rate_bump p)"
  define d :: u64 where "d = ucast (time_delta p)"
  have r': "unat r' < 2 ^ 24" unfolding r'_def by (rule to_u64_less)
  have d: "unat d = unat (time_delta p)" "unat d < 2 ^ 16"
    unfolding d_def using unat_less_2p [of "time_delta p"] by (simp_all add: unat_ucast_widen)
  have cd: "unat (c + d) = unat c + unat d" "add_u c d = Inr (c + d)"
    using 2 d by (simp_all add: unat_add_ok num_simps)
  have pt: "point p = (unat r', unat d)" by (simp add: point_def r'_def d)
  show ?case
  proof (cases "t \<le> c + d")
    case True
    then have le: "unat t \<le> unat c + unat d" by (simp add: word_le_nat_alt cd)
    note g = rate_bump_segment [OF 2(2) le cd(1) d(2) 2(5) r']
    have "rate_bump_loop t fin r c (p # ps) = Inr (((t - c) * r' + (c + d - t) * r) div d)"
      using 2 True le g(3,4)
      by (simp add: Let_def cd num_simps g(1,2,5,6) flip: r'_def d_def)
    then show ?thesis using le by (simp add: pt lerp_def unat_div_distrib g(7))
  next
    case False
    then have "unat (c + d) < unat t" by (simp add: word_le_nat_alt)
    with 2 r' have "\<exists>b. rate_bump_loop t fin r' (c + d) ps = Inr b
        \<and> unat b = curve (unat t) (unat fin) (unat r') (unat (c + d)) (map point ps)"
      by (intro "2.IH" [OF r'_def d_def cd(2) False]) simp_all
    with False show ?thesis
      by (simp add: Let_def cd pt word_le_nat_alt flip: r'_def d_def)
  qed
qed

lemma calculate_rate_bump_eq:
  "\<exists>b. calculate_rate_bump timestamp data = Inr b \<and> unat b = bump_at (unat timestamp) data"
proof -
  let ?s = "ucast (start_time data) :: u64" and ?d = "ucast (duration data) :: u64"
  have s: "unat ?s = unat (start_time data)" and d: "unat ?d = unat (duration data)"
    by (simp_all add: unat_ucast_widen)
  have lt: "unat (start_time data) < 2 ^ 32" "unat (duration data) < 2 ^ 32"
    using unat_less_2p [of "start_time data"] unat_less_2p [of "duration data"] by simp_all
  have fin: "unat (?s + ?d) = unat (start_time data) + unat (duration data)"
      "add_u ?s ?d = Inr (?s + ?d)"
    using lt by (simp_all add: unat_add_ok num_simps s d)
  consider "timestamp \<le> ?s" | "\<not> timestamp \<le> ?s" "?s + ?d \<le> timestamp"
    | "\<not> timestamp \<le> ?s" "\<not> ?s + ?d \<le> timestamp" by blast
  then show ?thesis
  proof cases
    case 1
    then show ?thesis by (simp add: calculate_rate_bump_def bump_at_def word_le_nat_alt s)
  next
    case 2
    then show ?thesis by (simp add: calculate_rate_bump_def bump_at_def word_le_nat_alt s fin)
  next
    case 3
    then have "\<exists>b. rate_bump_loop timestamp (?s + ?d) (to_u64 (initial_rate_bump data)) ?s
          (points_and_time_deltas data) = Inr b
        \<and> unat b = curve (unat timestamp) (unat (?s + ?d)) (unat (to_u64 (initial_rate_bump data)))
            (unat ?s) (map point (points_and_time_deltas data))"
      using lt to_u64_less [of "initial_rate_bump data"]
      by (intro rate_bump_loop_eq) (simp_all add: word_le_nat_alt fin s)
    with 3 show ?thesis
      by (auto simp: calculate_rate_bump_def bump_at_def word_le_nat_alt s fin)
  qed
qed

lemma calculate_rate_bump_Inr_iff:
  "calculate_rate_bump timestamp data = Inr b \<longleftrightarrow> unat b = bump_at (unat timestamp) data"
  by (metis Inr_inject calculate_rate_bump_eq word_eq_iff_unat)

lemma bumps_le:
  assumes "\<forall>x \<in> set (bumps data). x \<le> m"
  shows "bump_at t data \<le> m"
proof -
  consider "t \<le> unat (start_time data)" | "unat (start_time data) + unat (duration data) \<le> t"
    | "unat (start_time data) < t" "t < unat (start_time data) + unat (duration data)" by linarith
  then show ?thesis
    using assms by cases (simp_all add: bump_at_def bumps_def curve_le)
qed

lemma bump_at_less: "bump_at t data < 2 ^ 24"
proof -
  have "\<forall>x \<in> set (bumps data). x \<le> 2 ^ 24 - 1"
    using to_u64_less by (auto simp: bumps_def point_def less_eq_Suc_le)
  then have "bump_at t data \<le> 2 ^ 24 - 1" by (rule bumps_le)
  then show ?thesis by simp
qed

lemma bump_at_antimono:
  assumes "t \<le> t'" "sorted_wrt (\<ge>) (bumps data)"
  shows "bump_at t' data \<le> bump_at t data"
proof (cases "t \<le> unat (start_time data)")
  case True
  with assms(2) have "bump_at t' data \<le> unat (to_u64 (initial_rate_bump data))"
    by (intro bumps_le) (auto simp: bumps_def)
  with True show ?thesis by (simp add: bump_at_def)
next
  case False
  with assms show ?thesis
    by (auto simp: bump_at_def bumps_def comp_def intro!: curve_antimono)
qed

text \<open>C31: for every timestamp and every auction data, \<open>calculate_rate_bump\<close> returns, with no
  overflow and no division by zero (as its comments claim); what it returns is the reference
  curve rounded down, it never exceeds the largest bump of the data, and it fits 24 bits.\<close>

theorem calculate_rate_bump_correct:
  "\<exists>b. calculate_rate_bump timestamp data = Inr b
     \<and> unat b = bump_at (unat timestamp) data
     \<and> unat b \<le> Max (set (bumps data)) \<and> unat b < 2 ^ 24"
proof -
  obtain b where b: "calculate_rate_bump timestamp data = Inr b" "unat b = bump_at (unat timestamp) data"
    using calculate_rate_bump_eq by blast
  have "bump_at (unat timestamp) data \<le> Max (set (bumps data))"
    by (rule bumps_le) simp
  then show ?thesis using b bump_at_less [of "unat timestamp" data] by auto
qed

text \<open>When the points of the auction never rise, the rate bump never rises with time, so
  a later fill never costs the taker more: over all timestamps, the flat part before the
  start, the interpolated segments and the zero after the end included.\<close>

theorem rate_bump_antimono:
  assumes "sorted_wrt (\<ge>) (bumps data)" and "t \<le> t'"
    and "calculate_rate_bump t data = Inr b" and "calculate_rate_bump t' data = Inr b'"
  shows "b' \<le> b"
  using assms bump_at_antimono [of "unat t" "unat t'" data]
  by (simp add: calculate_rate_bump_Inr_iff word_le_nat_alt)

definition sample_auction :: AuctionData where
  "sample_auction = \<lparr>start_time = 100, duration = 100, initial_rate_bump = U24 0 0 200,
     points_and_time_deltas = [\<lparr>rate_bump = U24 0 0 150, time_delta = 10\<rparr>]\<rparr>"

theorem rate_bump_antimono_witness:
  "calculate_rate_bump 105 sample_auction = Inr 175 \<and> calculate_rate_bump 155 sample_auction = Inr 75
   \<and> (75 :: u64) \<le> 175"
proof -
  have s: "sorted_wrt (\<ge>) (bumps sample_auction)"
    by (simp add: bumps_def sample_auction_def point_def unat_to_u64 unat_to_u32)
  have a: "calculate_rate_bump 105 sample_auction = Inr 175"
    by (simp add: calculate_rate_bump_Inr_iff bump_at_def sample_auction_def point_def lerp_def unat_to_u64 unat_to_u32)
  have b: "calculate_rate_bump 155 sample_auction = Inr 75"
    by (simp add: calculate_rate_bump_Inr_iff bump_at_def sample_auction_def point_def lerp_def unat_to_u64 unat_to_u32)
  show ?thesis using a b rate_bump_antimono [OF s _ a b] by simp
qed

section \<open>The premium\<close>

definition premium :: "nat \<Rightarrow> nat \<Rightarrow> nat \<Rightarrow> nat \<Rightarrow> nat" where
  "premium t start dur m =
     (if t \<le> start then 0 else if dur \<le> t - start then m else (t - start) * m div dur)"

lemma premium_le: "premium t start dur m \<le> m"
  by (auto simp: premium_def mult.commute intro!: div_le_of_le_mult)

lemma premium_mono: "t \<le> t' \<Longrightarrow> premium t start dur m \<le> premium t' start dur m"
proof -
  assume le: "t \<le> t'"
  show ?thesis
  proof (cases "t' \<le> start \<or> dur \<le> t' - start")
    case True
    with le premium_le [of t start dur m] show ?thesis by (auto simp: premium_def)
  next
    case False
    with le show ?thesis by (auto simp: premium_def intro!: div_le_mono mult_le_mono)
  qed
qed

lemma calculate_premium_cases:
  "calculate_premium t start dur m =
     (if unat start < unat t \<and> unat t - unat start < unat dur \<and> 2 ^ 64 \<le> (unat t - unat start) * unat m
      then Inl Panic
      else Inr (of_nat (premium (unat t) (unat start) (unat dur) (unat m))))"
proof (cases "t \<le> start")
  case True
  then show ?thesis by (simp add: calculate_premium_def premium_def word_le_nat_alt)
next
  case False
  then have lt: "unat start < unat t" by (simp add: word_le_nat_alt)
  have e: "unat (t - start) = unat t - unat start" using lt by (simp add: unat_sub word_le_nat_alt)
  have sub: "sub_u t start = Inr (t - start)" using lt by (simp add: num_simps)
  let ?e = "ucast (t - start) :: u64"
  have ue: "unat ?e = unat t - unat start" "unat (ucast dur :: u64) = unat dur"
    by (simp_all add: unat_ucast_widen e)
  show ?thesis
  proof (cases "dur \<le> t - start")
    case True
    with False lt show ?thesis
      by (simp add: calculate_premium_def premium_def sub word_le_nat_alt e)
  next
    case dur: False
    show ?thesis
    proof (cases "2 ^ 64 \<le> (unat t - unat start) * unat m")
      case True
      with False dur lt show ?thesis
        by (simp add: calculate_premium_def sub word_le_nat_alt e mul_u_def checked_mul_def ue)
    next
      case no: False
      have "?e * m div ucast dur = of_nat ((unat t - unat start) * unat m div unat dur)"
      proof -
        have "unat (?e * m div ucast dur) = (unat t - unat start) * unat m div unat dur"
          using no by (simp add: unat_div_distrib unat_mult_ok ue)
        moreover have "?e * m div ucast dur = of_nat (unat (?e * m div ucast dur))"
          by simp
        ultimately show ?thesis by simp
      qed
      with no False dur lt show ?thesis
        by (simp add: calculate_premium_def premium_def sub word_le_nat_alt e num_simps ue)
    qed
  qed
qed

text \<open>C35: the cancellation premium.  It panics (the multiplication overflows \<open>u64\<close>) exactly when
  the auction is running and elapsed time times maximum premium reaches \<open>2^64\<close>; otherwise it
  is the linear premium, zero up to the start of the auction, the maximum from its end on,
  and never above the maximum.  A maximum below \<open>2^32\<close> excludes the panic.\<close>

theorem calculate_premium_correct:
  "(if unat start < unat t \<and> unat t - unat start < unat dur \<and> 2 ^ 64 \<le> (unat t - unat start) * unat m
    then calculate_premium t start dur m = Inl Panic \<and> 2 ^ 32 \<le> unat m
    else \<exists>p. calculate_premium t start dur m = Inr p
           \<and> unat p = premium (unat t) (unat start) (unat dur) (unat m) \<and> p \<le> m)"
proof -
  let ?p = "premium (unat t) (unat start) (unat dur) (unat m)"
  have "?p < 2 ^ 64" using premium_le [of "unat t" "unat start" "unat dur" "unat m"] unat_less_2p [of m]
    by simp
  then have p: "unat (of_nat ?p :: u64) = ?p" by (simp add: unsigned_of_nat take_bit_nat_eq_self)
  have m: "2 ^ 32 \<le> unat m" if "2 ^ 64 \<le> (unat t - unat start) * unat m"
  proof (rule ccontr)
    assume "\<not> 2 ^ 32 \<le> unat m"
    then have "unat m \<le> 2 ^ 32 - 1" by simp
    moreover have "unat t - unat start \<le> 2 ^ 32" using unat_less_2p [of t] by simp
    ultimately have "(unat t - unat start) * unat m \<le> 2 ^ 32 * (2 ^ 32 - 1)"
      by (rule mult_le_mono [rotated])
    with that show False by simp
  qed
  show ?thesis
    using p m premium_le [of "unat t" "unat start" "unat dur" "unat m"]
    by (simp add: calculate_premium_cases word_le_nat_alt)
qed

lemma calculate_premium_InrD:
  "calculate_premium t start dur m = Inr p \<Longrightarrow>
     unat p = premium (unat t) (unat start) (unat dur) (unat m) \<and> p \<le> m"
  using premium_le [of "unat t" "unat start" "unat dur" "unat m"] unat_less_2p [of m]
  by (auto simp: calculate_premium_cases unsigned_of_nat take_bit_nat_eq_self word_le_nat_alt
      split: if_splits)

end
