(* ===== verification/MerkleTree.thy ===== *)
theory MerkleTree
  imports Errors
begin

text \<open>
  \<open>programs/cross-chain-escrow-src/src/merkle_tree.rs\<close>: the proof that a hashed secret is
  the leaf of an order's Merkle tree.  Keccak-256 is code of a library: it is the parameter
  \<open>h\<close> of every definition here.  The lemmas relate \<open>process_proof\<close> to a reference tree:
  the path of a leaf is accepted, and, as long as the hash separates the byte strings that
  are hashed, only leaves of the tree are.
\<close>

section \<open>Proofs and their root\<close>

record MerkleProof =
  proof_path :: "bytes list"
  index :: u64
  hashed_secret :: bytes

text \<open>\<open>hashv\<close> hashes the concatenation of the slices it is given.\<close>

definition hashv :: "(bytes \<Rightarrow> bytes) \<Rightarrow> bytes list \<Rightarrow> bytes" where
  "hashv h slices = h (concat slices)"

definition hash_leaf :: "(bytes \<Rightarrow> bytes) \<Rightarrow> MerkleProof \<Rightarrow> bytes" where
  "hash_leaf h p = hashv h [to_be_bytes (index p), hashed_secret p]"

fun process_loop :: "(bytes \<Rightarrow> bytes) \<Rightarrow> bytes \<Rightarrow> bytes list \<Rightarrow> bytes" where
  "process_loop h computed_hash [] = computed_hash"
| "process_loop h computed_hash (proof_element # rest) =
     process_loop h
       (hashv h [min proof_element computed_hash, max proof_element computed_hash]) rest"

definition process_proof :: "(bytes \<Rightarrow> bytes) \<Rightarrow> MerkleProof \<Rightarrow> bytes" where
  "process_proof h p = process_loop h (hash_leaf h p) (proof_path p)"

section \<open>Reference trees\<close>

datatype mtree = Leaf u64 bytes | Node mtree mtree

fun root :: "(bytes \<Rightarrow> bytes) \<Rightarrow> mtree \<Rightarrow> bytes" where
  "root h (Leaf i s) = hashv h [to_be_bytes i, s]"
| "root h (Node l r) = hashv h [min (root h l) (root h r), max (root h l) (root h r)]"

fun leaves :: "mtree \<Rightarrow> (u64 \<times> bytes) set" where
  "leaves (Leaf i s) = {(i, s)}"
| "leaves (Node l r) = leaves l \<union> leaves r"

text \<open>The paths of a leaf, from the leaf up.\<close>

fun path_to :: "(bytes \<Rightarrow> bytes) \<Rightarrow> mtree \<Rightarrow> u64 \<times> bytes \<Rightarrow> bytes list option" where
  "path_to h (Leaf i s) x = (if x = (i, s) then Some [] else None)"
| "path_to h (Node l r) x =
     (case path_to h l x of
        Some p \<Rightarrow> Some (p @ [root h r])
      | None \<Rightarrow> map_option (\<lambda>p. p @ [root h l]) (path_to h r x))"

text \<open>The byte strings hashed to compute a root, and to check a proof.\<close>

fun tree_inputs :: "(bytes \<Rightarrow> bytes) \<Rightarrow> mtree \<Rightarrow> bytes set" where
  "tree_inputs h (Leaf i s) = {to_be_bytes i @ s}"
| "tree_inputs h (Node l r) =
     insert (min (root h l) (root h r) @ max (root h l) (root h r)) (tree_inputs h l \<union> tree_inputs h r)"

fun loop_inputs :: "(bytes \<Rightarrow> bytes) \<Rightarrow> bytes \<Rightarrow> bytes list \<Rightarrow> bytes set" where
  "loop_inputs h acc [] = {}"
| "loop_inputs h acc (e # es) =
     insert (min e acc @ max e acc) (loop_inputs h (h (min e acc @ max e acc)) es)"

definition proof_inputs :: "(bytes \<Rightarrow> bytes) \<Rightarrow> MerkleProof \<Rightarrow> bytes set" where
  "proof_inputs h p =
     insert (to_be_bytes (index p) @ hashed_secret p) (loop_inputs h (hash_leaf h p) (proof_path p))"

text \<open>The sizes the Rust types fix: hashes, secrets and path elements are \<open>[u8; 32]\<close>.\<close>

definition hash32 :: "(bytes \<Rightarrow> bytes) \<Rightarrow> bool" where
  "hash32 h \<longleftrightarrow> (\<forall>x. length (h x) = 32)"

definition proof32 :: "MerkleProof \<Rightarrow> bool" where
  "proof32 p \<longleftrightarrow> length (hashed_secret p) = 32 \<and> (\<forall>e \<in> set (proof_path p). length e = 32)"

definition tree32 :: "mtree \<Rightarrow> bool" where
  "tree32 t \<longleftrightarrow> (\<forall>(i, s) \<in> leaves t. length s = 32)"

lemma hashv_pair: "hashv h [a, b] = h (a @ b)"
  by (simp add: hashv_def)

lemma process_loop_append:
  "process_loop h acc (es @ fs) = process_loop h (process_loop h acc es) fs"
  by (induction es arbitrary: acc) simp_all

lemma loop_inputs_append:
  "loop_inputs h acc (es @ fs) = loop_inputs h acc es \<union> loop_inputs h (process_loop h acc es) fs"
  by (induction es arbitrary: acc) (simp_all add: hashv_pair)

lemma length_root: "hash32 h \<Longrightarrow> length (root h t) = 32"
  by (cases t) (simp_all add: hash32_def hashv_def)

lemma length_process_loop:
  "hash32 h \<Longrightarrow> length acc = 32 \<Longrightarrow> length (process_loop h acc es) = 32"
  by (induction es arbitrary: acc) (simp_all add: hash32_def hashv_def)

lemma length_min_max:
  fixes a b :: bytes
  assumes "length a = n" "length b = n"
  shows "length (min a b) = n" "length (max a b) = n"
  using assms by (auto simp: min_def max_def)

lemma min_max_commute: "min (a :: bytes) b @ max a b = min b a @ max b a"
  by (simp add: min.commute max.commute)

text \<open>A sorted pair determines its two members up to their order.\<close>

lemma sorted_pair_eq:
  fixes a b c d :: bytes
  assumes "length a = n" "length b = n" "length c = n" "length d = n"
    and "min a b @ max a b = min c d @ max c d"
  shows "b = c \<or> b = d"
proof -
  have "min a b = min c d" "max a b = max c d"
    using assms(5) by (simp_all add: length_min_max [OF assms(1,2)] length_min_max [OF assms(3,4)])
  then show ?thesis by (metis max_def min_def)
qed

section \<open>Completeness and soundness\<close>

lemma process_loop_path:
  "path_to h t (i, s) = Some p \<Longrightarrow> process_loop h (hashv h [to_be_bytes i, s]) p = root h t"
proof (induction t arbitrary: p)
  case (Leaf j s')
  then show ?case by (auto split: if_splits)
next
  case (Node l r)
  then show ?case
    by (auto simp: process_loop_append hashv_pair min_max_commute split: option.splits)
qed

lemma path_to_leaf: "x \<in> leaves t \<Longrightarrow> \<exists>p. path_to h t x = Some p"
  by (induction t) (auto split: option.splits)

text \<open>C30: the prover's side of a Merkle proof: for every leaf of a tree, the path read off the
  tree makes \<open>process_proof\<close> return the root of the tree.\<close>

theorem merkle_complete:
  assumes "(i, s) \<in> leaves t"
  shows "\<exists>p. path_to h t (i, s) = Some p
    \<and> process_proof h \<lparr>proof_path = p, index = i, hashed_secret = s\<rparr> = root h t"
  using path_to_leaf [OF assms, of h]
  by (auto simp: process_proof_def hash_leaf_def process_loop_path)

text \<open>Only the last 30 bytes of the root are compared (the first two hold the number of
  parts), so the hash has to separate its inputs by those.\<close>

text \<open>The empty proof opens only a tree that is one leaf.\<close>

lemma process_leaf_sound:
  assumes "hash32 h" "length s = 32"
    and inj: "inj_on (\<lambda>x. drop 2 (h x)) (tree_inputs h t \<union> {to_be_bytes i @ s})"
    and eq: "drop 2 (h (to_be_bytes i @ s)) = drop 2 (root h t)"
  shows "(i, s) \<in> leaves t"
proof (cases t)
  case (Leaf j s')
  have "to_be_bytes i @ s = to_be_bytes j @ s'"
    by (rule inj_onD [OF inj]) (use eq in \<open>simp_all add: Leaf hashv_pair\<close>)
  then have "to_be_bytes i = to_be_bytes j \<and> s = s'" by simp
  then show ?thesis by (simp add: Leaf to_be_bytes_eq_iff)
next
  case (Node l r)
  have "to_be_bytes i @ s = min (root h l) (root h r) @ max (root h l) (root h r)"
    by (rule inj_onD [OF inj]) (use eq in \<open>simp_all add: Node hashv_pair\<close>)
  from arg_cong [OF this, of length] show ?thesis
    using assms(1,2) by (simp add: length_min_max [where n = 32] length_root)
qed

lemma process_loop_sound:
  assumes "hash32 h" "length s = 32" "\<forall>e \<in> set es. length e = 32" "tree32 t"
    and "inj_on (\<lambda>x. drop 2 (h x))
      (tree_inputs h t \<union> insert (to_be_bytes i @ s) (loop_inputs h (h (to_be_bytes i @ s)) es))"
    and "drop 2 (process_loop h (h (to_be_bytes i @ s)) es) = drop 2 (root h t)"
  shows "(i, s) \<in> leaves t"
  using assms
proof (induction es arbitrary: t rule: rev_induct)
  case Nil
  then show ?case by (intro process_leaf_sound [of h s t i]) simp_all
next
  case (snoc e es)
  define acc where "acc = process_loop h (h (to_be_bytes i @ s)) es"
  have "length (h (to_be_bytes i @ s)) = 32" using snoc.prems(1) by (simp add: hash32_def)
  then have len: "length e = 32" "length acc = 32"
    using snoc.prems(1,3) by (simp_all add: acc_def length_process_loop)
  have eq: "drop 2 (h (min e acc @ max e acc)) = drop 2 (root h t)"
    using snoc.prems(6) by (simp add: process_loop_append acc_def hashv_pair)
  have inp: "loop_inputs h (h (to_be_bytes i @ s)) (es @ [e])
      = insert (min e acc @ max e acc) (loop_inputs h (h (to_be_bytes i @ s)) es)"
    by (simp add: loop_inputs_append acc_def)
  show ?case
  proof (cases t)
    case (Leaf j s')
    have "min e acc @ max e acc = to_be_bytes j @ s'"
      by (rule inj_onD [OF snoc.prems(5)]) (use eq in \<open>simp_all add: Leaf hashv_pair inp\<close>)
    from arg_cong [OF this, of length] show ?thesis
      using snoc.prems(4) by (simp add: length_min_max [OF len] Leaf tree32_def)
  next
    case (Node l r)
    have "min e acc @ max e acc = min (root h l) (root h r) @ max (root h l) (root h r)"
      by (rule inj_onD [OF snoc.prems(5)]) (use eq in \<open>simp_all add: Node hashv_pair inp\<close>)
    then have "acc = root h l \<or> acc = root h r"
      by (rule sorted_pair_eq [where n = 32, rotated 4]) (simp_all add: len length_root snoc.prems(1))
    then obtain u where u: "u = l \<or> u = r" "acc = root h u" by blast
    have sub: "tree_inputs h u \<union> insert (to_be_bytes i @ s) (loop_inputs h (h (to_be_bytes i @ s)) es)
        \<subseteq> tree_inputs h t \<union> insert (to_be_bytes i @ s) (loop_inputs h (h (to_be_bytes i @ s)) (es @ [e]))"
      unfolding inp Node using u(1) by auto
    have "(i, s) \<in> leaves u"
    proof (rule snoc.IH)
      show "\<forall>e \<in> set es. length e = 32" using snoc.prems(3) by simp
      show "tree32 u" using snoc.prems(4) u(1) by (auto simp: Node tree32_def)
      show "drop 2 (process_loop h (h (to_be_bytes i @ s)) es) = drop 2 (root h u)"
        using u(2) by (simp add: acc_def)
    qed (rule snoc.prems(1,2) inj_on_subset [OF snoc.prems(5) sub])+
    with u(1) show ?thesis by (auto simp: Node)
  qed
qed

text \<open>C29: the verifier's side: a proof whose root agrees with the root of a tree in the bytes
  \<open>create_escrow\<close> compares carries a leaf of that tree, its index and its hashed secret
  together, provided the hash separates the byte strings hashed on both sides.  In particular
  an inner node can not pass for a leaf: their inputs have 64 and 40 bytes.\<close>

theorem merkle_sound:
  assumes "hash32 h" "proof32 p" "tree32 t"
    and "inj_on (\<lambda>x. drop 2 (h x)) (tree_inputs h t \<union> proof_inputs h p)"
    and "drop 2 (process_proof h p) = drop 2 (root h t)"
  shows "(index p, hashed_secret p) \<in> leaves t"
  using assms by (intro process_loop_sound [where h = h and es = "proof_path p"])
    (simp_all add: proof32_def process_proof_def hash_leaf_def proof_inputs_def hashv_pair)

text \<open>A hash for the witnesses: its last two bytes are the length and the sum of its input.\<close>

definition check_hash :: "bytes \<Rightarrow> bytes" where
  "check_hash x = replicate 30 0 @ [of_nat (length x), sum_list x]"

definition sample_secret :: "u8 \<Rightarrow> bytes" where
  "sample_secret b = replicate 31 0 @ [b]"

definition sample_tree :: mtree where
  "sample_tree = Node (Leaf 0 (sample_secret 7)) (Leaf 1 (sample_secret 9))"

definition sample_proof :: MerkleProof where
  "sample_proof = \<lparr>proof_path = [replicate 30 0 @ [40, 10]], index = 0, hashed_secret = sample_secret 7\<rparr>"

lemma sum_list_sample:
  "sum_list (to_be_bytes (0 :: u64)) = 0" "sum_list (to_be_bytes (1 :: u64)) = 1"
  by (simp_all add: to_be_bytes_def to_le_bytes_def upt_rec)

lemma check_hash_leaf:
  "check_hash (to_be_bytes (0 :: u64) @ sample_secret 7) = replicate 30 0 @ [40, 7]"
  "check_hash (to_be_bytes (1 :: u64) @ sample_secret 9) = replicate 30 0 @ [40, 10]"
  by (simp_all add: check_hash_def sample_secret_def sum_list_sample sum_list_replicate)

lemma sample_pair:
  "min (replicate 30 0 @ [40, 10]) (replicate 30 0 @ [40, 7]) = (replicate 30 0 @ [40, 7] :: bytes)"
  "max (replicate 30 0 @ [40, 10]) (replicate 30 0 @ [40, 7]) = (replicate 30 0 @ [40, 10] :: bytes)"
  by (simp_all add: min_def max_def list_le_def list_less_def lexord_same_pref_iff)

lemma sample_roots:
  "root check_hash sample_tree = check_hash ((replicate 30 0 @ [40, 7]) @ (replicate 30 0 @ [40, 10]))"
  "process_proof check_hash sample_proof = check_hash ((replicate 30 0 @ [40, 7]) @ (replicate 30 0 @ [40, 10]))"
  by (simp_all only: sample_tree_def sample_proof_def root.simps hashv_pair check_hash_leaf sample_pair
      min.commute [of "replicate 30 0 @ [40, 7]"] max.commute [of "replicate 30 0 @ [40, 7]"]
      process_proof_def process_loop.simps hash_leaf_def MerkleProof.simps)

lemma sample_inputs:
  "tree_inputs check_hash sample_tree \<union> proof_inputs check_hash sample_proof =
     {to_be_bytes (0 :: u64) @ sample_secret 7, to_be_bytes (1 :: u64) @ sample_secret 9,
      (replicate 30 0 @ [40, 7]) @ (replicate 30 0 @ [40, 10])}"
proof -
  have "tree_inputs check_hash sample_tree =
     {(replicate 30 0 @ [40, 7]) @ (replicate 30 0 @ [40, 10]),
      to_be_bytes (0 :: u64) @ sample_secret 7, to_be_bytes (1 :: u64) @ sample_secret 9}"
    by (simp only: sample_tree_def tree_inputs.simps root.simps hashv_pair check_hash_leaf sample_pair
        min.commute [of "replicate 30 0 @ [40, 7]"] max.commute [of "replicate 30 0 @ [40, 7]"]) blast
  moreover have "proof_inputs check_hash sample_proof =
     {to_be_bytes (0 :: u64) @ sample_secret 7, (replicate 30 0 @ [40, 7]) @ (replicate 30 0 @ [40, 10])}"
    by (simp only: sample_proof_def proof_inputs_def loop_inputs.simps hash_leaf_def MerkleProof.simps
        hashv_pair check_hash_leaf sample_pair)
  ultimately show ?thesis by auto
qed

theorem merkle_sound_witness:
  "(index sample_proof, hashed_secret sample_proof) \<in> leaves sample_tree"
proof (rule merkle_sound [where h = check_hash])
  show "hash32 check_hash" by (simp add: hash32_def check_hash_def)
  show "proof32 sample_proof" by (simp add: proof32_def sample_proof_def sample_secret_def)
  show "tree32 sample_tree" by (simp add: tree32_def sample_tree_def sample_secret_def)
  have "check_hash ((replicate 30 0 @ [40, 7]) @ (replicate 30 0 @ [40, 10])) = replicate 30 0 @ [64, 97]"
    by (simp add: check_hash_def sum_list_replicate)
  then show "inj_on (\<lambda>x. drop 2 (check_hash x))
      (tree_inputs check_hash sample_tree \<union> proof_inputs check_hash sample_proof)"
    unfolding sample_inputs inj_on_def by (auto simp: check_hash_leaf)
  show "drop 2 (process_proof check_hash sample_proof) = drop 2 (root check_hash sample_tree)"
    by (simp only: sample_roots)
qed

theorem merkle_complete_witness:
  "\<exists>p. path_to check_hash sample_tree (1, sample_secret 9) = Some p
     \<and> process_proof check_hash \<lparr>proof_path = p, index = 1, hashed_secret = sample_secret 9\<rparr>
       = root check_hash sample_tree"
  by (rule merkle_complete) (simp add: sample_tree_def)

end
