(* ===== verification/OrderHash.thy ===== *)
theory OrderHash
  imports Runtime Auction MerkleTree
begin

text \<open>
  What identifies orders and escrows: \<open>get_order_hash\<close>, \<open>get_escrow_hashlock\<close>, the Borsh
  encoding of the Dutch auction whose hash an order commits to, and the seeds of the program
  addresses.  The encodings are injective, so two orders with one hash, or two auctions with
  one hash, are a collision of Keccak.
\<close>

section \<open>Order parameters\<close>

text \<open>The arguments of \<open>create\<close>, \<open>get_order_hash\<close> and \<open>rescue_funds_for_order\<close> that describe
  an order, next to its maker and its token.\<close>

record OrderArgs =
  oa_hashlock :: bytes
  oa_amount :: u64
  oa_safety_deposit :: u64
  oa_timelocks :: u64x4
  oa_expiration_time :: u32
  oa_asset_is_native :: bool
  oa_dst_amount :: u64x4
  oa_dutch_auction_data_hash :: bytes
  oa_max_cancellation_premium :: u64
  oa_cancellation_auction_duration :: u32
  oa_allow_multiple_fills :: bool
  oa_salt :: u64

record DstChainParams =
  chain_id :: u32
  maker_address :: bytes
  dst_token :: bytes
  dst_safety_deposit :: u128

definition order_preimage :: "pubkey \<Rightarrow> pubkey \<Rightarrow> OrderArgs \<Rightarrow> bytes list" where
  "order_preimage maker token a =
     [oa_hashlock a, maker, token,
      to_be_bytes (oa_amount a), to_be_bytes (oa_safety_deposit a),
      borsh_u64x4 (oa_timelocks a), to_be_bytes (oa_expiration_time a),
      [bool_byte (oa_asset_is_native a)], borsh_u64x4 (oa_dst_amount a),
      oa_dutch_auction_data_hash a, to_be_bytes (oa_max_cancellation_premium a),
      to_be_bytes (oa_cancellation_auction_duration a),
      [bool_byte (oa_allow_multiple_fills a)], to_be_bytes (oa_salt a)]"

definition get_order_hash :: "runtime \<Rightarrow> pubkey \<Rightarrow> pubkey \<Rightarrow> OrderArgs \<Rightarrow> bytes" where
  "get_order_hash rt maker token a = hashv (keccak rt) (order_preimage maker token a)"

definition get_escrow_hashlock :: "bytes \<Rightarrow> MerkleProof option \<Rightarrow> bytes" where
  "get_escrow_hashlock order_hashlock merkle_proof =
     (case merkle_proof of Some proof \<Rightarrow> hashed_secret proof | None \<Rightarrow> order_hashlock)"

section \<open>The auction an order commits to\<close>

text \<open>\<open>AuctionData::try_to_vec\<close>: the fields in declaration order, a vector behind its length as
  a \<open>u32\<close>, a \<open>U24\<close> as its three bytes.\<close>

fun borsh_u24 :: "U24 \<Rightarrow> bytes" where
  "borsh_u24 (U24 a b c) = [a, b, c]"

definition borsh_point :: "PointAndTimeDelta \<Rightarrow> bytes" where
  "borsh_point p = borsh_u24 (rate_bump p) @ to_le_bytes (time_delta p)"

definition borsh_auction :: "AuctionData \<Rightarrow> bytes" where
  "borsh_auction d =
     to_le_bytes (start_time d) @ to_le_bytes (duration d) @ borsh_u24 (initial_rate_bump d)
     @ to_le_bytes (word_of_nat (length (points_and_time_deltas d)) :: u32)
     @ concat (map borsh_point (points_and_time_deltas d))"

definition try_to_vec :: "AuctionData \<Rightarrow> bytes res" where
  "try_to_vec d =
     require (length (points_and_time_deltas d) < 2 ^ 32) (Anchor BorshSerialization) (Inr (borsh_auction d))"

section \<open>Seeds\<close>

definition order_seeds :: "bytes \<Rightarrow> bytes list" where
  "order_seeds order_hash = [ORDER_SEED, order_hash]"

definition escrow_seeds :: "bytes \<Rightarrow> bytes \<Rightarrow> pubkey \<Rightarrow> u64 \<Rightarrow> bytes list" where
  "escrow_seeds order_hash hashlock owner amount =
     [ESCROW_SEED, order_hash, hashlock, owner, to_be_bytes amount]"

definition resolver_seeds :: "pubkey \<Rightarrow> pubkey \<Rightarrow> bytes list" where
  "resolver_seeds client user = [client, user]"

text \<open>What the account of a whitelisted resolver proves: the whitelist program registered the
  user for the client program at this key.\<close>

definition has_access :: "runtime \<Rightarrow> ledger \<Rightarrow> pubkey \<Rightarrow> pubkey \<Rightarrow> pubkey \<Rightarrow> bool" where
  "has_access rt L client user key \<longleftrightarrow>
     (\<exists>ra. prog L key = Some (ResolverAcc ra)
        \<and> create_program_address rt (resolver_seeds client user @ [[ra_bump ra]]) whitelist_ID = Some key)"

section \<open>Injectivity\<close>

lemma append_eq_lengthD: "xs @ ys = xs' @ ys' \<Longrightarrow> length xs = length xs' \<Longrightarrow> xs = xs' \<and> ys = ys'"
  by simp

lemma borsh_u24_inj: "borsh_u24 u = borsh_u24 v \<longleftrightarrow> u = v"
  by (cases u; cases v) simp

lemma length_borsh_u24 [simp]: "length (borsh_u24 u) = 3"
  by (cases u) simp

lemma borsh_point_inj: "borsh_point p = borsh_point q \<longleftrightarrow> p = q"
proof
  assume "borsh_point p = borsh_point q"
  then have "rate_bump p = rate_bump q \<and> time_delta p = time_delta q"
    by (simp add: borsh_point_def borsh_u24_inj to_le_bytes_eq_iff)
  then show "p = q" by simp
qed simp

lemma concat_points_inj:
  "concat (map borsh_point ps) = concat (map borsh_point qs) \<Longrightarrow> length ps = length qs \<Longrightarrow> ps = qs"
proof (induction ps qs rule: list_induct2')
  case (4 p ps q qs)
  have "length (borsh_point p) = length (borsh_point q)" by (simp add: borsh_point_def)
  with 4 show ?case by (simp add: borsh_point_inj)
qed simp_all

lemma borsh_auction_inj:
  assumes eq: "borsh_auction a = borsh_auction b"
    and l: "length (points_and_time_deltas a) < 2 ^ 32" "length (points_and_time_deltas b) < 2 ^ 32"
  shows "a = b"
proof -
  have h: "start_time a = start_time b" "duration a = duration b" "initial_rate_bump a = initial_rate_bump b"
    and n: "(word_of_nat (length (points_and_time_deltas a)) :: u32) = word_of_nat (length (points_and_time_deltas b))"
    and p: "concat (map borsh_point (points_and_time_deltas a)) = concat (map borsh_point (points_and_time_deltas b))"
    using eq by (simp_all add: borsh_auction_def to_le_bytes_eq_iff borsh_u24_inj)
  have "length (points_and_time_deltas a) = length (points_and_time_deltas b)"
    using l arg_cong [OF n, of unat] by (simp add: unsigned_of_nat take_bit_nat_eq_self)
  with p have "points_and_time_deltas a = points_and_time_deltas b" by (rule concat_points_inj)
  with h show ?thesis by simp
qed

definition args32 :: "OrderArgs \<Rightarrow> bool" where
  "args32 a \<longleftrightarrow> length (oa_hashlock a) = 32 \<and> length (oa_dutch_auction_data_hash a) = 32"

lemma order_preimage_inj:
  assumes eq: "concat (order_preimage maker token a) = concat (order_preimage maker' token' b)"
    and l: "args32 a" "args32 b" "length maker = length maker'" "length token = length token'"
  shows "maker = maker' \<and> token = token' \<and> a = b"
proof -
  note e = eq [unfolded order_preimage_def concat.simps append_Nil2 append_assoc]
  note l' = l [unfolded args32_def]
  have 1: "oa_hashlock a = oa_hashlock b" "maker = maker'" "token = token'"
    "to_be_bytes (oa_amount a) = to_be_bytes (oa_amount b)"
    "to_be_bytes (oa_safety_deposit a) = to_be_bytes (oa_safety_deposit b)"
    "borsh_u64x4 (oa_timelocks a) = borsh_u64x4 (oa_timelocks b)"
    "to_be_bytes (oa_expiration_time a) = to_be_bytes (oa_expiration_time b)"
    "bool_byte (oa_asset_is_native a) = bool_byte (oa_asset_is_native b)"
    "borsh_u64x4 (oa_dst_amount a) = borsh_u64x4 (oa_dst_amount b)"
    "oa_dutch_auction_data_hash a = oa_dutch_auction_data_hash b"
    "to_be_bytes (oa_max_cancellation_premium a) = to_be_bytes (oa_max_cancellation_premium b)"
    "to_be_bytes (oa_cancellation_auction_duration a) = to_be_bytes (oa_cancellation_auction_duration b)"
    "bool_byte (oa_allow_multiple_fills a) = bool_byte (oa_allow_multiple_fills b)"
    "to_be_bytes (oa_salt a) = to_be_bytes (oa_salt b)"
    using e l' by simp_all
  have "a = b" using 1 by (intro OrderArgs.equality) (simp_all add: to_be_bytes_eq_iff borsh_u64x4_inj)
  with 1(2,3) show ?thesis by simp
qed

text \<open>C36: An order hash commits to its maker, its token and every parameter of the order: two
  different orders have the same hash only where Keccak collides on their encodings.\<close>

theorem order_hash_binding:
  assumes "get_order_hash rt maker token a = get_order_hash rt maker' token' b"
    and "args32 a" "args32 b" "length maker = length maker'" "length token = length token'"
    and "inj_on (keccak rt) {concat (order_preimage maker token a), concat (order_preimage maker' token' b)}"
  shows "maker = maker' \<and> token = token' \<and> a = b"
proof -
  have k: "keccak rt (concat (order_preimage maker token a)) = keccak rt (concat (order_preimage maker' token' b))"
    using assms(1) unfolding get_order_hash_def hashv_def .
  have "concat (order_preimage maker token a) = concat (order_preimage maker' token' b)"
    by (rule inj_onD [OF assms(6) k]) (rule insertI1, rule insertI2, rule insertI1)
  then show ?thesis using assms(2-5) by (rule order_preimage_inj)
qed

definition zero32 :: bytes where
  "zero32 = replicate 32 0"

definition sample_args :: OrderArgs where
  "sample_args = \<lparr>oa_hashlock = zero32, oa_amount = 100, oa_safety_deposit = 5,
     oa_timelocks = (0, 0, 0, 0), oa_expiration_time = 1000, oa_asset_is_native = False,
     oa_dst_amount = (50, 0, 0, 0), oa_dutch_auction_data_hash = zero32,
     oa_max_cancellation_premium = 3, oa_cancellation_auction_duration = 10,
     oa_allow_multiple_fills = False, oa_salt = 7\<rparr>"

text \<open>With the identity for a hash, one order has one hash, and a changed salt another.\<close>

lemma args32_sample: "args32 sample_args" "args32 (sample_args\<lparr>oa_salt := 8\<rparr>)"
  by (simp_all add: args32_def sample_args_def zero32_def)

theorem order_hash_binding_witness:
  "get_order_hash demo_runtime zero32 [9] sample_args
    \<noteq> get_order_hash demo_runtime zero32 [9] (sample_args\<lparr>oa_salt := 8\<rparr>)"
proof
  assume eq: "get_order_hash demo_runtime zero32 [9] sample_args
    = get_order_hash demo_runtime zero32 [9] (sample_args\<lparr>oa_salt := 8\<rparr>)"
  have "sample_args = sample_args\<lparr>oa_salt := 8\<rparr>"
    using order_hash_binding [OF eq args32_sample refl refl] by (simp add: inj_on_def)
  from arg_cong [OF this, of oa_salt] show False by (simp add: sample_args_def)
qed

text \<open>The hash of the Dutch auction an order stores commits to the auction: \<open>create_escrow\<close>,
  which compares hashes, accepts only the auction the maker chose.\<close>

theorem auction_hash_binding:
  assumes "try_to_vec a = Inr va" "try_to_vec b = Inr vb"
    and "hashv (keccak rt) [va] = hashv (keccak rt) [vb]" "inj_on (keccak rt) {va, vb}"
  shows "a = b"
proof -
  have k: "keccak rt va = keccak rt vb" using assms(3) by (simp add: hashv_def)
  have "va = vb" by (rule inj_onD [OF assms(4) k]) simp_all
  with assms(1,2) show ?thesis
    using borsh_auction_inj [of a b] by (simp add: try_to_vec_def res_simps)
qed

theorem auction_hash_binding_witness:
  "hashv (keccak demo_runtime) [borsh_auction sample_auction]
    \<noteq> hashv (keccak demo_runtime) [borsh_auction (sample_auction\<lparr>duration := 7\<rparr>)]"
proof
  assume eq: "hashv (keccak demo_runtime) [borsh_auction sample_auction]
    = hashv (keccak demo_runtime) [borsh_auction (sample_auction\<lparr>duration := 7\<rparr>)]"
  have v: "try_to_vec sample_auction = Inr (borsh_auction sample_auction)"
    "try_to_vec (sample_auction\<lparr>duration := 7\<rparr>) = Inr (borsh_auction (sample_auction\<lparr>duration := 7\<rparr>))"
    by (simp_all add: try_to_vec_def sample_auction_def)
  have "sample_auction = sample_auction\<lparr>duration := 7\<rparr>"
    by (rule auction_hash_binding [OF v eq]) (simp add: inj_on_def)
  from arg_cong [OF this, of duration] show False by (simp add: sample_auction_def)
qed

text \<open>The addresses of escrows are derived from distinct byte strings: the seeds, which the
  derivation concatenates, determine the order, the hashlock, the taker and the amount, and an
  escrow's seeds are never those of an order.\<close>

theorem escrow_seeds_unambiguous:
  assumes "length h = 32" "length h' = 32" "length l = 32" "length l' = 32" "length t = 32" "length t' = 32"
  shows "(concat (escrow_seeds h l t a) = concat (escrow_seeds h' l' t' a') \<longleftrightarrow>
      h = h' \<and> l = l' \<and> t = t' \<and> a = a')
    \<and> concat (escrow_seeds h l t a) \<noteq> concat (order_seeds h')"
proof
  show "concat (escrow_seeds h l t a) = concat (escrow_seeds h' l' t' a') \<longleftrightarrow>
      h = h' \<and> l = l' \<and> t = t' \<and> a = a'"
    using assms by (auto simp: escrow_seeds_def to_be_bytes_eq_iff)
  have "length (concat (escrow_seeds h l t a)) = 110" "length (concat (order_seeds h')) = 37"
    using assms by (simp_all add: escrow_seeds_def order_seeds_def ESCROW_SEED_def ORDER_SEED_def ascii_def)
  then show "concat (escrow_seeds h l t a) \<noteq> concat (order_seeds h')" by auto
qed

theorem escrow_seeds_unambiguous_witness:
  "concat (escrow_seeds zero32 zero32 zero32 7) \<noteq> concat (escrow_seeds zero32 zero32 zero32 8)"
  using escrow_seeds_unambiguous [of zero32 zero32 zero32 zero32 zero32 zero32 7 8]
  by (simp add: zero32_def)

end
