(* ===== verification/Whitelist.thy ===== *)
theory Whitelist
  imports Interfaces OrderHash
begin

text \<open>
  \<open>programs/whitelist\<close>: the authority registers and deregisters resolvers.  Each instruction
  is modelled as the checks of its \<open>#[derive(Accounts)]\<close> struct (\<open>..._accounts\<close>, in the order
  Anchor generates them: accounts are loaded, then initialised, then their constraints are
  checked), followed by its handler and by the closing of the accounts declared \<open>close\<close>.
  The locale \<open>registry\<close> is what the escrow programs rely on: access is granted and revoked,
  and nothing else changes it.
\<close>

section \<open>Accounts of the instructions\<close>

record Initialize =
  authority :: pubkey
  whitelist_state :: pubkey
  system_program :: pubkey

record Register =
  authority :: pubkey
  whitelist_state :: pubkey
  resolver_access :: pubkey
  system_program :: pubkey

record Deregister =
  authority :: pubkey
  whitelist_state :: pubkey
  resolver_access :: pubkey
  system_program :: pubkey

record SetAuthority =
  current_authority :: pubkey
  whitelist_state :: pubkey

text \<open>The zeroed accounts \<open>init\<close> leaves behind.\<close>

definition zero_WhitelistState :: WhitelistState where
  "zero_WhitelistState = \<lparr>WhitelistState.authority = zero_key\<rparr>"

definition zero_ResolverAccess :: ResolverAccess where
  "zero_ResolverAccess = \<lparr>ra_bump = 0\<rparr>"

definition Initialize_accounts :: "runtime \<Rightarrow> exec \<Rightarrow> Initialize \<Rightarrow> ledger \<Rightarrow> ledger res" where
  "Initialize_accounts rt x a L =
     bindE (check_signer x (Initialize.authority a)) (\<lambda>_.
     bindE (check_system_program rt (Initialize.system_program a)) (\<lambda>_.
     bindE (find_pda rt [WHITELIST_STATE_SEED] whitelist_ID (Initialize.whitelist_state a)) (\<lambda>bump.
     init_data rt x (Initialize.authority a) (Initialize.whitelist_state a)
       (DISCRIMINATOR_BYTES + WhitelistState_INIT_SPACE) whitelist_ID (WhitelistAcc zero_WhitelistState) L)))"

definition initialize :: "runtime \<Rightarrow> exec \<Rightarrow> Initialize \<Rightarrow> ledger \<Rightarrow> ledger res" where
  "initialize rt x a L =
     bindE (check_entry whitelist_ID x) (\<lambda>_.
     bindE (Initialize_accounts rt x a L) (\<lambda>L1.
     Inr (set_data (Initialize.whitelist_state a)
       (WhitelistAcc \<lparr>WhitelistState.authority = Initialize.authority a\<rparr>) L1)))"

definition Register_accounts ::
  "runtime \<Rightarrow> exec \<Rightarrow> Register \<Rightarrow> pubkey \<Rightarrow> pubkey \<Rightarrow> ledger \<Rightarrow> (ledger \<times> u8) res" where
  "Register_accounts rt x a user client_program L =
     bindE (check_signer x (Register.authority a)) (\<lambda>_.
     bindE (load_WhitelistState L (Register.whitelist_state a)) (\<lambda>ws.
     bindE (check_system_program rt (Register.system_program a)) (\<lambda>_.
     bindE (find_pda rt (resolver_seeds client_program user) whitelist_ID (Register.resolver_access a)) (\<lambda>bump.
     bindE (init_data rt x (Register.authority a) (Register.resolver_access a)
       (DISCRIMINATOR_BYTES + ResolverAccess_INIT_SPACE) whitelist_ID (ResolverAcc zero_ResolverAccess) L) (\<lambda>L1.
     bindE (find_pda rt [WHITELIST_STATE_SEED] whitelist_ID (Register.whitelist_state a)) (\<lambda>_.
     bindE (check_key (WhitelistState.authority ws = Register.authority a) (Whitelist Unauthorized)) (\<lambda>_.
     Inr (L1, bump))))))))"

definition register :: "runtime \<Rightarrow> exec \<Rightarrow> Register \<Rightarrow> pubkey \<Rightarrow> pubkey \<Rightarrow> ledger \<Rightarrow> ledger res" where
  "register rt x a user client L =
     bindE (check_entry whitelist_ID x) (\<lambda>_.
     bindE (Register_accounts rt x a user client L) (\<lambda>(L1, bump).
     Inr (set_data (Register.resolver_access a) (ResolverAcc \<lparr>ra_bump = bump\<rparr>) L1)))"

definition Deregister_accounts ::
  "runtime \<Rightarrow> exec \<Rightarrow> Deregister \<Rightarrow> pubkey \<Rightarrow> pubkey \<Rightarrow> ledger \<Rightarrow> unit res" where
  "Deregister_accounts rt x a user client_program L =
     bindE (check_signer x (Deregister.authority a)) (\<lambda>_.
     bindE (load_WhitelistState L (Deregister.whitelist_state a)) (\<lambda>ws.
     bindE (load_ResolverAccess L (Deregister.resolver_access a)) (\<lambda>ra.
     bindE (check_system_program rt (Deregister.system_program a)) (\<lambda>_.
     bindE (find_pda rt [WHITELIST_STATE_SEED] whitelist_ID (Deregister.whitelist_state a)) (\<lambda>_.
     bindE (check_key (WhitelistState.authority ws = Deregister.authority a) (Whitelist Unauthorized)) (\<lambda>_.
     bindE (check_pda rt (resolver_seeds client_program user) (ra_bump ra) whitelist_ID
       (Deregister.resolver_access a)) (\<lambda>_.
     check_key (Deregister.resolver_access a \<noteq> Deregister.authority a) (Anchor ConstraintClose))))))))"

definition deregister :: "runtime \<Rightarrow> exec \<Rightarrow> Deregister \<Rightarrow> pubkey \<Rightarrow> pubkey \<Rightarrow> ledger \<Rightarrow> ledger res" where
  "deregister rt x a user client L =
     bindE (check_entry whitelist_ID x) (\<lambda>_.
     bindE (Deregister_accounts rt x a user client L) (\<lambda>_.
     close_program_account rt (Deregister.resolver_access a) (Deregister.authority a) L))"

definition SetAuthority_accounts :: "runtime \<Rightarrow> exec \<Rightarrow> SetAuthority \<Rightarrow> ledger \<Rightarrow> WhitelistState res" where
  "SetAuthority_accounts rt x a L =
     bindE (check_signer x (current_authority a)) (\<lambda>_.
     bindE (load_WhitelistState L (SetAuthority.whitelist_state a)) (\<lambda>ws.
     bindE (find_pda rt [WHITELIST_STATE_SEED] whitelist_ID (SetAuthority.whitelist_state a)) (\<lambda>_.
     bindE (check_key (WhitelistState.authority ws = current_authority a) (Whitelist Unauthorized)) (\<lambda>_.
     Inr ws))))"

definition set_authority :: "runtime \<Rightarrow> exec \<Rightarrow> SetAuthority \<Rightarrow> pubkey \<Rightarrow> ledger \<Rightarrow> ledger res" where
  "set_authority rt x a new_authority L =
     bindE (check_entry whitelist_ID x) (\<lambda>_.
     bindE (SetAuthority_accounts rt x a L) (\<lambda>ws.
     Inr (set_data (SetAuthority.whitelist_state a)
       (WhitelistAcc (ws\<lparr>WhitelistState.authority := new_authority\<rparr>)) L)))"

section \<open>Dispatch\<close>

datatype whitelist_ix =
    Initialize_ix Initialize
  | Register_ix Register pubkey pubkey
  | Deregister_ix Deregister pubkey pubkey
  | SetAuthority_ix SetAuthority pubkey

fun whitelist_process :: "runtime \<Rightarrow> exec \<Rightarrow> whitelist_ix \<Rightarrow> ledger \<Rightarrow> ledger res" where
  "whitelist_process rt x (Initialize_ix a) L = initialize rt x a L"
| "whitelist_process rt x (Register_ix a user client) L = register rt x a user client L"
| "whitelist_process rt x (Deregister_ix a user client) L = deregister rt x a user client L"
| "whitelist_process rt x (SetAuthority_ix a new_authority) L = set_authority rt x a new_authority L"

section \<open>Effects\<close>

definition whitelist_address :: "runtime \<Rightarrow> pubkey" where
  "whitelist_address rt = fst (find_program_address rt [WHITELIST_STATE_SEED] whitelist_ID)"

lemma find_pda_whitelist:
  "find_program_address rt [WHITELIST_STATE_SEED] whitelist_ID = (k, b) \<Longrightarrow> k = whitelist_address rt"
  by (simp add: whitelist_address_def)

lemma initialize_effect:
  assumes ok: "runtime_ok rt" and r: "initialize rt x a L = Inr L'"
  shows "Initialize.authority a \<in> set (signers x)" "Initialize.whitelist_state a = whitelist_address rt"
    and "no_data L (whitelist_address rt)"
    and "prog L' = (prog L)(whitelist_address rt \<mapsto> WhitelistAcc \<lparr>WhitelistState.authority = Initialize.authority a\<rparr>)"
    and "tok L' = tok L" "mints L' = mints L"
    and "conserved {Initialize.authority a, Initialize.whitelist_state a} (lamports L) (lamports L')"
proof -
  from r obtain b L1 where s: "Initialize.authority a \<in> set (signers x)" and
    f: "find_program_address rt [WHITELIST_STATE_SEED] whitelist_ID = (Initialize.whitelist_state a, b)" and
    i: "init_data rt x (Initialize.authority a) (Initialize.whitelist_state a)
       (DISCRIMINATOR_BYTES + WhitelistState_INIT_SPACE) whitelist_ID (WhitelistAcc zero_WhitelistState) L = Inr L1" and
    L': "L' = set_data (Initialize.whitelist_state a) (WhitelistAcc \<lparr>WhitelistState.authority = Initialize.authority a\<rparr>) L1"
    by (auto simp: initialize_def Initialize_accounts_def res_simps)
  note e = init_data_effect [OF ok i]
  have k: "Initialize.whitelist_state a = whitelist_address rt" by (rule find_pda_whitelist [OF f])
  have l: "lamports L' = lamports L1" by (rule lamports_cong) (simp add: L')
  show "Initialize.authority a \<in> set (signers x)" by (rule s)
  show "Initialize.whitelist_state a = whitelist_address rt" by (rule k)
  show "no_data L (whitelist_address rt)"
    "prog L' = (prog L)(whitelist_address rt \<mapsto> WhitelistAcc \<lparr>WhitelistState.authority = Initialize.authority a\<rparr>)"
    "tok L' = tok L" "mints L' = mints L" using e k by (simp_all add: L')
  show "conserved {Initialize.authority a, Initialize.whitelist_state a} (lamports L) (lamports L')"
    unfolding l by (rule shifted_conserved [OF e(5)]) simp_all
qed

lemma register_effect:
  assumes ok: "runtime_ok rt" and r: "register rt x a user client L = Inr L'"
  shows "Register.authority a \<in> set (signers x)"
    and "prog L (whitelist_address rt) = Some (WhitelistAcc \<lparr>WhitelistState.authority = Register.authority a\<rparr>)"
    and "no_data L (Register.resolver_access a)"
    and "prog L' = (prog L)(Register.resolver_access a \<mapsto>
      ResolverAcc \<lparr>ra_bump = snd (find_program_address rt (resolver_seeds client user) whitelist_ID)\<rparr>)"
    and "Register.resolver_access a = fst (find_program_address rt (resolver_seeds client user) whitelist_ID)"
    and "tok L' = tok L" "mints L' = mints L"
    and "conserved {Register.authority a, Register.resolver_access a} (lamports L) (lamports L')"
proof -
  from r obtain ws b b' L1 where s: "Register.authority a \<in> set (signers x)" and
    w: "prog L (Register.whitelist_state a) = Some (WhitelistAcc ws)" "WhitelistState.authority ws = Register.authority a" and
    f: "find_program_address rt (resolver_seeds client user) whitelist_ID = (Register.resolver_access a, b)"
      "find_program_address rt [WHITELIST_STATE_SEED] whitelist_ID = (Register.whitelist_state a, b')" and
    i: "init_data rt x (Register.authority a) (Register.resolver_access a)
       (DISCRIMINATOR_BYTES + ResolverAccess_INIT_SPACE) whitelist_ID (ResolverAcc zero_ResolverAccess) L = Inr L1" and
    L': "L' = set_data (Register.resolver_access a) (ResolverAcc \<lparr>ra_bump = b\<rparr>) L1"
    by (auto simp: register_def Register_accounts_def res_simps)
  note e = init_data_effect [OF ok i]
  have l: "lamports L' = lamports L1" by (rule lamports_cong) (simp add: L')
  have "ws = \<lparr>WhitelistState.authority = Register.authority a\<rparr>" using w by simp
  with w find_pda_whitelist [OF f(2)]
  show "prog L (whitelist_address rt) = Some (WhitelistAcc \<lparr>WhitelistState.authority = Register.authority a\<rparr>)"
    by simp
  show "Register.authority a \<in> set (signers x)" by (rule s)
  show "no_data L (Register.resolver_access a)"
    "prog L' = (prog L)(Register.resolver_access a \<mapsto>
      ResolverAcc \<lparr>ra_bump = snd (find_program_address rt (resolver_seeds client user) whitelist_ID)\<rparr>)"
    "Register.resolver_access a = fst (find_program_address rt (resolver_seeds client user) whitelist_ID)"
    "tok L' = tok L" "mints L' = mints L" using e f(1) by (simp_all add: L')
  show "conserved {Register.authority a, Register.resolver_access a} (lamports L) (lamports L')"
    unfolding l by (rule shifted_conserved [OF e(5)]) simp_all
qed

lemma deregister_effect:
  assumes ok: "runtime_ok rt" and r: "deregister rt x a user client L = Inr L'"
  shows "Deregister.authority a \<in> set (signers x)"
    and "prog L (whitelist_address rt) = Some (WhitelistAcc \<lparr>WhitelistState.authority = Deregister.authority a\<rparr>)"
    and "\<exists>ra. prog L (Deregister.resolver_access a) = Some (ResolverAcc ra)
      \<and> create_program_address rt (resolver_seeds client user @ [[ra_bump ra]]) whitelist_ID
        = Some (Deregister.resolver_access a)"
    and "prog L' = (prog L)(Deregister.resolver_access a := None)"
    and "tok L' = tok L" "mints L' = mints L"
    and "conserved {Deregister.authority a, Deregister.resolver_access a} (lamports L) (lamports L')"
proof -
  from r obtain ws ra b' where s: "Deregister.authority a \<in> set (signers x)" and
    w: "prog L (Deregister.whitelist_state a) = Some (WhitelistAcc ws)" "WhitelistState.authority ws = Deregister.authority a" and
    p: "prog L (Deregister.resolver_access a) = Some (ResolverAcc ra)"
      "create_program_address rt (resolver_seeds client user @ [[ra_bump ra]]) whitelist_ID
        = Some (Deregister.resolver_access a)" and
    f: "find_program_address rt [WHITELIST_STATE_SEED] whitelist_ID = (Deregister.whitelist_state a, b')" and
    c: "close_program_account rt (Deregister.resolver_access a) (Deregister.authority a) L = Inr L'"
    by (auto simp: deregister_def Deregister_accounts_def res_simps)
  note e = close_program_account_effect [OF runtime_okD(7) [OF ok c]]
  have "ws = \<lparr>WhitelistState.authority = Deregister.authority a\<rparr>" using w by simp
  with w find_pda_whitelist [OF f]
  show "prog L (whitelist_address rt) = Some (WhitelistAcc \<lparr>WhitelistState.authority = Deregister.authority a\<rparr>)"
    by simp
  show "Deregister.authority a \<in> set (signers x)" by (rule s)
  show "\<exists>ra. prog L (Deregister.resolver_access a) = Some (ResolverAcc ra)
      \<and> create_program_address rt (resolver_seeds client user @ [[ra_bump ra]]) whitelist_ID
        = Some (Deregister.resolver_access a)" using p by blast
  show "prog L' = (prog L)(Deregister.resolver_access a := None)" "tok L' = tok L" "mints L' = mints L"
    using e by simp_all
  show "conserved {Deregister.authority a, Deregister.resolver_access a} (lamports L) (lamports L')"
    by (rule shifted_conserved [OF e(2)]) simp_all
qed

lemma set_authority_effect:
  assumes r: "set_authority rt x a new L = Inr L'"
  shows "current_authority a \<in> set (signers x)"
    and "prog L (whitelist_address rt) = Some (WhitelistAcc \<lparr>WhitelistState.authority = current_authority a\<rparr>)"
    and "prog L' = (prog L)(whitelist_address rt \<mapsto> WhitelistAcc \<lparr>WhitelistState.authority = new\<rparr>)"
    and "tok L' = tok L" "mints L' = mints L" "lam L' = lam L"
proof -
  from r obtain ws b where s: "current_authority a \<in> set (signers x)" and
    w: "prog L (SetAuthority.whitelist_state a) = Some (WhitelistAcc ws)" "WhitelistState.authority ws = current_authority a" and
    f: "find_program_address rt [WHITELIST_STATE_SEED] whitelist_ID = (SetAuthority.whitelist_state a, b)" and
    L': "L' = set_data (SetAuthority.whitelist_state a) (WhitelistAcc (ws\<lparr>WhitelistState.authority := new\<rparr>)) L"
    by (auto simp: set_authority_def SetAuthority_accounts_def res_simps)
  have "ws = \<lparr>WhitelistState.authority = current_authority a\<rparr>" using w by simp
  with s w find_pda_whitelist [OF f]
  show "current_authority a \<in> set (signers x)"
    "prog L (whitelist_address rt) = Some (WhitelistAcc \<lparr>WhitelistState.authority = current_authority a\<rparr>)"
    "prog L' = (prog L)(whitelist_address rt \<mapsto> WhitelistAcc \<lparr>WhitelistState.authority = new\<rparr>)"
    "tok L' = tok L" "mints L' = mints L" "lam L' = lam L" by (simp_all add: L')
qed

section \<open>The whitelist as seen from outside\<close>

text \<open>The abstract whitelist: its authority, once there is one, and the accounts that grant
  access.  A step names who asks for it; who signs is given.\<close>

record whitelist_view =
  wv_authority :: "pubkey option"
  wv_members :: "pubkey set"

datatype whitelist_op =
    Open pubkey
  | Admit pubkey pubkey
  | Dismiss pubkey pubkey
  | HandOver pubkey pubkey

fun whitelist_step :: "pubkey set \<Rightarrow> whitelist_op \<Rightarrow> whitelist_view \<Rightarrow> whitelist_view option" where
  "whitelist_step S (Open who) v =
     (if who \<in> S \<and> wv_authority v = None then Some (v\<lparr>wv_authority := Some who\<rparr>) else None)"
| "whitelist_step S (Admit who k) v =
     (if who \<in> S \<and> wv_authority v = Some who \<and> k \<notin> wv_members v
      then Some (v\<lparr>wv_members := insert k (wv_members v)\<rparr>) else None)"
| "whitelist_step S (Dismiss who k) v =
     (if who \<in> S \<and> wv_authority v = Some who \<and> k \<in> wv_members v
      then Some (v\<lparr>wv_members := wv_members v - {k}\<rparr>) else None)"
| "whitelist_step S (HandOver who next) v =
     (if who \<in> S \<and> wv_authority v = Some who then Some (v\<lparr>wv_authority := Some next\<rparr>) else None)"

fun whitelist_op_of :: "whitelist_ix \<Rightarrow> whitelist_op" where
  "whitelist_op_of (Initialize_ix a) = Open (Initialize.authority a)"
| "whitelist_op_of (Register_ix a user client) = Admit (Register.authority a) (Register.resolver_access a)"
| "whitelist_op_of (Deregister_ix a user client) =
     Dismiss (Deregister.authority a) (Deregister.resolver_access a)"
| "whitelist_op_of (SetAuthority_ix a new) = HandOver (current_authority a) new"

definition is_member :: "ledger \<Rightarrow> pubkey \<Rightarrow> bool" where
  "is_member L k \<longleftrightarrow> (\<exists>d. prog L k = Some (ResolverAcc d))"

definition whitelist_view_of :: "runtime \<Rightarrow> ledger \<Rightarrow> whitelist_view" where
  "whitelist_view_of rt L =
     \<lparr>wv_authority = (case prog L (whitelist_address rt) of
          Some (WhitelistAcc w) \<Rightarrow> Some (WhitelistState.authority w) | _ \<Rightarrow> None),
      wv_members = Collect (is_member L)\<rparr>"

text \<open>C26: The whitelist program implements the abstract whitelist: every instruction that
  succeeds is the corresponding abstract step, with its guards.  So the authority is set
  once, only the authority admits, dismisses and hands over, and only with its signature.\<close>

theorem whitelist_refines:
  assumes "runtime_ok rt" "whitelist_process rt x ix L = Inr L'"
  shows "whitelist_step (set (signers x)) (whitelist_op_of ix) (whitelist_view_of rt L)
    = Some (whitelist_view_of rt L')"
proof (cases ix)
  case (Initialize_ix a)
  with assms(2) have "initialize rt x a L = Inr L'" by simp
  note e = initialize_effect [OF assms(1) this]
  have "Collect (is_member L') = Collect (is_member L)"
    using e(3) by (auto simp: is_member_def e(4) no_data_def split: if_splits)
  with e Initialize_ix show ?thesis by (simp add: whitelist_view_of_def no_data_def)
next
  case (Register_ix a user client)
  with assms(2) have "register rt x a user client L = Inr L'" by simp
  note e = register_effect [OF assms(1) this]
  have "Collect (is_member L') = insert (Register.resolver_access a) (Collect (is_member L))"
    "\<not> is_member L (Register.resolver_access a)" "Register.resolver_access a \<noteq> whitelist_address rt"
    using e(2,3) by (auto simp: is_member_def e(4) no_data_def)
  with e Register_ix show ?thesis by (simp add: whitelist_view_of_def)
next
  case (Deregister_ix a user client)
  with assms(2) have "deregister rt x a user client L = Inr L'" by simp
  note e = deregister_effect [OF assms(1) this]
  have "Collect (is_member L') = Collect (is_member L) - {Deregister.resolver_access a}"
    "is_member L (Deregister.resolver_access a)" "Deregister.resolver_access a \<noteq> whitelist_address rt"
    using e(2,3) by (auto simp: is_member_def e(4) split: if_splits)
  with e Deregister_ix show ?thesis by (simp add: whitelist_view_of_def)
next
  case (SetAuthority_ix a new)
  with assms(2) have "set_authority rt x a new L = Inr L'" by simp
  note e = set_authority_effect [OF this]
  have "Collect (is_member L') = Collect (is_member L)"
    using e(2) by (auto simp: is_member_def e(3) split: if_splits)
  with e SetAuthority_ix show ?thesis by (simp add: whitelist_view_of_def)
qed

section \<open>The registry of resolvers\<close>

definition granted :: "runtime \<Rightarrow> pubkey \<Rightarrow> ledger \<Rightarrow> ledger \<Rightarrow> bool" where
  "granted rt k L L' \<longleftrightarrow> runtime_ok rt \<and>
     (\<exists>x a user client. register rt x a user client L = Inr L' \<and> Register.resolver_access a = k)"

definition revoked :: "runtime \<Rightarrow> pubkey \<Rightarrow> ledger \<Rightarrow> ledger \<Rightarrow> bool" where
  "revoked rt k L L' \<longleftrightarrow> runtime_ok rt \<and>
     (\<exists>x a user client. deregister rt x a user client L = Inr L' \<and> Deregister.resolver_access a = k)"

interpretation resolvers: registry is_member "granted rt" "revoked rt" for rt
proof unfold_locales
  fix k j L L'
  assume "granted rt k L L'"
  then obtain x a user client where ok: "runtime_ok rt" and r: "register rt x a user client L = Inr L'" and
    k: "Register.resolver_access a = k" by (auto simp: granted_def)
  note e = register_effect [OF ok r]
  show "\<not> is_member L k" using e(3) k by (simp add: is_member_def no_data_def)
  show "is_member L' j \<longleftrightarrow> j = k \<or> is_member L j" using e(4) k by (auto simp: is_member_def)
next
  fix k j L L'
  assume "revoked rt k L L'"
  then obtain x a user client where ok: "runtime_ok rt" and r: "deregister rt x a user client L = Inr L'" and
    k: "Deregister.resolver_access a = k" by (auto simp: revoked_def)
  note e = deregister_effect [OF ok r]
  show "is_member L k" using e(3) k by (auto simp: is_member_def)
  show "is_member L' j \<longleftrightarrow> j \<noteq> k \<and> is_member L j" using e(4) k by (auto simp: is_member_def)
qed

text \<open>C27: After any sequence of registrations and deregistrations, a resolver account exists
  exactly when the last operation on it registered it, or there was none and it existed.\<close>

theorem resolver_access_follows_history:
  assumes "trace (granted rt) (revoked rt) L ops L'"
  shows "is_member L' k = held (is_member L k) ops k"
  using assms by (rule resolvers.trace_mem)

section \<open>Examples\<close>

definition demo_whitelist_ledger :: ledger where
  "demo_whitelist_ledger = \<lparr>lam = (\<lambda>k. 1000), tok = (\<lambda>k. None), mints = (\<lambda>k. None),
     prog = [WHITELIST_STATE_SEED \<mapsto> WhitelistAcc \<lparr>WhitelistState.authority = [11]\<rparr>]\<rparr>"

definition demo_register :: Register where
  "demo_register = \<lparr>Register.authority = [11], Register.whitelist_state = WHITELIST_STATE_SEED,
     Register.resolver_access = [21, 22], Register.system_program = [0]\<rparr>"

definition demo_whitelist_exec :: exec where
  "demo_whitelist_exec = \<lparr>program_id = whitelist_ID, signers = [[11]], unix_timestamp = 0\<rparr>"

lemma demo_register_runs:
  "\<exists>L'. register demo_runtime demo_whitelist_exec demo_register [22] [21] demo_whitelist_ledger = Inr L'
    \<and> is_member L' [21, 22]"
  by (simp add: register_def Register_accounts_def demo_register_def demo_whitelist_exec_def
      demo_whitelist_ledger_def check_entry_def check_signer_def load_WhitelistState_def
      check_system_program_def find_pda_def check_key_def resolver_seeds_def init_data_def
      effect_defs WHITELIST_STATE_SEED_def ascii_def is_member_def)

theorem whitelist_refines_witness:
  "\<exists>L'. whitelist_step {[11]} (Admit [11] [21, 22]) (whitelist_view_of demo_runtime demo_whitelist_ledger)
    = Some (whitelist_view_of demo_runtime L') \<and> [21, 22] \<in> wv_members (whitelist_view_of demo_runtime L')"
proof -
  obtain L' where "register demo_runtime demo_whitelist_exec demo_register [22] [21] demo_whitelist_ledger = Inr L'"
    and m: "is_member L' [21, 22]" using demo_register_runs by blast
  then have "whitelist_process demo_runtime demo_whitelist_exec (Register_ix demo_register [22] [21])
    demo_whitelist_ledger = Inr L'" by simp
  from whitelist_refines [OF demo_runtime_ok this] m show ?thesis
    by (intro exI [where x = L']) (simp add: demo_whitelist_exec_def demo_register_def whitelist_view_of_def)
qed

theorem resolver_access_follows_history_witness:
  "\<exists>L'. trace (granted demo_runtime) (revoked demo_runtime) demo_whitelist_ledger [Grant [21, 22]] L'
    \<and> is_member L' [21, 22]"
proof -
  obtain L' where "register demo_runtime demo_whitelist_exec demo_register [22] [21] demo_whitelist_ledger = Inr L'"
    using demo_register_runs by blast
  moreover have "Register.resolver_access demo_register = [21, 22]" by (simp add: demo_register_def)
  ultimately have "granted demo_runtime [21, 22] demo_whitelist_ledger L'"
    unfolding granted_def using demo_runtime_ok by blast
  then have t: "trace (granted demo_runtime) (revoked demo_runtime) demo_whitelist_ledger [Grant [21, 22]] L'"
    by simp
  from resolver_access_follows_history [OF t, of "[21, 22]"] t show ?thesis by auto
qed

end
