(* ===== verification/CommonEscrow.thy ===== *)
theory CommonEscrow
  imports Balances
begin

text \<open>
  \<open>common/src/escrow.rs\<close>: the transfers, payouts and the rescue both escrow programs use.
  A loaded token account or mint is passed as its key and the copy deserialised when the
  instruction started, as Anchor does: \<open>escrow_ata.amount\<close> is the amount of that copy.
  The lemmas state what a successful run delivers, and that it neither creates nor loses
  lamports or tokens.
\<close>

section \<open>Transfers\<close>

datatype UniTransferParams =
    NativeTransfer (nt_from: pubkey) (nt_to: pubkey) (nt_amount: u64) (nt_program: pubkey)
  | TokenTransfer (tt_from: pubkey) (tt_authority: pubkey) (tt_to: pubkey) (tt_mint: mint_ref)
      (tt_amount: u64) (tt_program: pubkey)

fun uni_transfer ::
  "runtime \<Rightarrow> exec \<Rightarrow> UniTransferParams \<Rightarrow> bytes list list option \<Rightarrow> ledger \<Rightarrow> ledger res" where
  "uni_transfer rt x (NativeTransfer src dest amount program) signer_seeds L =
     (if amount = 0 then Inr L
      else system_transfer rt (cpi_signers rt x signer_seeds) src dest amount L)"
| "uni_transfer rt x (TokenTransfer src auth dest mint amount program) signer_seeds L =
     (if amount = 0 then Inr L
      else transfer_checked rt (cpi_signers rt x signer_seeds) program src (fst mint) dest auth amount
             (m_decimals (snd mint)) L)"

definition withdraw_and_close_token_ata ::
  "runtime \<Rightarrow> exec \<Rightarrow> token_ref \<Rightarrow> pubkey \<Rightarrow> pubkey \<Rightarrow> mint_ref \<Rightarrow> pubkey \<Rightarrow> pubkey \<Rightarrow> bytes list
    \<Rightarrow> ledger \<Rightarrow> ledger res" where
  "withdraw_and_close_token_ata rt x escrow_ata auth dest mint token_program rent_recipient seeds L =
     bindE (uni_transfer rt x
       (TokenTransfer (fst escrow_ata) auth dest mint (ta_amount (snd escrow_ata)) token_program)
       (Some [seeds]) L) (\<lambda>L1.
     close_token_account rt (cpi_signers rt x (Some [seeds])) token_program (fst escrow_ata)
       rent_recipient auth L1)"

section \<open>Payout\<close>

definition process_payout ::
  "runtime \<Rightarrow> exec \<Rightarrow> mint_ref \<Rightarrow> bool \<Rightarrow> u64 \<Rightarrow> pubkey \<Rightarrow> token_ref \<Rightarrow> pubkey \<Rightarrow> token_ref option
    \<Rightarrow> pubkey \<Rightarrow> bytes list \<Rightarrow> pubkey \<Rightarrow> ledger \<Rightarrow> ledger res" where
  "process_payout rt x mint asset_is_native escrow_amount escrow escrow_ata recipient recipient_ata
      rent_recipient seeds token_program L =
     (if asset_is_native then
        bindE (close_token_account rt (cpi_signers rt x (Some [seeds])) token_program (fst escrow_ata)
          escrow escrow L) (\<lambda>L1.
        bindE (sub_lamports rt escrow escrow_amount L1) (\<lambda>L2.
        add_lamports rt recipient escrow_amount L2))
      else
        bindE (ok_or recipient_ata (Escrow MissingRecipientAta)) (\<lambda>rata.
        withdraw_and_close_token_ata rt x escrow_ata escrow (fst rata) mint token_program rent_recipient
          seeds L))"

section \<open>Rescue\<close>

definition rescue_funds ::
  "runtime \<Rightarrow> exec \<Rightarrow> pubkey \<Rightarrow> u32 option \<Rightarrow> token_ref \<Rightarrow> pubkey \<Rightarrow> token_ref \<Rightarrow> mint_ref \<Rightarrow> pubkey
    \<Rightarrow> u64 \<Rightarrow> bytes list \<Rightarrow> ledger \<Rightarrow> ledger res" where
  "rescue_funds rt x escrow start_opt escrow_ata recipient recipient_ata mint token_program
      rescue_amount seeds L =
     require (case start_opt of None \<Rightarrow> True | Some start \<Rightarrow> now x \<ge> start) (Escrow InvalidRescueStart)
     (bindE (uni_transfer rt x
        (TokenTransfer (fst escrow_ata) escrow (fst recipient_ata) mint rescue_amount token_program)
        (Some [seeds]) L) (\<lambda>L1.
      if rescue_amount = ta_amount (snd escrow_ata) then
        close_token_account rt (cpi_signers rt x (Some [seeds])) token_program (fst escrow_ata) recipient
          escrow L1
      else Inr L1))"

text \<open>The safety deposit, paid out by both \<open>utils.rs\<close> after a payout.\<close>

definition pay_safety_deposit :: "runtime \<Rightarrow> pubkey \<Rightarrow> pubkey \<Rightarrow> pubkey \<Rightarrow> u64 \<Rightarrow> ledger \<Rightarrow> ledger res" where
  "pay_safety_deposit rt escrow rent_recipient safety_deposit_recipient safety_deposit L =
     (if rent_recipient \<noteq> safety_deposit_recipient then
        bindE (sub_lamports rt escrow safety_deposit L) (\<lambda>L1.
        add_lamports rt safety_deposit_recipient safety_deposit L1)
      else Inr L)"


section \<open>Effects\<close>

text \<open>The lamports that back the balance of a token account of wrapped SOL.\<close>

definition native_part :: "TokenAccount \<Rightarrow> u64 \<Rightarrow> nat" where
  "native_part t a = (if ta_native t = None then 0 else unat a)"

lemma native_part_0 [simp]: "native_part t 0 = 0"
  by (simp add: native_part_def)

lemma token_transfer_effect:
  assumes ok: "runtime_ok rt" and r: "uni_transfer rt x (TokenTransfer f au t m a p) ss L = Inr L'"
  shows "shifted f t (unat a) (tokens L) (tokens L')" "statics L' = statics L"
    and "mints L' = mints L" "prog L' = prog L"
    and "a \<noteq> 0 \<Longrightarrow> au \<in> set (cpi_signers rt x ss)"
    and "a \<noteq> 0 \<Longrightarrow> tok L t \<noteq> None"
    and "tok L f = Some ta \<Longrightarrow> shifted f t (native_part ta a) (lamports L) (lamports L')"
proof -
  have "shifted f t (unat a) (tokens L) (tokens L') \<and> statics L' = statics L \<and> mints L' = mints L
    \<and> prog L' = prog L \<and> (a \<noteq> 0 \<longrightarrow> au \<in> set (cpi_signers rt x ss) \<and> tok L t \<noteq> None)
    \<and> (tok L f = Some ta \<longrightarrow> shifted f t (native_part ta a) (lamports L) (lamports L'))"
  proof (cases "a = 0")
    case True
    with r show ?thesis by simp
  next
    case False
    with r have "transfer_checked rt (cpi_signers rt x ss) p f (fst m) t au a (m_decimals (snd m)) L = Inr L'"
      by simp
    note e = transfer_checked_effect [OF runtime_okD(2) [OF ok this]]
    from e(6) have "tok L t \<noteq> None"
      "tok L f = Some ta \<longrightarrow> shifted f t (native_part ta a) (lamports L) (lamports L')"
      by (auto simp: native_part_def)
    with e show ?thesis by blast
  qed
  then show "shifted f t (unat a) (tokens L) (tokens L')" "statics L' = statics L"
    "mints L' = mints L" "prog L' = prog L" "a \<noteq> 0 \<Longrightarrow> au \<in> set (cpi_signers rt x ss)"
    "a \<noteq> 0 \<Longrightarrow> tok L t \<noteq> None"
    "tok L f = Some ta \<Longrightarrow> shifted f t (native_part ta a) (lamports L) (lamports L')" by blast+
qed

lemma native_transfer_effect:
  assumes ok: "runtime_ok rt" and r: "uni_transfer rt x (NativeTransfer f t a p) ss L = Inr L'"
  shows "shifted f t (unat a) (lamports L) (lamports L')"
    and "tok L' = tok L" "mints L' = mints L" "prog L' = prog L"
    and "a \<noteq> 0 \<Longrightarrow> f \<in> set (cpi_signers rt x ss) \<and> no_data L f"
proof -
  have "shifted f t (unat a) (lamports L) (lamports L') \<and> tok L' = tok L \<and> mints L' = mints L
    \<and> prog L' = prog L \<and> (a \<noteq> 0 \<longrightarrow> f \<in> set (cpi_signers rt x ss) \<and> no_data L f)"
  proof (cases "a = 0")
    case True
    with r show ?thesis by simp
  next
    case False
    with r have "system_transfer rt (cpi_signers rt x ss) f t a L = Inr L'" by simp
    from system_transfer_effect [OF runtime_okD(1) [OF ok this]] show ?thesis by simp
  qed
  then show "shifted f t (unat a) (lamports L) (lamports L')" "tok L' = tok L" "mints L' = mints L"
    "prog L' = prog L" "a \<noteq> 0 \<Longrightarrow> f \<in> set (cpi_signers rt x ss) \<and> no_data L f" by blast+
qed

lemma dom_statics: "dom (statics L) = dom (tok L)"
  by (auto simp: statics_def dom_def)

lemma statics_dom: "statics L' = statics L \<Longrightarrow> dom (tok L') = dom (tok L)"
  by (simp flip: dom_statics)

lemma statics_SomeD: "statics L' = statics L \<Longrightarrow> tok L k = Some t \<Longrightarrow>
    \<exists>t'. tok L' k = Some t' \<and> ta_native t' = ta_native t \<and> ta_owner t' = ta_owner t"
  by (drule fun_cong [where x = k]) (auto simp: statics_def static_def split: option.splits)

lemma tokens_SomeI: "tok L k = Some t \<Longrightarrow> tokens L k = unat (ta_amount t)"
  by (simp add: tokens_def)

text \<open>The tokens of the escrow's account are delivered in full, and the account is gone.\<close>

lemma withdraw_and_close_effect:
  assumes ok: "runtime_ok rt"
    and r: "withdraw_and_close_token_ata rt x ea au dest m p rr seeds L = Inr L'"
    and ea: "tok L (fst ea) = Some (snd ea)" and ne: "fst ea \<noteq> dest"
  shows "mints L' = mints L" "prog L' = prog L" "rr \<noteq> fst ea"
    and "statics L' = (statics L)(fst ea := None)"
    and "tokens L' = settle (tokens L) [fst ea] [(dest, tokens L (fst ea))]"
    and "\<exists>L1. shifted (fst ea) dest (native_part (snd ea) (ta_amount (snd ea))) (lamports L) (lamports L1)
      \<and> shifted (fst ea) rr (lamports L1 (fst ea)) (lamports L1) (lamports L')"
    and "au \<in> set (cpi_signers rt x (Some [seeds]))"
proof -
  from r obtain L1 where
    t: "uni_transfer rt x (TokenTransfer (fst ea) au dest m (ta_amount (snd ea)) p) (Some [seeds]) L = Inr L1" and
    c: "close_token_account rt (cpi_signers rt x (Some [seeds])) p (fst ea) rr au L1 = Inr L'"
    by (auto simp: withdraw_and_close_token_ata_def res_simps)
  note et = token_transfer_effect [OF ok t]
  note ec = close_token_account_effect [OF runtime_okD(3) [OF ok c]]
  show "mints L' = mints L" "prog L' = prog L" "rr \<noteq> fst ea" using et ec by simp_all
  show "statics L' = (statics L)(fst ea := None)"
    using ec(5) et(2) [symmetric] by (simp add: statics_def fun_eq_iff)
  have "tokens L' = (tokens L1)(fst ea := 0)" using ec(5) by (simp add: tokens_def fun_eq_iff)
  moreover have "tokens L1 = (tokens L)(fst ea := 0, dest := tokens L dest + tokens L (fst ea))"
    using et(1) ne tokens_SomeI [OF ea] by (simp add: shifted_def)
  ultimately show "tokens L' = settle (tokens L) [fst ea] [(dest, tokens L (fst ea))]"
    using ne by (simp add: settle_def fun_eq_iff)
  show "\<exists>L1. shifted (fst ea) dest (native_part (snd ea) (ta_amount (snd ea))) (lamports L) (lamports L1)
      \<and> shifted (fst ea) rr (lamports L1 (fst ea)) (lamports L1) (lamports L')"
    using et(7) [OF ea] ec(4) by blast
  show "au \<in> set (cpi_signers rt x (Some [seeds]))" by (rule ec(1))
qed

lemma pay_safety_deposit_effect:
  assumes ok: "runtime_ok rt" and r: "pay_safety_deposit rt es rr sdr sd L = Inr L'"
  shows "shifted es sdr (if rr = sdr then 0 else unat sd) (lamports L) (lamports L')"
    and "tok L' = tok L" "mints L' = mints L" "prog L' = prog L"
proof -
  have "shifted es sdr (if rr = sdr then 0 else unat sd) (lamports L) (lamports L')
    \<and> tok L' = tok L \<and> mints L' = mints L \<and> prog L' = prog L"
  proof (cases "rr = sdr")
    case True
    with r show ?thesis by (simp add: pay_safety_deposit_def)
  next
    case False
    with r obtain L1 where 1: "sub_lamports rt es sd L = Inr L1" "add_lamports rt sdr sd L1 = Inr L'"
      by (auto simp: pay_safety_deposit_def res_simps)
    from sub_add_lamports_effect [OF runtime_okD(8) [OF ok 1(1)] runtime_okD(9) [OF ok 1(2)]] False
    show ?thesis by simp
  qed
  then show "shifted es sdr (if rr = sdr then 0 else unat sd) (lamports L) (lamports L')"
    "tok L' = tok L" "mints L' = mints L" "prog L' = prog L" by blast+
qed

text \<open>A payout followed by the deposit and the closing of the escrow account: the whole of what
  \<open>withdraw\<close>, \<open>cancel\<close> and their public forms do once their checks have passed.\<close>

definition payout_and_close ::
  "runtime \<Rightarrow> exec \<Rightarrow> mint_ref \<Rightarrow> bool \<Rightarrow> u64 \<Rightarrow> pubkey \<Rightarrow> token_ref \<Rightarrow> pubkey \<Rightarrow> token_ref option
    \<Rightarrow> pubkey \<Rightarrow> bytes list \<Rightarrow> pubkey \<Rightarrow> pubkey \<Rightarrow> u64 \<Rightarrow> ledger \<Rightarrow> ledger res" where
  "payout_and_close rt x mint native amt es ea recipient rata rr seeds p sdr sd L =
     bindE (process_payout rt x mint native amt es ea recipient rata rr seeds p L) (\<lambda>L1.
     bindE (pay_safety_deposit rt es rr sdr sd L1) (\<lambda>L2.
     close_program_account rt es rr L2))"

definition payout_dest :: "bool \<Rightarrow> pubkey \<Rightarrow> token_ref option \<Rightarrow> pubkey" where
  "payout_dest native recipient rata = (if native then recipient else fst (the rata))"

definition payout_lamports :: "bool \<Rightarrow> u64 \<Rightarrow> token_ref \<Rightarrow> nat" where
  "payout_lamports native amt ea = (if native then unat amt else native_part (snd ea) (ta_amount (snd ea)))"

lemma process_payout_native_effect:
  assumes ok: "runtime_ok rt"
    and r: "process_payout rt x m True amt es ea recipient rata rr seeds p L = Inr L'"
  shows "mints L' = mints L" "prog L' = prog L" "es \<noteq> fst ea" "tok L' = (tok L)(fst ea := None)"
    and "es \<in> set (cpi_signers rt x (Some [seeds]))"
    and "\<exists>L1. shifted (fst ea) es (lamports L (fst ea)) (lamports L) (lamports L1)
      \<and> shifted es recipient (unat amt) (lamports L1) (lamports L')"
proof -
  from r obtain L1 L2 where c: "close_token_account rt (cpi_signers rt x (Some [seeds])) p (fst ea) es es L = Inr L1"
    and s: "sub_lamports rt es amt L1 = Inr L2" "add_lamports rt recipient amt L2 = Inr L'"
    by (auto simp: process_payout_def res_simps)
  note ec = close_token_account_effect [OF runtime_okD(3) [OF ok c]]
  note es = sub_add_lamports_effect [OF runtime_okD(8) [OF ok s(1)] runtime_okD(9) [OF ok s(2)]]
  show "mints L' = mints L" "prog L' = prog L" "es \<noteq> fst ea" "tok L' = (tok L)(fst ea := None)"
    and "es \<in> set (cpi_signers rt x (Some [seeds]))" using ec es by simp_all
  show "\<exists>L1. shifted (fst ea) es (lamports L (fst ea)) (lamports L) (lamports L1)
      \<and> shifted es recipient (unat amt) (lamports L1) (lamports L')" using ec(4) es(1) by blast
qed

lemma process_payout_settle:
  assumes ok: "runtime_ok rt"
    and p: "process_payout rt x m native amt es ea recipient rata rr seeds p L = Inr L1"
    and d: "shifted es sdr dep (lamports L1) b3" and c: "shifted es rr (b3 es) b3 b4"
    and ea: "tok L (fst ea) = Some (snd ea)"
    and n: "es \<noteq> fst ea" "es \<noteq> payout_dest native recipient rata" "es \<noteq> sdr" "rr \<noteq> es"
    and nd: "\<not> native \<Longrightarrow> fst ea \<noteq> payout_dest native recipient rata"
  shows "mints L1 = mints L \<and> prog L1 = prog L \<and> statics L1 = (statics L)(fst ea := None)
    \<and> (native \<or> rata \<noteq> None) \<and> es \<in> set (cpi_signers rt x (Some [seeds]))
    \<and> tokens L1 = settle (tokens L) [fst ea]
        (if native then [] else [(payout_dest native recipient rata, tokens L (fst ea))])
    \<and> b4 = settle (lamports L) [es, fst ea]
        [(payout_dest native recipient rata, payout_lamports native amt ea), (sdr, dep),
         (rr, lamports L es + lamports L (fst ea) - payout_lamports native amt ea - dep)]
    \<and> payout_lamports native amt ea + dep \<le> lamports L es + lamports L (fst ea)"
proof (cases native)
  case True
  from p True have "process_payout rt x m True amt es ea recipient rata rr seeds p L = Inr L1" by simp
  note e = process_payout_native_effect [OF ok this]
  from e(6) obtain K where K: "shifted (fst ea) es (lamports L (fst ea)) (lamports L) (lamports K)"
    "shifted es recipient (unat amt) (lamports K) (lamports L1)" by blast
  have dl: "payout_dest native recipient rata = recipient" "payout_lamports native amt ea = unat amt"
    using True by (simp_all add: payout_dest_def payout_lamports_def)
  have "tokens L1 = settle (tokens L) [fst ea] []" "statics L1 = (statics L)(fst ea := None)"
    by (simp_all add: e(4) tokens_def settle_def statics_def fun_eq_iff)
  with e True dl show ?thesis using native_payout_settle [OF K d c n(1) n(4) [symmetric]] n by simp
next
  case False
  with p obtain ra where ra: "rata = Some ra" and
    w: "withdraw_and_close_token_ata rt x ea es (fst ra) m p rr seeds L = Inr L1"
    by (auto simp: process_payout_def res_simps)
  have dl: "payout_dest native recipient rata = fst ra"
    "payout_lamports native amt ea = native_part (snd ea) (ta_amount (snd ea))"
    using False ra by (simp_all add: payout_dest_def payout_lamports_def)
  have ne: "fst ea \<noteq> fst ra" using nd False dl by simp
  note e = withdraw_and_close_effect [OF ok w ea ne]
  from e(6) obtain K where
    K: "shifted (fst ea) (fst ra) (native_part (snd ea) (ta_amount (snd ea))) (lamports L) (lamports K)"
    "shifted (fst ea) rr (lamports K (fst ea)) (lamports K) (lamports L1)" by blast
  show ?thesis
    using payout_settle [OF K d c n(1) ne e(3) [symmetric] n(4) [symmetric]] n e False dl ra by simp
qed

lemma payout_and_close_effect:
  assumes ok: "runtime_ok rt"
    and r: "payout_and_close rt x m native amt es ea recipient rata rr seeds p sdr sd L = Inr L'"
    and ea: "tok L (fst ea) = Some (snd ea)"
    and n: "es \<noteq> fst ea" "es \<noteq> payout_dest native recipient rata" "es \<noteq> sdr"
    and nd: "\<not> native \<Longrightarrow> fst ea \<noteq> payout_dest native recipient rata"
  shows "prog L' = (prog L)(es := None)" "mints L' = mints L"
    and "statics L' = (statics L)(fst ea := None)" "rr \<noteq> es" "native \<or> rata \<noteq> None"
    and "es \<in> set (cpi_signers rt x (Some [seeds]))"
    and "tokens L' = settle (tokens L) [fst ea]
      (if native then [] else [(payout_dest native recipient rata, tokens L (fst ea))])"
    and "lamports L' = settle (lamports L) [es, fst ea]
      [(payout_dest native recipient rata, payout_lamports native amt ea),
       (sdr, if rr = sdr then 0 else unat sd),
       (rr, lamports L es + lamports L (fst ea) - payout_lamports native amt ea
            - (if rr = sdr then 0 else unat sd))]"
    and "payout_lamports native amt ea + (if rr = sdr then 0 else unat sd)
      \<le> lamports L es + lamports L (fst ea)"
proof -
  from r obtain L1 L2 where
    p: "process_payout rt x m native amt es ea recipient rata rr seeds p L = Inr L1" and
    d: "pay_safety_deposit rt es rr sdr sd L1 = Inr L2" and
    c: "close_program_account rt es rr L2 = Inr L'"
    by (auto simp: payout_and_close_def res_simps)
  note ed = pay_safety_deposit_effect [OF ok d]
  note ec = close_program_account_effect [OF runtime_okD(7) [OF ok c]]
  show rr: "rr \<noteq> es" by (rule ec(1))
  note all = process_payout_settle [OF ok p ed(1) ec(2) ea n rr nd]
  show "prog L' = (prog L)(es := None)" "mints L' = mints L" "native \<or> rata \<noteq> None"
    "es \<in> set (cpi_signers rt x (Some [seeds]))" using all ed ec by simp_all
  have t: "tok L' = tok L1" using ed ec by simp
  show "statics L' = (statics L)(fst ea := None)" using all statics_cong [OF t] by simp
  show "tokens L' = settle (tokens L) [fst ea]
      (if native then [] else [(payout_dest native recipient rata, tokens L (fst ea))])"
    using all tokens_cong [OF t] by simp
  show "lamports L' = settle (lamports L) [es, fst ea]
      [(payout_dest native recipient rata, payout_lamports native amt ea),
       (sdr, if rr = sdr then 0 else unat sd),
       (rr, lamports L es + lamports L (fst ea) - payout_lamports native amt ea
            - (if rr = sdr then 0 else unat sd))]"
    "payout_lamports native amt ea + (if rr = sdr then 0 else unat sd)
      \<le> lamports L es + lamports L (fst ea)" using all by blast+
qed

text \<open>A rescue moves the amount asked for; taking the whole balance also closes the account
  and sends its lamports to the recipient.\<close>

text \<open>A token account whose whole balance has been transferred and which is then closed.\<close>

lemma close_emptied_effect:
  assumes ok: "runtime_ok rt" and t: "shifted f d (unat a) (tokens L) (tokens L1)" "statics L1 = statics L"
    and a: "tokens L f = unat a" and l: "shifted f d b (lamports L) (lamports L1)"
    and c: "close_token_account rt sg p f rcp au L1 = Inr L'" and ne: "f \<noteq> d"
  shows "prog L' = prog L1" "mints L' = mints L1" "tokens L' = tokens L1" "statics L' = (statics L)(f := None)"
    and "lamports L' = settle (lamports L) [f] [(d, b), (rcp, lamports L f - b)]"
    and "conserved {f, d, rcp} (lamports L) (lamports L')"
proof -
  note ec = close_token_account_effect [OF runtime_okD(3) [OF ok c]]
  show "prog L' = prog L1" "mints L' = mints L1" using ec by simp_all
  have "tokens L1 f = 0" using t a ne by (simp add: shifted_def)
  then show "tokens L' = tokens L1" using ec(5) by (auto simp: tokens_def fun_eq_iff)
  show "statics L' = (statics L)(f := None)" using ec(5) t(2) [symmetric] by (simp add: statics_def fun_eq_iff)
  have b1: "lamports L1 = (lamports L)(f := lamports L f - b, d := lamports L d + b)"
    using l ne by (simp add: shifted_def)
  have b2: "lamports L' = (lamports L1)(f := 0, rcp := lamports L1 rcp + lamports L1 f)"
    using ec(4) ec(2) by (simp add: shifted_def)
  show "lamports L' = settle (lamports L) [f] [(d, b), (rcp, lamports L f - b)]"
    unfolding b2 unfolding b1 using ne ec(2) by (auto simp: settle_def fun_eq_iff)
  have "conserved {f, d, rcp} (lamports L) (lamports L1)" by (rule shifted_conserved [OF l]) simp_all
  also have "conserved {f, d, rcp} (lamports L1) (lamports L')" by (rule shifted_conserved [OF ec(4)]) simp_all
  finally show "conserved {f, d, rcp} (lamports L) (lamports L')" .
qed

lemma rescue_funds_effect:
  assumes ok: "runtime_ok rt"
    and r: "rescue_funds rt x es start ea rcp ra m p amt seeds L = Inr L'"
    and ea: "tok L (fst ea) = Some (snd ea)" and ne: "fst ea \<noteq> fst ra"
  shows "start = None \<or> the start \<le> now x" "prog L' = prog L" "mints L' = mints L"
    and "tokens L' = (tokens L)(fst ea := tokens L (fst ea) - unat amt, fst ra := tokens L (fst ra) + unat amt)"
    and "unat amt \<le> tokens L (fst ea)"
    and "statics L' = (if amt = ta_amount (snd ea) then (statics L)(fst ea := None) else statics L)"
    and "amt = ta_amount (snd ea) \<Longrightarrow> lamports L' = settle (lamports L) [fst ea]
      [(fst ra, native_part (snd ea) amt), (rcp, lamports L (fst ea) - native_part (snd ea) amt)]"
    and "amt \<noteq> ta_amount (snd ea) \<Longrightarrow>
      shifted (fst ea) (fst ra) (native_part (snd ea) amt) (lamports L) (lamports L')"
    and "conserved {fst ea, fst ra, rcp} (lamports L) (lamports L')"
proof -
  from r obtain L1 where st: "case start of None \<Rightarrow> True | Some s \<Rightarrow> s \<le> now x" and
    t: "uni_transfer rt x (TokenTransfer (fst ea) es (fst ra) m amt p) (Some [seeds]) L = Inr L1" and
    c: "(if amt = ta_amount (snd ea) then close_token_account rt (cpi_signers rt x (Some [seeds])) p (fst ea) rcp es L1
         else Inr L1) = Inr L'"
    by (auto simp: rescue_funds_def res_simps)
  show "start = None \<or> the start \<le> now x" using st by (cases start) simp_all
  note et = token_transfer_effect [OF ok t]
  note s7 = et(7) [OF ea]
  have t1: "tokens L1 = (tokens L)(fst ea := tokens L (fst ea) - unat amt, fst ra := tokens L (fst ra) + unat amt)"
    "unat amt \<le> tokens L (fst ea)"
    using et(1) ne by (simp_all add: shifted_def)
  show "unat amt \<le> tokens L (fst ea)" by (rule t1(2))
  have K1: "conserved {fst ea, fst ra, rcp} (lamports L) (lamports L1)"
    by (rule shifted_conserved [OF s7]) simp_all
  have all: "prog L' = prog L \<and> mints L' = mints L \<and> tokens L' = tokens L1
    \<and> statics L' = (if amt = ta_amount (snd ea) then (statics L)(fst ea := None) else statics L)
    \<and> (amt = ta_amount (snd ea) \<longrightarrow> lamports L' = settle (lamports L) [fst ea]
      [(fst ra, native_part (snd ea) amt), (rcp, lamports L (fst ea) - native_part (snd ea) amt)])
    \<and> (amt \<noteq> ta_amount (snd ea) \<longrightarrow>
        shifted (fst ea) (fst ra) (native_part (snd ea) amt) (lamports L) (lamports L'))
    \<and> conserved {fst ea, fst ra, rcp} (lamports L) (lamports L')"
  proof (cases "amt = ta_amount (snd ea)")
    case True
    with c have "close_token_account rt (cpi_signers rt x (Some [seeds])) p (fst ea) rcp es L1 = Inr L'" by simp
    from close_emptied_effect [OF ok et(1,2) _ s7 this ne] show ?thesis
      using True et(3,4) tokens_SomeI [OF ea] by simp
  next
    case False
    with c et s7 K1 show ?thesis by simp
  qed
  show "prog L' = prog L" "mints L' = mints L"
    "tokens L' = (tokens L)(fst ea := tokens L (fst ea) - unat amt, fst ra := tokens L (fst ra) + unat amt)"
    "statics L' = (if amt = ta_amount (snd ea) then (statics L)(fst ea := None) else statics L)"
    "amt = ta_amount (snd ea) \<Longrightarrow> lamports L' = settle (lamports L) [fst ea]
      [(fst ra, native_part (snd ea) amt), (rcp, lamports L (fst ea) - native_part (snd ea) amt)]"
    "amt \<noteq> ta_amount (snd ea) \<Longrightarrow>
      shifted (fst ea) (fst ra) (native_part (snd ea) amt) (lamports L) (lamports L')"
    "conserved {fst ea, fst ra, rcp} (lamports L) (lamports L')"
    using all t1(1) by simp_all
qed

text \<open>What a payout does to the books and to the lamports as a whole, whoever is paid.\<close>

lemma process_payout_frame:
  assumes ok: "runtime_ok rt"
    and r: "process_payout rt x m native amt es ea recipient rata rr seeds p L = Inr L'"
    and ea: "tok L (fst ea) = Some (snd ea)"
    and K: "finite K" "{es, fst ea, payout_dest native recipient rata, rr} \<subseteq> K"
  shows "prog L' = prog L" "mints L' = mints L" "statics L' = (statics L)(fst ea := None)"
    and "conserved K (lamports L) (lamports L')"
proof -
  have "prog L' = prog L \<and> mints L' = mints L \<and> statics L' = (statics L)(fst ea := None)
    \<and> conserved K (lamports L) (lamports L')"
  proof (cases native)
    case True
    with r have "process_payout rt x m True amt es ea recipient rata rr seeds p L = Inr L'" by simp
    note e = process_payout_native_effect [OF ok this]
    from e(6) obtain M where M: "shifted (fst ea) es (lamports L (fst ea)) (lamports L) (lamports M)"
      "shifted es recipient (unat amt) (lamports M) (lamports L')" by blast
    have "conserved K (lamports L) (lamports M)" by (rule shifted_conserved [OF M(1)]) (use K in auto)
    also have "conserved K (lamports M) (lamports L')"
      by (rule shifted_conserved [OF M(2)]) (use K True in \<open>auto simp: payout_dest_def\<close>)
    finally show ?thesis using e by (simp add: statics_def fun_eq_iff)
  next
    case False
    with r obtain ra M where ra: "rata = Some ra" and
      t: "uni_transfer rt x (TokenTransfer (fst ea) es (fst ra) m (ta_amount (snd ea)) p) (Some [seeds]) L = Inr M" and
      c: "close_token_account rt (cpi_signers rt x (Some [seeds])) p (fst ea) rr es M = Inr L'"
      by (auto simp: process_payout_def withdraw_and_close_token_ata_def res_simps)
    note et = token_transfer_effect [OF ok t]
    note ec = close_token_account_effect [OF runtime_okD(3) [OF ok c]]
    have "conserved K (lamports L) (lamports M)"
      by (rule shifted_conserved [OF et(7) [OF ea]]) (use K False ra in \<open>auto simp: payout_dest_def\<close>)
    also have "conserved K (lamports M) (lamports L')" by (rule shifted_conserved [OF ec(4)]) (use K in auto)
    finally show ?thesis
      using et ec et(2) [symmetric] by (simp add: statics_def fun_eq_iff)
  qed
  then show "prog L' = prog L" "mints L' = mints L" "statics L' = (statics L)(fst ea := None)"
    "conserved K (lamports L) (lamports L')" by blast+
qed

lemma payout_and_close_frame:
  assumes ok: "runtime_ok rt"
    and r: "payout_and_close rt x m native amt es ea recipient rata rr seeds p sdr sd L = Inr L'"
    and ea: "tok L (fst ea) = Some (snd ea)"
    and K: "finite K" "{es, fst ea, payout_dest native recipient rata, rr, sdr} \<subseteq> K"
  shows "prog L' = (prog L)(es := None)" "mints L' = mints L" "dom (tok L') \<subseteq> dom (tok L)"
    and "conserved K (lamports L) (lamports L')"
proof -
  from r obtain L1 L2 where
    p: "process_payout rt x m native amt es ea recipient rata rr seeds p L = Inr L1" and
    d: "pay_safety_deposit rt es rr sdr sd L1 = Inr L2" and
    c: "close_program_account rt es rr L2 = Inr L'"
    by (auto simp: payout_and_close_def res_simps)
  have K': "{es, fst ea, payout_dest native recipient rata, rr} \<subseteq> K" using K(2) by auto
  note ep = process_payout_frame [OF ok p ea K(1) K']
  note ed = pay_safety_deposit_effect [OF ok d]
  note ec = close_program_account_effect [OF runtime_okD(7) [OF ok c]]
  show "prog L' = (prog L)(es := None)" "mints L' = mints L" using ep ed ec by simp_all
  have "dom (statics L1) \<subseteq> dom (statics L)" using ep(3) by auto
  then show "dom (tok L') \<subseteq> dom (tok L)" using ed ec by (simp add: dom_statics)
  note ep(4)
  also have "conserved K (lamports L1) (lamports L2)" by (rule shifted_conserved [OF ed(1)]) (use K in auto)
  also have "conserved K (lamports L2) (lamports L')" by (rule shifted_conserved [OF ec(2)]) (use K in auto)
  finally show "conserved K (lamports L) (lamports L')" .
qed

section \<open>Settled escrows\<close>

text \<open>The outcome of every instruction that ends an escrow or an order: the account \<open>es\<close> and its
  associated account \<open>ea\<close> are gone, the tokens \<open>tk\<close> and the lamports \<open>lm\<close> have been handed
  out, and \<open>lm\<close> is all there was.\<close>

definition settled ::
  "ledger \<Rightarrow> ledger \<Rightarrow> pubkey \<Rightarrow> pubkey \<Rightarrow> (pubkey \<times> nat) list \<Rightarrow> (pubkey \<times> nat) list \<Rightarrow> bool" where
  "settled L L' es ea tk lm \<longleftrightarrow>
     prog L' = (prog L)(es := None) \<and> mints L' = mints L \<and> statics L' = (statics L)(ea := None)
     \<and> tokens L' = settle (tokens L) [ea] tk
     \<and> lamports L' = settle (lamports L) [es, ea] lm
     \<and> sum_list (map snd lm) = lamports L es + lamports L ea"

definition backing :: "ledger \<Rightarrow> pubkey \<Rightarrow> nat" where
  "backing L k = (case tok L k of None \<Rightarrow> 0 | Some t \<Rightarrow> native_part t (ta_amount t))"

text \<open>The safety deposit changes hands only when somebody else than the payer of the rent acts.\<close>

definition deposit_due :: "pubkey \<Rightarrow> pubkey \<Rightarrow> u64 \<Rightarrow> nat" where
  "deposit_due rr sdr sd = (if rr = sdr then 0 else unat sd)"

lemma deposit_due_self [simp]: "deposit_due k k sd = 0"
  by (simp add: deposit_due_def)

lemma settle_drop_0 [simp]: "settle b cl [p, (k, 0), q] = settle b cl [p, q]"
  by (cases p; cases q) (simp add: settle_def fun_eq_iff)

lemma settled_drop_0 [simp]: "settled L L' es ea tk [p, (k, 0), q] = settled L L' es ea tk [p, q]"
  by (simp add: settled_def)

lemma payout_and_close_settled:
  assumes ok: "runtime_ok rt" and wf: "wf_ledger L"
    and r: "payout_and_close rt x m native amt es ea recipient rata rr seeds p sdr sd L = Inr L'"
    and ea: "tok L (fst ea) = Some (snd ea)" and es: "prog L es \<noteq> None"
    and n: "es \<noteq> payout_dest native recipient rata" "es \<noteq> sdr"
    and nd: "\<not> native \<Longrightarrow> fst ea \<noteq> payout_dest native recipient rata"
  shows "settled L L' es (fst ea)
      (if native then [] else [(payout_dest native recipient rata, tokens L (fst ea))])
      [(payout_dest native recipient rata, payout_lamports native amt ea),
       (sdr, deposit_due rr sdr sd),
       (rr, lamports L es + lamports L (fst ea) - payout_lamports native amt ea
            - deposit_due rr sdr sd)]"
    and "rr \<noteq> es" "native \<or> rata \<noteq> None" "payout_lamports False amt ea = backing L (fst ea)"
proof -
  have ne: "es \<noteq> fst ea" using wf_ledger_neq [OF wf es] ea by simp
  note e = payout_and_close_effect [OF ok r ea ne n nd, folded deposit_due_def]
  from e show "rr \<noteq> es" "native \<or> rata \<noteq> None" by blast+
  show "payout_lamports False amt ea = backing L (fst ea)"
    using ea by (simp add: payout_lamports_def backing_def)
  show "settled L L' es (fst ea)
      (if native then [] else [(payout_dest native recipient rata, tokens L (fst ea))])
      [(payout_dest native recipient rata, payout_lamports native amt ea),
       (sdr, deposit_due rr sdr sd),
       (rr, lamports L es + lamports L (fst ea) - payout_lamports native amt ea
            - deposit_due rr sdr sd)]"
    unfolding settled_def using e by simp
qed

text \<open>A payout to \<open>who\<close>: native assets as lamports to its own account, tokens to the associated
  account \<open>ata\<close> it owns.\<close>

definition pay_key :: "bool \<Rightarrow> pubkey \<Rightarrow> pubkey option \<Rightarrow> pubkey" where
  "pay_key native who ata = (if native then who else the ata)"

definition pay_lamports :: "bool \<Rightarrow> u64 \<Rightarrow> ledger \<Rightarrow> pubkey \<Rightarrow> nat" where
  "pay_lamports native amt L ea = (if native then unat amt else backing L ea)"

definition pay_tokens :: "bool \<Rightarrow> pubkey \<Rightarrow> pubkey option \<Rightarrow> ledger \<Rightarrow> pubkey \<Rightarrow> (pubkey \<times> nat) list" where
  "pay_tokens native who ata L ea = (if native then [] else [(pay_key native who ata, tokens L ea)])"

lemma payout_to_settled:
  assumes ok: "runtime_ok rt" "wf_ledger L"
    and p: "payout_and_close rt x m native amt es ea who ma rr seeds p sdr sd L = Inr L'"
    and t: "tok L (fst ea) = Some (snd ea)" "prog L es \<noteq> None" "ta_owner (snd ea) = es"
    and ma: "\<forall>ta. ma = Some ta \<longrightarrow> tok L (fst ta) = Some (snd ta) \<and> ta_owner (snd ta) = who"
    and n: "who \<noteq> es" "es \<noteq> sdr"
  shows "native \<or> map_option fst ma \<noteq> None"
    and "settled L L' es (fst ea) (pay_tokens native who (map_option fst ma) L (fst ea))
      [(pay_key native who (map_option fst ma), pay_lamports native amt L (fst ea)),
       (sdr, deposit_due rr sdr sd),
       (rr, lamports L es + lamports L (fst ea) - pay_lamports native amt L (fst ea) - deposit_due rr sdr sd)]"
proof -
  have "native \<or> ma \<noteq> None"
    using p by (cases native; cases ma) (auto simp: payout_and_close_def process_payout_def)
  then show c: "native \<or> map_option fst ma \<noteq> None" by simp
  have k: "payout_dest native who ma = pay_key native who (map_option fst ma)"
    using c by (cases ma) (simp_all add: payout_dest_def pay_key_def)
  have "\<not> native \<Longrightarrow> tok L (pay_key native who (map_option fst ma)) \<noteq> None
      \<and> ta_owner (the (tok L (pay_key native who (map_option fst ma)))) = who"
    using c ma by (cases ma) (auto simp: pay_key_def)
  then have d: "es \<noteq> pay_key native who (map_option fst ma)"
    "\<not> native \<Longrightarrow> fst ea \<noteq> pay_key native who (map_option fst ma)"
    using wf_ledger_neq [OF ok(2) t(2)] n t by (auto simp: pay_key_def)
  note s = payout_and_close_settled [OF ok p t(1,2), unfolded k, OF d(1) n(2) d(2)]
  have "payout_lamports native amt ea = pay_lamports native amt L (fst ea)"
    using t by (simp add: payout_lamports_def pay_lamports_def backing_def)
  with s(1) [folded pay_tokens_def] show "settled L L' es (fst ea)
      (pay_tokens native who (map_option fst ma) L (fst ea))
      [(pay_key native who (map_option fst ma), pay_lamports native amt L (fst ea)),
       (sdr, deposit_due rr sdr sd),
       (rr, lamports L es + lamports L (fst ea) - pay_lamports native amt L (fst ea) - deposit_due rr sdr sd)]"
    by simp
qed

lemma settled_conserved:
  assumes "settled L L' es ea tk lm" "es \<noteq> ea" "finite K" "es \<in> K" "ea \<in> K" "fst ` set lm \<subseteq> K"
  shows "conserved K (lamports L) (lamports L')"
proof -
  have "conserved K (lamports L) (settle (lamports L) [es, ea] lm)"
    using assms by (intro settle_conserved) (auto simp: settled_def)
  then show ?thesis using assms(1) by (simp add: settled_def)
qed

lemma settled_dom:
  assumes "settled L L' es ea tk lm"
  shows "dom (prog L') \<subseteq> dom (prog L)" "dom (tok L') \<subseteq> dom (tok L)" "mints L' = mints L"
proof -
  show "dom (prog L') \<subseteq> dom (prog L)" "mints L' = mints L" using assms by (auto simp: settled_def)
  have "statics L' = (statics L)(ea := None)" using assms by (simp add: settled_def)
  then have "tok L k = None \<Longrightarrow> tok L' k = None" for k
    by (simp flip: statics_None_iff)
  then show "dom (tok L') \<subseteq> dom (tok L)" by (meson domIff subsetI)
qed

section \<open>Rescues\<close>

text \<open>The outcome of a rescue: the amount moves; the account is closed, and its lamports go to
  the recipient, exactly when the amount is the whole balance.\<close>

definition rescued :: "ledger \<Rightarrow> ledger \<Rightarrow> pubkey \<Rightarrow> pubkey \<Rightarrow> pubkey \<Rightarrow> nat \<Rightarrow> bool" where
  "rescued L L' ea dest rcp amt \<longleftrightarrow>
     prog L' = prog L \<and> mints L' = mints L \<and> amt \<le> tokens L ea
     \<and> tokens L' = (tokens L)(ea := tokens L ea - amt, dest := tokens L dest + amt)
     \<and> statics L' = (if amt = tokens L ea then (statics L)(ea := None) else statics L)
     \<and> (amt = tokens L ea \<longrightarrow> lamports L' = settle (lamports L) [ea]
          [(dest, backing L ea), (rcp, lamports L ea - backing L ea)])
     \<and> conserved {ea, dest, rcp} (lamports L) (lamports L')"

lemma rescue_funds_rescued:
  assumes ok: "runtime_ok rt"
    and r: "rescue_funds rt x es start ea rcp ra m p amt seeds L = Inr L'"
    and ea: "tok L (fst ea) = Some (snd ea)" and ne: "fst ea \<noteq> fst ra"
  shows "rescued L L' (fst ea) (fst ra) rcp (unat amt)" "start = None \<or> the start \<le> now x"
proof -
  note e = rescue_funds_effect [OF ok r ea ne]
  show "start = None \<or> the start \<le> now x" by (rule e(1))
  have eq: "amt = ta_amount (snd ea) \<longleftrightarrow> unat amt = tokens L (fst ea)"
    using tokens_SomeI [OF ea] by (simp add: word_eq_iff_unat)
  have b: "amt = ta_amount (snd ea) \<Longrightarrow> native_part (snd ea) amt = backing L (fst ea)"
    using ea by (simp add: backing_def)
  show "rescued L L' (fst ea) (fst ra) rcp (unat amt)"
    unfolding rescued_def using e(2-6,9) e(7) b eq by (auto split: if_splits)
qed

lemma rescued_dom: "rescued L L' ea dest rcp amt \<Longrightarrow> dom (tok L') \<subseteq> dom (tok L)"
proof -
  assume "rescued L L' ea dest rcp amt"
  then have "dom (statics L') \<subseteq> dom (statics L)" by (auto simp: rescued_def split: if_splits)
  then show ?thesis by (simp add: dom_statics)
qed

end
