(* ===== verification/SrcOrders.thy ===== *)
theory SrcOrders
  imports CommonEscrow Interfaces OrderHash
begin

text \<open>
  Orders of the source program (\<open>programs/cross-chain-escrow-src/src/lib.rs\<close>): \<open>create\<close> by the
  maker, \<open>cancel_order\<close> by the maker and \<open>cancel_order_by_resolver\<close> against a premium after expiry.
  The lemmas give the whole effect of each on orders, escrows, tokens and lamports.
\<close>

section \<open>Accounts\<close>

record SrcCreate =
  creator :: pubkey
  mint :: pubkey
  creator_ata :: "pubkey option"
  order :: pubkey
  order_ata :: pubkey
  associated_token_program :: pubkey
  token_program :: pubkey
  rent :: pubkey
  system_program :: pubkey

record CancelOrder =
  creator :: pubkey
  mint :: pubkey
  order :: pubkey
  order_ata :: pubkey
  creator_ata :: "pubkey option"
  token_program :: pubkey
  system_program :: pubkey

record CancelOrderbyResolver =
  resolver :: pubkey
  resolver_access :: pubkey
  creator :: pubkey
  mint :: pubkey
  order :: pubkey
  order_ata :: pubkey
  creator_ata :: "pubkey option"
  token_program :: pubkey
  system_program :: pubkey

text \<open>The accounts \<open>init\<close> creates hold zeroes before the handler fills them.\<close>

definition zero_Order :: Order where
  "zero_Order = \<lparr>o_order_hash = zero_key, o_hashlock = zero_key, o_creator = zero_key, o_token = zero_key,
     o_amount = 0, o_remaining_amount = 0, o_safety_deposit = 0, o_timelocks = (0, 0, 0, 0),
     o_expiration_time = 0, o_asset_is_native = False, o_dst_amount = (0, 0, 0, 0),
     o_dutch_auction_data_hash = zero_key, o_max_cancellation_premium = 0,
     o_cancellation_auction_duration = 0, o_allow_multiple_fills = False, o_bump = 0\<rparr>"

section \<open>\<open>create\<close>\<close>

definition SrcCreate_accounts ::
  "runtime \<Rightarrow> exec \<Rightarrow> SrcCreate \<Rightarrow> OrderArgs \<Rightarrow> ledger
    \<Rightarrow> (ledger \<times> mint_ref \<times> token_ref option \<times> token_ref \<times> u8) res" where
  "SrcCreate_accounts rt x a args L =
     bindE (check_signer x (SrcCreate.creator a)) (\<lambda>_.
     bindE (load_mint L (SrcCreate.mint a)) (\<lambda>m.
     bindE (load_token_opt L (SrcCreate.creator_ata a)) (\<lambda>ca.
     bindE (check_associated_token_program rt (SrcCreate.associated_token_program a)) (\<lambda>_.
     bindE (check_token_program rt (SrcCreate.token_program a)) (\<lambda>_.
     bindE (check_rent rt (SrcCreate.rent a)) (\<lambda>_.
     bindE (check_system_program rt (SrcCreate.system_program a)) (\<lambda>_.
     bindE (find_pda rt (order_seeds (get_order_hash rt (SrcCreate.creator a) (SrcCreate.mint a) args))
       src_ID (SrcCreate.order a)) (\<lambda>bump.
     bindE (init_data rt x (SrcCreate.creator a) (SrcCreate.order a) (DISCRIMINATOR_BYTES + Order_INIT_SPACE)
       src_ID (OrderAcc zero_Order) L) (\<lambda>L1.
     bindE (init_if_needed_ata rt x (SrcCreate.order_ata a) (SrcCreate.creator a) (SrcCreate.mint a)
       (SrcCreate.order a) (SrcCreate.token_program a) L1) (\<lambda>(L2, oa).
     bindE (check_ata_opt rt ca (SrcCreate.mint a) (SrcCreate.creator a) (SrcCreate.token_program a)) (\<lambda>_.
     Inr (L2, m, ca, oa, bump))))))))))))"

definition deposit_order_funds ::
  "runtime \<Rightarrow> exec \<Rightarrow> SrcCreate \<Rightarrow> bool \<Rightarrow> u64 \<Rightarrow> mint_ref \<Rightarrow> token_ref option \<Rightarrow> ledger \<Rightarrow> ledger res" where
  "deposit_order_funds rt x a native amt m ca L =
     (if native then
        bindE (uni_transfer rt x
          (NativeTransfer (SrcCreate.creator a) (SrcCreate.order_ata a) amt (SrcCreate.system_program a)) None L) (\<lambda>L1.
        sync_native rt (SrcCreate.token_program a) (SrcCreate.order_ata a) L1)
      else
        bindE (ok_or ca (Escrow MissingCreatorAta)) (\<lambda>from_ata.
        uni_transfer rt x
          (TokenTransfer (fst from_ata) (SrcCreate.creator a) (SrcCreate.order_ata a) m amt
             (SrcCreate.token_program a)) None L))"

definition new_order :: "runtime \<Rightarrow> exec \<Rightarrow> pubkey \<Rightarrow> pubkey \<Rightarrow> OrderArgs \<Rightarrow> u8 \<Rightarrow> Order" where
  "new_order rt x who token args bump =
     \<lparr>o_order_hash = get_order_hash rt who token args, o_hashlock = oa_hashlock args,
      o_creator = who, o_token = token, o_amount = oa_amount args, o_remaining_amount = oa_amount args,
      o_safety_deposit = oa_safety_deposit args,
      o_timelocks = get_timelocks (set_deployed_at (Timelocks (U256 (oa_timelocks args))) (now x)),
      o_expiration_time = oa_expiration_time args, o_asset_is_native = oa_asset_is_native args,
      o_dst_amount = oa_dst_amount args, o_dutch_auction_data_hash = oa_dutch_auction_data_hash args,
      o_max_cancellation_premium = oa_max_cancellation_premium args,
      o_cancellation_auction_duration = oa_cancellation_auction_duration args,
      o_allow_multiple_fills = oa_allow_multiple_fills args, o_bump = bump\<rparr>"

definition parts_amount :: "bytes \<Rightarrow> u16" where
  "parts_amount hashlock = u16_from_be_bytes (hashlock ! 0) (hashlock ! 1)"

definition src_create :: "runtime \<Rightarrow> exec \<Rightarrow> SrcCreate \<Rightarrow> OrderArgs \<Rightarrow> DstChainParams \<Rightarrow> ledger \<Rightarrow> ledger res" where
  "src_create rt x a args dst_chain_params L =
     bindE (check_entry src_ID x) (\<lambda>_.
     bindE (SrcCreate_accounts rt x a args L) (\<lambda>(L1, m, ca, oa, bump).
     require (lam L1 (SrcCreate.order_ata a) \<ge> oa_max_cancellation_premium args) (Escrow InvalidCancellationFee)
     (require (oa_allow_multiple_fills args \<longrightarrow> parts_amount (oa_hashlock args) > 1) (Escrow InvalidPartsAmount)
     (require (now x < oa_expiration_time args) (Escrow OrderHasExpired)
     (require (oa_amount args \<noteq> 0 \<and> oa_safety_deposit args \<noteq> 0) (Escrow ZeroAmountOrDeposit)
     (require (oa_safety_deposit args \<le> minimum_balance rt (EscrowSrc_INIT_SPACE + DISCRIMINATOR_BYTES))
       (Escrow SafetyDepositTooLarge)
     (require (SrcCreate.mint a = native_mint rt \<or> \<not> oa_asset_is_native args) (Escrow InconsistentNativeTrait)
     (bindE (deposit_order_funds rt x a (oa_asset_is_native args) (oa_amount args) m ca L1) (\<lambda>L2.
     Inr (set_data (SrcCreate.order a)
       (OrderAcc (new_order rt x (SrcCreate.creator a) (SrcCreate.mint a) args bump)) L2))))))))))"

section \<open>Cancelling an order\<close>

definition order_signer_seeds :: "Order \<Rightarrow> bytes list" where
  "order_signer_seeds ord = order_seeds (o_order_hash ord) @ [[o_bump ord]]"

definition CancelOrder_accounts :: "runtime \<Rightarrow> exec \<Rightarrow> CancelOrder \<Rightarrow> ledger \<Rightarrow> Order loaded res" where
  "CancelOrder_accounts rt x a L =
     bindE (check_signer x (CancelOrder.creator a)) (\<lambda>_.
     bindE (load_mint L (CancelOrder.mint a)) (\<lambda>m.
     bindE (load_Order L (CancelOrder.order a)) (\<lambda>ord.
     bindE (load_token L (CancelOrder.order_ata a)) (\<lambda>oa.
     bindE (load_token_opt L (CancelOrder.creator_ata a)) (\<lambda>ca.
     bindE (check_token_program rt (CancelOrder.token_program a)) (\<lambda>_.
     bindE (check_system_program rt (CancelOrder.system_program a)) (\<lambda>_.
     bindE (check_key (CancelOrder.creator a = o_creator ord) (Escrow InvalidAccount)) (\<lambda>_.
     bindE (check_key (CancelOrder.mint a = o_token ord) (Escrow InvalidMint)) (\<lambda>_.
     bindE (check_pda rt (order_seeds (o_order_hash ord)) (o_bump ord) src_ID (CancelOrder.order a)) (\<lambda>_.
     bindE (check_key (CancelOrder.order a \<noteq> CancelOrder.creator a) (Anchor ConstraintClose)) (\<lambda>_.
     bindE (check_ata rt oa (CancelOrder.mint a) (CancelOrder.order a) (CancelOrder.token_program a)) (\<lambda>_.
     bindE (check_ata_opt rt ca (CancelOrder.mint a) (CancelOrder.creator a) (CancelOrder.token_program a)) (\<lambda>_.
     Inr \<lparr>ld_state = ord, ld_mint = m, ld_ata = oa, ld_dest = ca\<rparr>)))))))))))))"

definition CancelOrderbyResolver_accounts ::
  "runtime \<Rightarrow> exec \<Rightarrow> CancelOrderbyResolver \<Rightarrow> ledger \<Rightarrow> Order loaded res" where
  "CancelOrderbyResolver_accounts rt x a L =
     bindE (check_signer x (CancelOrderbyResolver.resolver a)) (\<lambda>_.
     bindE (load_ResolverAccess L (CancelOrderbyResolver.resolver_access a)) (\<lambda>ra.
     bindE (load_mint L (CancelOrderbyResolver.mint a)) (\<lambda>m.
     bindE (load_Order L (CancelOrderbyResolver.order a)) (\<lambda>ord.
     bindE (load_token L (CancelOrderbyResolver.order_ata a)) (\<lambda>oa.
     bindE (load_token_opt L (CancelOrderbyResolver.creator_ata a)) (\<lambda>ca.
     bindE (check_token_program rt (CancelOrderbyResolver.token_program a)) (\<lambda>_.
     bindE (check_system_program rt (CancelOrderbyResolver.system_program a)) (\<lambda>_.
     bindE (check_pda rt (resolver_seeds src_ID (CancelOrderbyResolver.resolver a)) (ra_bump ra) whitelist_ID
       (CancelOrderbyResolver.resolver_access a)) (\<lambda>_.
     bindE (check_key (CancelOrderbyResolver.creator a = o_creator ord) (Escrow InvalidAccount)) (\<lambda>_.
     bindE (check_key (CancelOrderbyResolver.mint a = o_token ord) (Escrow InvalidMint)) (\<lambda>_.
     bindE (check_pda rt (order_seeds (o_order_hash ord)) (o_bump ord) src_ID (CancelOrderbyResolver.order a)) (\<lambda>_.
     bindE (check_key (CancelOrderbyResolver.order a \<noteq> CancelOrderbyResolver.creator a) (Anchor ConstraintClose)) (\<lambda>_.
     bindE (check_ata rt oa (CancelOrderbyResolver.mint a) (CancelOrderbyResolver.order a)
       (CancelOrderbyResolver.token_program a)) (\<lambda>_.
     bindE (check_ata_opt rt ca (CancelOrderbyResolver.mint a) (CancelOrderbyResolver.creator a)
       (CancelOrderbyResolver.token_program a)) (\<lambda>_.
     Inr \<lparr>ld_state = ord, ld_mint = m, ld_ata = oa, ld_dest = ca\<rparr>)))))))))))))))"

text \<open>The tokens go back to the maker's associated account; native assets stay wrapped in the
  order's account, which is closed next.\<close>

definition return_order_tokens ::
  "runtime \<Rightarrow> exec \<Rightarrow> pubkey \<Rightarrow> pubkey \<Rightarrow> Order loaded \<Rightarrow> ledger \<Rightarrow> ledger res" where
  "return_order_tokens rt x order_key program ld L =
     (if \<not> o_asset_is_native (ld_state ld) then
        bindE (ok_or (ld_dest ld) (Escrow MissingCreatorAta)) (\<lambda>ca.
        uni_transfer rt x
          (TokenTransfer (fst (ld_ata ld)) order_key (fst ca) (ld_mint ld) (ta_amount (snd (ld_ata ld))) program)
          (Some [order_signer_seeds (ld_state ld)]) L)
      else Inr L)"

definition cancel_order :: "runtime \<Rightarrow> exec \<Rightarrow> CancelOrder \<Rightarrow> ledger \<Rightarrow> ledger res" where
  "cancel_order rt x a L =
     bindE (check_entry src_ID x) (\<lambda>_.
     bindE (CancelOrder_accounts rt x a L) (\<lambda>ld.
     let ord = ld_state ld in
     require (o_asset_is_native ord = (CancelOrder.creator_ata a = None)) (Escrow InconsistentNativeTrait)
     (bindE (return_order_tokens rt x (CancelOrder.order a) (CancelOrder.token_program a) ld L) (\<lambda>L1.
     bindE (close_token_account rt (cpi_signers rt x (Some [order_signer_seeds ord])) (CancelOrder.token_program a)
       (CancelOrder.order_ata a) (CancelOrder.creator a) (CancelOrder.order a) L1) (\<lambda>L2.
     close_program_account rt (CancelOrder.order a) (CancelOrder.creator a) L2)))))"

definition cancel_order_by_resolver ::
  "runtime \<Rightarrow> exec \<Rightarrow> CancelOrderbyResolver \<Rightarrow> u64 \<Rightarrow> ledger \<Rightarrow> ledger res" where
  "cancel_order_by_resolver rt x a reward_limit L =
     bindE (check_entry src_ID x) (\<lambda>_.
     bindE (CancelOrderbyResolver_accounts rt x a L) (\<lambda>ld.
     let ord = ld_state ld in
     require (now x \<ge> o_expiration_time ord) (Escrow OrderNotExpired)
     (require (o_max_cancellation_premium ord > 0) (Escrow CancelOrderByResolverIsForbidden)
     (require (o_asset_is_native ord = (CancelOrderbyResolver.creator_ata a = None)) (Escrow InconsistentNativeTrait)
     (bindE (return_order_tokens rt x (CancelOrderbyResolver.order a) (CancelOrderbyResolver.token_program a) ld L) (\<lambda>L1.
     bindE (calculate_premium (now x) (o_expiration_time ord) (o_cancellation_auction_duration ord)
       (o_max_cancellation_premium ord)) (\<lambda>cancellation_premium.
     bindE (sub_u (lam L1 (CancelOrderbyResolver.order_ata a)) (min cancellation_premium reward_limit)) (\<lambda>maker_amount.
     bindE (close_token_account rt (cpi_signers rt x (Some [order_signer_seeds ord]))
       (CancelOrderbyResolver.token_program a) (CancelOrderbyResolver.order_ata a) (CancelOrderbyResolver.resolver a)
       (CancelOrderbyResolver.order a) L1) (\<lambda>L2.
     bindE (uni_transfer rt x
       (NativeTransfer (CancelOrderbyResolver.resolver a) (CancelOrderbyResolver.creator a) maker_amount
          (CancelOrderbyResolver.system_program a)) None L2) (\<lambda>L3.
     close_program_account rt (CancelOrderbyResolver.order a) (CancelOrderbyResolver.creator a) L3))))))))))"

section \<open>What the maker gets back\<close>

definition return_key :: "Order \<Rightarrow> pubkey option \<Rightarrow> pubkey" where
  "return_key ord ata = (if o_asset_is_native ord then o_creator ord else the ata)"

definition return_backing :: "Order \<Rightarrow> ledger \<Rightarrow> pubkey \<Rightarrow> nat" where
  "return_backing ord L oa = (if o_asset_is_native ord then 0 else backing L oa)"

definition return_tokens :: "Order \<Rightarrow> pubkey option \<Rightarrow> ledger \<Rightarrow> pubkey \<Rightarrow> (pubkey \<times> nat) list" where
  "return_tokens ord ata L oa = (if o_asset_is_native ord then [] else [(return_key ord ata, tokens L oa)])"

lemma return_order_tokens_effect:
  assumes ok: "runtime_ok rt" and r: "return_order_tokens rt x k p ld L = Inr L1"
    and oa: "tok L (fst (ld_ata ld)) = Some (snd (ld_ata ld))"
    and n: "\<not> o_asset_is_native (ld_state ld) \<Longrightarrow> fst (ld_ata ld) \<noteq> return_key (ld_state ld) (map_option fst (ld_dest ld))"
  shows "mints L1 = mints L" "prog L1 = prog L" "statics L1 = statics L"
    and "o_asset_is_native (ld_state ld) \<or> ld_dest ld \<noteq> None"
    and "tokens L1 = (if o_asset_is_native (ld_state ld) then tokens L
      else settle (tokens L) [fst (ld_ata ld)] (return_tokens (ld_state ld) (map_option fst (ld_dest ld)) L (fst (ld_ata ld))))"
    and "shifted (fst (ld_ata ld)) (return_key (ld_state ld) (map_option fst (ld_dest ld)))
      (return_backing (ld_state ld) L (fst (ld_ata ld))) (lamports L) (lamports L1)"
proof -
  let ?o = "ld_state ld" and ?oa = "fst (ld_ata ld)"
  have "mints L1 = mints L \<and> prog L1 = prog L \<and> statics L1 = statics L
    \<and> (o_asset_is_native ?o \<or> ld_dest ld \<noteq> None)
    \<and> tokens L1 = (if o_asset_is_native ?o then tokens L
      else settle (tokens L) [?oa] (return_tokens ?o (map_option fst (ld_dest ld)) L ?oa))
    \<and> shifted ?oa (return_key ?o (map_option fst (ld_dest ld))) (return_backing ?o L ?oa) (lamports L) (lamports L1)"
  proof (cases "o_asset_is_native ?o")
    case True
    with r show ?thesis by (simp add: return_order_tokens_def return_backing_def)
  next
    case False
    with r obtain ca where ca: "ld_dest ld = Some ca" and
      t: "uni_transfer rt x (TokenTransfer ?oa k (fst ca) (ld_mint ld) (ta_amount (snd (ld_ata ld))) p)
          (Some [order_signer_seeds ?o]) L = Inr L1"
      by (auto simp: return_order_tokens_def ok_or_Inr_iff bindE_Inr_iff)
    note e = token_transfer_effect [OF ok t]
    have k: "return_key ?o (map_option fst (ld_dest ld)) = fst ca" using False ca by (simp add: return_key_def)
    have b: "return_backing ?o L ?oa = native_part (snd (ld_ata ld)) (ta_amount (snd (ld_ata ld)))"
      using False oa by (simp add: return_backing_def backing_def)
    have "tokens L1 = settle (tokens L) [?oa] [(fst ca, tokens L ?oa)]"
      using e(1) n [OF False] k tokens_SomeI [OF oa] shifted_settle by metis
    then show ?thesis using False ca e(2-4) e(7) [OF oa] k b by (simp add: return_tokens_def)
  qed
  then show "mints L1 = mints L" "prog L1 = prog L" "statics L1 = statics L"
    "o_asset_is_native ?o \<or> ld_dest ld \<noteq> None"
    "tokens L1 = (if o_asset_is_native ?o then tokens L
      else settle (tokens L) [?oa] (return_tokens ?o (map_option fst (ld_dest ld)) L ?oa))"
    "shifted ?oa (return_key ?o (map_option fst (ld_dest ld))) (return_backing ?o L ?oa) (lamports L) (lamports L1)"
    by blast+
qed

text \<open>Returning the tokens and closing the order's token account.\<close>

lemma return_and_close_effect:
  assumes ok: "runtime_ok rt" and r: "return_order_tokens rt x k p ld L = Inr L1"
    and c: "close_token_account rt sg p' (fst (ld_ata ld)) d au L1 = Inr L2"
    and oa: "tok L (fst (ld_ata ld)) = Some (snd (ld_ata ld))"
    and n: "\<not> o_asset_is_native (ld_state ld) \<Longrightarrow> fst (ld_ata ld) \<noteq> return_key (ld_state ld) (map_option fst (ld_dest ld))"
  shows "mints L2 = mints L" "prog L2 = prog L" "statics L2 = (statics L)(fst (ld_ata ld) := None)"
    and "tokens L2 = settle (tokens L) [fst (ld_ata ld)]
      (return_tokens (ld_state ld) (map_option fst (ld_dest ld)) L (fst (ld_ata ld)))"
    and "d \<noteq> fst (ld_ata ld)"
    and "shifted (fst (ld_ata ld)) d (lamports L1 (fst (ld_ata ld))) (lamports L1) (lamports L2)"
proof -
  let ?o = "ld_state ld" and ?oa = "fst (ld_ata ld)"
  note e = return_order_tokens_effect [OF ok r oa n]
  note ec = close_token_account_effect [OF runtime_okD(3) [OF ok c]]
  show "mints L2 = mints L" "prog L2 = prog L" "d \<noteq> ?oa" using e ec by simp_all
  show "statics L2 = (statics L)(?oa := None)"
    using ec(5) e(3) [symmetric] by (simp add: statics_def fun_eq_iff)
  have t: "tokens L2 = (tokens L1)(?oa := 0)" using ec(5) by (simp add: tokens_def fun_eq_iff)
  show "tokens L2 = settle (tokens L) [?oa] (return_tokens ?o (map_option fst (ld_dest ld)) L ?oa)"
    using e(5) n by (auto simp: t settle_def fun_eq_iff return_tokens_def)
  show "shifted ?oa d (lamports L1 ?oa) (lamports L1) (lamports L2)" by (rule ec(4))
qed

lemma return_key_neq:
  assumes wf: "wf_ledger L" and k: "prog L k \<noteq> None"
    and oa: "tok L (fst (ld_ata ld)) = Some (snd (ld_ata ld))" "ta_owner (snd (ld_ata ld)) = k"
    and ca: "\<forall>ta. ld_dest ld = Some ta \<longrightarrow> tok L (fst ta) = Some (snd ta) \<and> ta_owner (snd ta) = o_creator (ld_state ld)"
    and c: "o_creator (ld_state ld) \<noteq> k" "o_asset_is_native (ld_state ld) \<or> ld_dest ld \<noteq> None"
  shows "\<not> o_asset_is_native (ld_state ld) \<Longrightarrow> fst (ld_ata ld) \<noteq> return_key (ld_state ld) (map_option fst (ld_dest ld))"
    and "k \<noteq> return_key (ld_state ld) (map_option fst (ld_dest ld))" "k \<noteq> fst (ld_ata ld)"
proof -
  show kn: "k \<noteq> fst (ld_ata ld)" using wf_ledger_neq [OF wf k] oa by simp
  show "fst (ld_ata ld) \<noteq> return_key (ld_state ld) (map_option fst (ld_dest ld))" if "\<not> o_asset_is_native (ld_state ld)"
    using that c ca oa by (auto simp: return_key_def)
  show "k \<noteq> return_key (ld_state ld) (map_option fst (ld_dest ld))"
  proof (cases "o_asset_is_native (ld_state ld)")
    case True
    with c show ?thesis by (simp add: return_key_def)
  next
    case False
    with c ca obtain ta where "ld_dest ld = Some ta" "tok L (fst ta) \<noteq> None" by auto
    with False wf_ledger_neq [OF wf k] show ?thesis by (auto simp: return_key_def)
  qed
qed

lemma CancelOrder_accounts_Inr:
  assumes "CancelOrder_accounts rt x a L = Inr ld"
  shows "CancelOrder.creator a \<in> set (signers x)" "prog L (CancelOrder.order a) = Some (OrderAcc (ld_state ld))"
    "fst (ld_ata ld) = CancelOrder.order_ata a" "tok L (fst (ld_ata ld)) = Some (snd (ld_ata ld))"
    "ta_owner (snd (ld_ata ld)) = CancelOrder.order a"
    "CancelOrder.creator_ata a = map_option fst (ld_dest ld)"
    "\<forall>ta. ld_dest ld = Some ta \<longrightarrow> tok L (fst ta) = Some (snd ta) \<and> ta_owner (snd ta) = o_creator (ld_state ld)"
    "CancelOrder.creator a = o_creator (ld_state ld)" "CancelOrder.order a \<noteq> CancelOrder.creator a"
  using assms by (auto simp: CancelOrder_accounts_def res_simps)

lemma CancelOrderbyResolver_accounts_Inr:
  assumes "CancelOrderbyResolver_accounts rt x a L = Inr ld"
  shows "CancelOrderbyResolver.resolver a \<in> set (signers x)"
    "prog L (CancelOrderbyResolver.order a) = Some (OrderAcc (ld_state ld))"
    "fst (ld_ata ld) = CancelOrderbyResolver.order_ata a" "tok L (fst (ld_ata ld)) = Some (snd (ld_ata ld))"
    "ta_owner (snd (ld_ata ld)) = CancelOrderbyResolver.order a"
    "CancelOrderbyResolver.creator_ata a = map_option fst (ld_dest ld)"
    "\<forall>ta. ld_dest ld = Some ta \<longrightarrow> tok L (fst ta) = Some (snd ta) \<and> ta_owner (snd ta) = o_creator (ld_state ld)"
    "CancelOrderbyResolver.creator a = o_creator (ld_state ld)"
    "CancelOrderbyResolver.order a \<noteq> CancelOrderbyResolver.creator a"
    "has_access rt L src_ID (CancelOrderbyResolver.resolver a) (CancelOrderbyResolver.resolver_access a)"
  using assms by (auto simp: CancelOrderbyResolver_accounts_def res_simps has_access_def)

lemma cancel_order_settles:
  assumes "runtime_ok rt" "wf_ledger L" "cancel_order rt x a L = Inr L'"
  shows "\<exists>ord. prog L (CancelOrder.order a) = Some (OrderAcc ord)
    \<and> CancelOrder.creator a = o_creator ord \<and> CancelOrder.creator a \<in> set (signers x)
    \<and> o_asset_is_native ord = (CancelOrder.creator_ata a = None)
    \<and> settled L L' (CancelOrder.order a) (CancelOrder.order_ata a)
        (return_tokens ord (CancelOrder.creator_ata a) L (CancelOrder.order_ata a))
        [(return_key ord (CancelOrder.creator_ata a), return_backing ord L (CancelOrder.order_ata a)),
         (CancelOrder.creator a, lamports L (CancelOrder.order a) + lamports L (CancelOrder.order_ata a)
            - return_backing ord L (CancelOrder.order_ata a))]"
proof -
  from assms(3) obtain ld L1 L2 where ld: "CancelOrder_accounts rt x a L = Inr ld" and
    nat: "o_asset_is_native (ld_state ld) = (CancelOrder.creator_ata a = None)" and
    r: "return_order_tokens rt x (CancelOrder.order a) (CancelOrder.token_program a) ld L = Inr L1" and
    c: "close_token_account rt (cpi_signers rt x (Some [order_signer_seeds (ld_state ld)])) (CancelOrder.token_program a)
       (CancelOrder.order_ata a) (CancelOrder.creator a) (CancelOrder.order a) L1 = Inr L2" and
    p: "close_program_account rt (CancelOrder.order a) (CancelOrder.creator a) L2 = Inr L'"
    by (auto simp: cancel_order_def Let_def bindE_Inr_iff require_Inr_iff)
  note l = CancelOrder_accounts_Inr [OF ld]
  have k: "prog L (CancelOrder.order a) \<noteq> None" and c1: "o_creator (ld_state ld) \<noteq> CancelOrder.order a"
    and c2: "o_asset_is_native (ld_state ld) \<or> ld_dest ld \<noteq> None" using l nat by auto
  note n = return_key_neq [OF assms(2) k l(4,5,7) c1 c2]
  note e1 = return_order_tokens_effect [OF assms(1) r l(4) n(1)]
  note e2 = return_and_close_effect [OF assms(1) r c [folded l(3)] l(4) n(1)]
  note e3 = close_program_account_effect [OF runtime_okD(7) [OF assms(1) p]]
  have d: "CancelOrder.creator a \<noteq> fst (ld_ata ld)" using e2(5) by blast
  have nd: "fst (ld_ata ld) \<noteq> return_key (ld_state ld) (map_option fst (ld_dest ld))"
    using n(1) d l(8) by (cases "o_asset_is_native (ld_state ld)") (simp_all add: return_key_def)
  have z: "shifted (CancelOrder.order a) (CancelOrder.creator a) 0 (lamports L2) (lamports L2)" by simp
  note s = payout_settle [OF e1(6) e2(6) z e3(2) n(3) nd d [symmetric] l(9) n(2) l(9)]
  have S: "settled L L' (CancelOrder.order a) (CancelOrder.order_ata a)
        (return_tokens (ld_state ld) (CancelOrder.creator_ata a) L (CancelOrder.order_ata a))
        [(return_key (ld_state ld) (CancelOrder.creator_ata a), return_backing (ld_state ld) L (CancelOrder.order_ata a)),
         (CancelOrder.creator a, lamports L (CancelOrder.order a) + lamports L (CancelOrder.order_ata a)
            - return_backing (ld_state ld) L (CancelOrder.order_ata a))]"
    using s e2(1-4) e3(3-5) n(1) tokens_cong [OF e3(3)] statics_cong [OF e3(3)] l(3,6) by (simp add: settled_def)
  show ?thesis by (intro exI [where x = "ld_state ld"] conjI l(2) l(8) l(1) nat S)
qed

text \<open>C22: \<open>cancel_order\<close>: only the maker, with its signature, cancels an order at any time; all
  tokens of the order return to the maker's account (native assets as lamports), together
  with the rent of both accounts, and the order is gone.\<close>

theorem cancel_order_correct:
  assumes "runtime_ok rt" "wf_ledger L" "cancel_order rt x a L = Inr L'"
  shows "\<exists>ord. prog L (CancelOrder.order a) = Some (OrderAcc ord)
    \<and> CancelOrder.creator a = o_creator ord \<and> CancelOrder.creator a \<in> set (signers x)
    \<and> o_asset_is_native ord = (CancelOrder.creator_ata a = None)
    \<and> settled L L' (CancelOrder.order a) (CancelOrder.order_ata a)
        (return_tokens ord (CancelOrder.creator_ata a) L (CancelOrder.order_ata a))
        [(return_key ord (CancelOrder.creator_ata a), return_backing ord L (CancelOrder.order_ata a)),
         (CancelOrder.creator a, lamports L (CancelOrder.order a) + lamports L (CancelOrder.order_ata a)
            - return_backing ord L (CancelOrder.order_ata a))]"
  using assms by (rule cancel_order_settles)

lemma cancel_order_by_resolver_Inr:
  assumes "cancel_order_by_resolver rt x a reward_limit L = Inr L'"
  obtains ld L1 L2 L3 cp amt where "CancelOrderbyResolver_accounts rt x a L = Inr ld"
    "o_expiration_time (ld_state ld) \<le> now x" "0 < o_max_cancellation_premium (ld_state ld)"
    "o_asset_is_native (ld_state ld) = (CancelOrderbyResolver.creator_ata a = None)"
    "return_order_tokens rt x (CancelOrderbyResolver.order a) (CancelOrderbyResolver.token_program a) ld L = Inr L1"
    "calculate_premium (now x) (o_expiration_time (ld_state ld))
      (o_cancellation_auction_duration (ld_state ld)) (o_max_cancellation_premium (ld_state ld)) = Inr cp"
    "sub_u (lam L1 (CancelOrderbyResolver.order_ata a)) (min cp reward_limit) = Inr amt"
    "close_token_account rt (cpi_signers rt x (Some [order_signer_seeds (ld_state ld)]))
       (CancelOrderbyResolver.token_program a) (CancelOrderbyResolver.order_ata a) (CancelOrderbyResolver.resolver a)
       (CancelOrderbyResolver.order a) L1 = Inr L2"
    "uni_transfer rt x (NativeTransfer (CancelOrderbyResolver.resolver a) (CancelOrderbyResolver.creator a) amt
       (CancelOrderbyResolver.system_program a)) None L2 = Inr L3"
    "close_program_account rt (CancelOrderbyResolver.order a) (CancelOrderbyResolver.creator a) L3 = Inr L'"
  using assms by (auto simp: cancel_order_by_resolver_def Let_def bindE_Inr_iff require_Inr_iff)

lemma capped_premium:
  "calculate_premium t e d mx = Inr cp
    \<Longrightarrow> unat (min cp limit) = min (premium (unat t) (unat e) (unat d) (unat mx)) (unat limit)"
  using calculate_premium_InrD [of t e d mx cp] by (simp add: min_def word_le_nat_alt)

text \<open>The premium: with a native asset the backing stays in the account, so the first payment
  of the settlement is empty and its recipient does not matter.\<close>

lemma settle_empty_payment: "settle b xs ((k, 0) # ps) = settle b xs ((k', 0) # ps)"
  by (simp add: settle_def fun_eq_iff)

lemma cancel_order_by_resolver_settles:
  assumes "runtime_ok rt" "wf_ledger L" "cancel_order_by_resolver rt x a reward_limit L = Inr L'"
    and "CancelOrderbyResolver.order a \<notin> set (signers x)"
  shows "\<exists>ord prem. prog L (CancelOrderbyResolver.order a) = Some (OrderAcc ord)
    \<and> CancelOrderbyResolver.creator a = o_creator ord \<and> CancelOrderbyResolver.resolver a \<in> set (signers x)
    \<and> has_access rt L src_ID (CancelOrderbyResolver.resolver a) (CancelOrderbyResolver.resolver_access a)
    \<and> o_expiration_time ord \<le> now x \<and> 0 < o_max_cancellation_premium ord
    \<and> o_asset_is_native ord = (CancelOrderbyResolver.creator_ata a = None)
    \<and> prem = min (premium (unat (now x)) (unat (o_expiration_time ord))
        (unat (o_cancellation_auction_duration ord)) (unat (o_max_cancellation_premium ord))) (unat reward_limit)
    \<and> settled L L' (CancelOrderbyResolver.order a) (CancelOrderbyResolver.order_ata a)
        (return_tokens ord (CancelOrderbyResolver.creator_ata a) L (CancelOrderbyResolver.order_ata a))
        [(return_key ord (CancelOrderbyResolver.creator_ata a),
            return_backing ord L (CancelOrderbyResolver.order_ata a)),
         (CancelOrderbyResolver.resolver a, prem),
         (CancelOrderbyResolver.creator a, lamports L (CancelOrderbyResolver.order a)
            + lamports L (CancelOrderbyResolver.order_ata a)
            - return_backing ord L (CancelOrderbyResolver.order_ata a) - prem)]"
proof -
  let ?k = "CancelOrderbyResolver.order a" and ?oa = "CancelOrderbyResolver.order_ata a"
  from assms(3) obtain ld L1 L2 L3 cp amt where ld: "CancelOrderbyResolver_accounts rt x a L = Inr ld" and
    g: "o_expiration_time (ld_state ld) \<le> now x" "0 < o_max_cancellation_premium (ld_state ld)" and
    nat: "o_asset_is_native (ld_state ld) = (CancelOrderbyResolver.creator_ata a = None)" and
    r: "return_order_tokens rt x ?k (CancelOrderbyResolver.token_program a) ld L = Inr L1" and
    cp: "calculate_premium (now x) (o_expiration_time (ld_state ld))
      (o_cancellation_auction_duration (ld_state ld)) (o_max_cancellation_premium (ld_state ld)) = Inr cp" and
    amt: "sub_u (lam L1 ?oa) (min cp reward_limit) = Inr amt" and
    c: "close_token_account rt (cpi_signers rt x (Some [order_signer_seeds (ld_state ld)]))
       (CancelOrderbyResolver.token_program a) ?oa (CancelOrderbyResolver.resolver a) ?k L1 = Inr L2" and
    u: "uni_transfer rt x (NativeTransfer (CancelOrderbyResolver.resolver a) (CancelOrderbyResolver.creator a) amt
          (CancelOrderbyResolver.system_program a)) None L2 = Inr L3" and
    p: "close_program_account rt ?k (CancelOrderbyResolver.creator a) L3 = Inr L'"
    by (rule cancel_order_by_resolver_Inr)
  note l = CancelOrderbyResolver_accounts_Inr [OF ld]
  have k: "prog L ?k \<noteq> None" and c1: "o_creator (ld_state ld) \<noteq> ?k"
    and c2: "o_asset_is_native (ld_state ld) \<or> ld_dest ld \<noteq> None" using l nat by auto
  note n = return_key_neq [OF assms(2) k l(4,5,7) c1 c2]
  note e1 = return_order_tokens_effect [OF assms(1) r l(4) n(1)]
  note e2 = return_and_close_effect [OF assms(1) r c [folded l(3)] l(4) n(1)]
  note e3 = native_transfer_effect [OF assms(1) u]
  note e4 = close_program_account_effect [OF runtime_okD(7) [OF assms(1) p]]
  let ?p = "unat (min cp reward_limit)"
  note pr = capped_premium [OF cp, of reward_limit]
  have a: "?p \<le> lamports L1 (fst (ld_ata ld))" "unat amt = lamports L1 (fst (ld_ata ld)) - ?p"
    using amt l(3) by (simp_all add: sub_u_Inr_iff lamports_def)
  have res: "?k \<noteq> CancelOrderbyResolver.resolver a" using assms(4) l(1) by auto
  have d: "CancelOrderbyResolver.resolver a \<noteq> fst (ld_ata ld)" using e2(5) by blast
  let ?rk = "return_key (ld_state ld) (map_option fst (ld_dest ld))"
  let ?np = "return_backing (ld_state ld) L (fst (ld_ata ld))"
  define dest where "dest = (if o_asset_is_native (ld_state ld) then CancelOrderbyResolver.resolver a else ?rk)"
  have nd: "fst (ld_ata ld) \<noteq> dest" "?k \<noteq> dest" using n d res by (auto simp: dest_def)
  have np: "o_asset_is_native (ld_state ld) \<Longrightarrow> ?np = 0" by (simp add: return_backing_def)
  have s1: "shifted (fst (ld_ata ld)) dest ?np (lamports L) (lamports L1)"
    using e1(6) np by (auto simp: dest_def)
  note s = premium_settle [OF s1 e2(6) e3(1) [unfolded a(2)] e4(2) a(1) n(3) nd(1) d [symmetric] nd(2) res l(9)]
  have eq: "settle (lamports L) [?k, fst (ld_ata ld)] ((dest, ?np) # ps)
      = settle (lamports L) [?k, fst (ld_ata ld)] ((?rk, ?np) # ps)" for ps
    using np settle_empty_payment by (cases "o_asset_is_native (ld_state ld)") (simp_all add: dest_def)
  have t: "tok L' = tok L2" using e3(2) e4(3) by simp
  have S: "settled L L' ?k ?oa (return_tokens (ld_state ld) (CancelOrderbyResolver.creator_ata a) L ?oa)
        [(return_key (ld_state ld) (CancelOrderbyResolver.creator_ata a), return_backing (ld_state ld) L ?oa),
         (CancelOrderbyResolver.resolver a, ?p),
         (CancelOrderbyResolver.creator a, lamports L ?k + lamports L ?oa - return_backing (ld_state ld) L ?oa - ?p)]"
    using s [unfolded eq] e2(1-4) e3(3,4) e4(4,5) n(1) tokens_cong [OF t] statics_cong [OF t] l(3,6)
    by (simp add: settled_def)
  show ?thesis
    by (intro exI [where x = "ld_state ld"] exI [where x = ?p] conjI l(2) l(8) l(1) l(10) g nat S pr)
qed

text \<open>C23: \<open>cancel_order_by_resolver\<close>: after the order has expired a whitelisted resolver may
  cancel it if the maker offered a premium.  The maker gets all tokens back and all lamports
  of both accounts but the premium, which is the linear premium of the auction, capped by the
  limit the resolver asked for; the premium is the resolver's.\<close>

theorem cancel_order_by_resolver_correct:
  assumes "runtime_ok rt" "wf_ledger L" "cancel_order_by_resolver rt x a reward_limit L = Inr L'"
    and "CancelOrderbyResolver.order a \<notin> set (signers x)"
  shows "\<exists>ord prem. prog L (CancelOrderbyResolver.order a) = Some (OrderAcc ord)
    \<and> CancelOrderbyResolver.creator a = o_creator ord \<and> CancelOrderbyResolver.resolver a \<in> set (signers x)
    \<and> has_access rt L src_ID (CancelOrderbyResolver.resolver a) (CancelOrderbyResolver.resolver_access a)
    \<and> o_expiration_time ord \<le> now x \<and> 0 < o_max_cancellation_premium ord
    \<and> o_asset_is_native ord = (CancelOrderbyResolver.creator_ata a = None)
    \<and> prem = min (premium (unat (now x)) (unat (o_expiration_time ord))
        (unat (o_cancellation_auction_duration ord)) (unat (o_max_cancellation_premium ord))) (unat reward_limit)
    \<and> settled L L' (CancelOrderbyResolver.order a) (CancelOrderbyResolver.order_ata a)
        (return_tokens ord (CancelOrderbyResolver.creator_ata a) L (CancelOrderbyResolver.order_ata a))
        [(return_key ord (CancelOrderbyResolver.creator_ata a),
            return_backing ord L (CancelOrderbyResolver.order_ata a)),
         (CancelOrderbyResolver.resolver a, prem),
         (CancelOrderbyResolver.creator a, lamports L (CancelOrderbyResolver.order a)
            + lamports L (CancelOrderbyResolver.order_ata a)
            - return_backing ord L (CancelOrderbyResolver.order_ata a) - prem)]"
  using assms by (rule cancel_order_by_resolver_settles)

section \<open>Creating an order\<close>

text \<open>What the deposit leaves alone.\<close>

lemma deposit_order_funds_frame:
  assumes ok: "runtime_ok rt" and r: "deposit_order_funds rt x a native amt m ca L = Inr L'"
    and ca: "\<forall>t. ca = Some t \<longrightarrow> tok L (fst t) = Some (snd t)"
    and K: "finite K" "SrcCreate.creator a \<in> K" "SrcCreate.order_ata a \<in> K" "\<forall>t. ca = Some t \<longrightarrow> fst t \<in> K"
  shows "prog L' = prog L" "mints L' = mints L" "statics L' = statics L" "conserved K (lamports L) (lamports L')"
proof -
  let ?oa = "SrcCreate.order_ata a"
  have "prog L' = prog L \<and> mints L' = mints L \<and> statics L' = statics L \<and> conserved K (lamports L) (lamports L')"
  proof (cases native)
    case True
    with r obtain L1 where
      u: "uni_transfer rt x (NativeTransfer (SrcCreate.creator a) ?oa amt (SrcCreate.system_program a)) None L = Inr L1" and
      s: "sync_native rt (SrcCreate.token_program a) ?oa L1 = Inr L'"
      by (auto simp: deposit_order_funds_def res_simps simp del: uni_transfer.simps)
    note eu = native_transfer_effect [OF ok u]
    note es = sync_native_effect [OF runtime_okD(4) [OF ok s]]
    have "conserved K (lamports L) (lamports L1)" by (rule shifted_conserved [OF eu(1) K(1-3)])
    then show ?thesis using eu es statics_cong [OF eu(2)] lamports_cong [OF es(1)] by simp
  next
    case False
    with r obtain t where t: "ca = Some t" and
      u: "uni_transfer rt x (TokenTransfer (fst t) (SrcCreate.creator a) ?oa m amt (SrcCreate.token_program a)) None L = Inr L'"
      by (auto simp: deposit_order_funds_def res_simps simp del: uni_transfer.simps)
    note eu = token_transfer_effect [OF ok u]
    have tk: "tok L (fst t) = Some (snd t)" "fst t \<in> K" using ca K t by auto
    show ?thesis using eu(2-4) shifted_conserved [OF eu(7) [OF tk(1)] K(1) tk(2) K(3)] by simp
  qed
  then show "prog L' = prog L" "mints L' = mints L" "statics L' = statics L" "conserved K (lamports L) (lamports L')"
    by blast+
qed

text \<open>Lamports sent to a token account of wrapped SOL and counted as tokens by \<open>sync_native\<close>.\<close>

lemma wrap_native_effect:
  assumes ok: "runtime_ok rt" and u: "uni_transfer rt x (NativeTransfer c k amt sp) None L = Inr L1"
    and s: "sync_native rt tp k L1 = Inr L'" and amt: "amt \<noteq> 0" and k: "tok L k = Some ta" and b: "backed_at L k"
    and K: "finite K" "c \<in> K" "k \<in> K"
  shows "prog L' = prog L" "mints L' = mints L" "statics L' = statics L"
    and "tokens L k + unat amt \<le> tokens L' k" "lamports L k \<le> lamports L' k"
    and "conserved K (lamports L) (lamports L')"
proof -
  note eu = native_transfer_effect [OF ok u]
  note es = sync_native_effect [OF runtime_okD(4) [OF ok s]]
  have n: "c \<noteq> k" using eu(5) [OF amt] k by (auto simp: no_data_def)
  have l1: "lamports L1 k = lamports L k + unat amt" using eu(1) n by (simp add: shifted_def)
  from es(5) obtain ta' rs where ta: "tok L1 k = Some ta'" "ta_native ta' = Some rs"
    "unat rs \<le> lamports L1 k" "tokens L' = (tokens L1)(k := lamports L1 k - unat rs)" by blast
  have "ta' = ta" using ta(1) eu(2) k by simp
  then have "unat rs + tokens L k \<le> lamports L k" using b ta(2) k by (simp add: backed_at_def tokens_def)
  then show "tokens L k + unat amt \<le> tokens L' k" using ta(4) l1 by simp
  have l: "lamports L' = lamports L1" by (rule lamports_cong [OF es(1)])
  then show "lamports L k \<le> lamports L' k" using l1 by simp
  show "conserved K (lamports L) (lamports L')" unfolding l by (rule shifted_conserved [OF eu(1) K])
  show "prog L' = prog L" "mints L' = mints L" "statics L' = statics L" using eu es statics_cong [OF eu(2)] by simp_all
qed

lemma deposit_order_funds_effect:
  assumes ok: "runtime_ok rt" and r: "deposit_order_funds rt x a native amt m ca L = Inr L'" and amt: "amt \<noteq> 0"
    and oa: "tok L (SrcCreate.order_ata a) = Some oa" "ta_owner oa = SrcCreate.order a"
    and ca: "\<forall>t. ca = Some t \<longrightarrow> tok L (fst t) = Some (snd t) \<and> ta_owner (snd t) = SrcCreate.creator a"
    and ne: "SrcCreate.creator a \<noteq> SrcCreate.order a" and b: "backed_at L (SrcCreate.order_ata a)"
    and K: "finite K" "SrcCreate.creator a \<in> K" "SrcCreate.order_ata a \<in> K" "\<forall>t. ca = Some t \<longrightarrow> fst t \<in> K"
  shows "prog L' = prog L" "mints L' = mints L" "statics L' = statics L" "native \<or> ca \<noteq> None"
    and "tokens L (SrcCreate.order_ata a) + unat amt \<le> tokens L' (SrcCreate.order_ata a)"
    and "lamports L (SrcCreate.order_ata a) \<le> lamports L' (SrcCreate.order_ata a)"
    and "conserved K (lamports L) (lamports L')"
    and "\<not> native \<Longrightarrow> shifted (fst (the ca)) (SrcCreate.order_ata a) (unat amt) (tokens L) (tokens L')"
proof -
  let ?oa = "SrcCreate.order_ata a"
  have "prog L' = prog L \<and> mints L' = mints L \<and> statics L' = statics L \<and> (native \<or> ca \<noteq> None)
    \<and> tokens L ?oa + unat amt \<le> tokens L' ?oa \<and> lamports L ?oa \<le> lamports L' ?oa
    \<and> conserved K (lamports L) (lamports L')
    \<and> (\<not> native \<longrightarrow> shifted (fst (the ca)) ?oa (unat amt) (tokens L) (tokens L'))"
  proof (cases native)
    case True
    with r obtain L1 where
      u: "uni_transfer rt x (NativeTransfer (SrcCreate.creator a) ?oa amt (SrcCreate.system_program a)) None L = Inr L1" and
      s: "sync_native rt (SrcCreate.token_program a) ?oa L1 = Inr L'"
      by (auto simp: deposit_order_funds_def res_simps simp del: uni_transfer.simps)
    from wrap_native_effect [OF ok u s amt oa(1) b K(1-3)] show ?thesis using True by simp
  next
    case False
    with r obtain t where t: "ca = Some t" and
      u: "uni_transfer rt x (TokenTransfer (fst t) (SrcCreate.creator a) ?oa m amt (SrcCreate.token_program a)) None L = Inr L'"
      by (auto simp: deposit_order_funds_def res_simps simp del: uni_transfer.simps)
    have tk: "tok L (fst t) = Some (snd t)" and n: "fst t \<noteq> ?oa" and kt: "fst t \<in> K" using ca K t oa ne by auto
    note eu = token_transfer_effect [OF ok u]
    have "tokens L ?oa + unat amt \<le> tokens L' ?oa" using eu(1) n by (simp add: shifted_def)
    moreover have "lamports L ?oa \<le> lamports L' ?oa" using eu(7) [OF tk] n by (auto simp: shifted_def)
    moreover have "conserved K (lamports L) (lamports L')" by (rule shifted_conserved [OF eu(7) [OF tk] K(1) kt K(3)])
    ultimately show ?thesis using False eu(1-4) t by simp
  qed
  then show "prog L' = prog L" "mints L' = mints L" "statics L' = statics L" "native \<or> ca \<noteq> None"
    "tokens L ?oa + unat amt \<le> tokens L' ?oa" "lamports L ?oa \<le> lamports L' ?oa"
    "conserved K (lamports L) (lamports L')"
    "\<not> native \<Longrightarrow> shifted (fst (the ca)) ?oa (unat amt) (tokens L) (tokens L')" by blast+
qed

definition create_touches :: "SrcCreate \<Rightarrow> pubkey set" where
  "create_touches a = {SrcCreate.creator a, SrcCreate.order a, SrcCreate.order_ata a} \<union> set_option (SrcCreate.creator_ata a)"

text \<open>The ledger after the accounts of \<open>create\<close> are set up.\<close>

lemma SrcCreate_accounts_effect:
  assumes ok: "runtime_ok rt" and r: "SrcCreate_accounts rt x a args L = Inr (L2, m, ca, oa, bump)"
    and ns: "SrcCreate.order a \<notin> set (signers x)"
  shows "SrcCreate.creator a \<in> set (signers x)"
    and "find_program_address rt (order_seeds (get_order_hash rt (SrcCreate.creator a) (SrcCreate.mint a) args)) src_ID
      = (SrcCreate.order a, bump)"
    and "no_data L (SrcCreate.order a)" "prog L2 = (prog L)(SrcCreate.order a \<mapsto> OrderAcc zero_Order)"
    and "mints L2 = mints L" "SrcCreate.order_ata a \<noteq> SrcCreate.order a"
    and "tok L2 (SrcCreate.order_ata a) = Some (snd oa)" "ta_owner (snd oa) = SrcCreate.order a"
    and "\<forall>k. k \<noteq> SrcCreate.order_ata a \<longrightarrow> tok L2 k = tok L k"
    and "\<forall>t. ca = Some t \<longrightarrow> tok L2 (fst t) = Some (snd t) \<and> ta_owner (snd t) = SrcCreate.creator a"
    and "SrcCreate.creator_ata a = map_option fst ca"
    and "conserved (create_touches a) (lamports L) (lamports L2)"
    and "tokens L (SrcCreate.order_ata a) \<le> tokens L2 (SrcCreate.order_ata a)"
    and "SrcCreate.mint a \<noteq> native_mint rt \<Longrightarrow> tokens L2 = tokens L"
    and "SrcCreate.creator a \<noteq> SrcCreate.order_ata a \<Longrightarrow> backed_at L (SrcCreate.order_ata a) \<Longrightarrow>
      backed_at L2 (SrcCreate.order_ata a)"
    and "unat (minimum_balance rt (DISCRIMINATOR_BYTES + Order_INIT_SPACE)) \<le> lamports L2 (SrcCreate.order a)"
    and "tok L (SrcCreate.order_ata a) = None \<Longrightarrow> no_data L (SrcCreate.order_ata a)"
    and "wf_ledger L \<Longrightarrow> wf_ledger L2"
proof -
  let ?oa = "SrcCreate.order_ata a" and ?o = "SrcCreate.order a" and ?c = "SrcCreate.creator a"
  from r obtain L1 where cs: "?c \<in> set (signers x)" and
    lc: "load_token_opt L (SrcCreate.creator_ata a) = Inr ca" and
    f: "find_program_address rt (order_seeds (get_order_hash rt ?c (SrcCreate.mint a) args)) src_ID = (?o, bump)" and
    i: "init_data rt x ?c ?o (DISCRIMINATOR_BYTES + Order_INIT_SPACE) src_ID (OrderAcc zero_Order) L = Inr L1" and
    n: "init_if_needed_ata rt x ?oa ?c (SrcCreate.mint a) ?o (SrcCreate.token_program a) L1 = Inr (L2, oa)" and
    co: "check_ata_opt rt ca (SrcCreate.mint a) ?c (SrcCreate.token_program a) = Inr ()"
    by (auto simp: SrcCreate_accounts_def bindE_Inr_iff check_Inr_iff find_pda_Inr_iff)
  have ne: "?c \<noteq> ?o" using cs ns by auto
  note e = init_pair_effect [OF ok i n]
  show "?c \<in> set (signers x)" by (rule cs)
  show "find_program_address rt (order_seeds (get_order_hash rt ?c (SrcCreate.mint a) args)) src_ID = (?o, bump)" by (rule f)
  show "no_data L ?o" "prog L2 = (prog L)(?o \<mapsto> OrderAcc zero_Order)" "mints L2 = mints L" "?oa \<noteq> ?o"
    "tok L2 ?oa = Some (snd oa)" "ta_owner (snd oa) = ?o" "\<forall>k. k \<noteq> ?oa \<longrightarrow> tok L2 k = tok L k"
    "tokens L ?oa \<le> tokens L2 ?oa" "SrcCreate.mint a \<noteq> native_mint rt \<Longrightarrow> tokens L2 = tokens L"
    "?c \<noteq> ?oa \<Longrightarrow> backed_at L ?oa \<Longrightarrow> backed_at L2 ?oa"
    "unat (minimum_balance rt (DISCRIMINATOR_BYTES + Order_INIT_SPACE)) \<le> lamports L2 ?o"
    "tok L ?oa = None \<Longrightarrow> no_data L ?oa" "wf_ledger L \<Longrightarrow> wf_ledger L2" using e ne by blast+
  show "SrcCreate.creator_ata a = map_option fst ca" using lc by (simp add: load_token_opt_Inr_iff)
  show "\<forall>t. ca = Some t \<longrightarrow> tok L2 (fst t) = Some (snd t) \<and> ta_owner (snd t) = ?c"
    using lc co e(9) by (simp add: load_token_opt_Inr_iff check_ata_opt_Inr_iff)
  show "conserved (create_touches a) (lamports L) (lamports L2)" by (rule e(15)) (simp_all add: create_touches_def)
qed

text \<open>The conditions under which an order may be created at a time.\<close>

definition order_args_ok :: "runtime \<Rightarrow> pubkey \<Rightarrow> OrderArgs \<Rightarrow> u32 \<Rightarrow> bool" where
  "order_args_ok rt token args t \<longleftrightarrow>
     (oa_allow_multiple_fills args \<longrightarrow> 1 < parts_amount (oa_hashlock args))
     \<and> t < oa_expiration_time args \<and> oa_amount args \<noteq> 0 \<and> oa_safety_deposit args \<noteq> 0
     \<and> oa_safety_deposit args \<le> minimum_balance rt (EscrowSrc_INIT_SPACE + DISCRIMINATOR_BYTES)
     \<and> (oa_asset_is_native args \<longrightarrow> token = native_mint rt)"

lemma src_create_Inr:
  assumes "src_create rt x a args dst L = Inr L'"
  obtains L1 m ca oa bump L2 where
    "SrcCreate_accounts rt x a args L = Inr (L1, m, ca, oa, bump)"
    "oa_max_cancellation_premium args \<le> lam L1 (SrcCreate.order_ata a)"
    "order_args_ok rt (SrcCreate.mint a) args (now x)"
    "deposit_order_funds rt x a (oa_asset_is_native args) (oa_amount args) m ca L1 = Inr L2"
    "L' = set_data (SrcCreate.order a)
       (OrderAcc (new_order rt x (SrcCreate.creator a) (SrcCreate.mint a) args bump)) L2"
  using assms
  by (auto simp: src_create_def order_args_ok_def bindE_Inr_iff require_Inr_iff split: prod.splits)

lemma src_create_frame:
  assumes ok: "runtime_ok rt" and r: "src_create rt x a args dst L = Inr L'"
    and ns: "SrcCreate.order a \<notin> set (signers x)"
  obtains bump where "no_data L (SrcCreate.order a)" "order_args_ok rt (SrcCreate.mint a) args (now x)"
    "find_program_address rt (order_seeds (get_order_hash rt (SrcCreate.creator a) (SrcCreate.mint a) args)) src_ID
      = (SrcCreate.order a, bump)"
    "prog L' = (prog L)(SrcCreate.order a \<mapsto>
      OrderAcc (new_order rt x (SrcCreate.creator a) (SrcCreate.mint a) args bump))"
    "conserved (create_touches a) (lamports L) (lamports L')" "wf_ledger L \<Longrightarrow> wf_ledger L'"
proof -
  from r obtain L1 m ca oa bump L2 where
    ac: "SrcCreate_accounts rt x a args L = Inr (L1, m, ca, oa, bump)" and
    g: "order_args_ok rt (SrcCreate.mint a) args (now x)" and
    dp: "deposit_order_funds rt x a (oa_asset_is_native args) (oa_amount args) m ca L1 = Inr L2" and
    L': "L' = set_data (SrcCreate.order a)
       (OrderAcc (new_order rt x (SrcCreate.creator a) (SrcCreate.mint a) args bump)) L2"
    by (rule src_create_Inr)
  note e = SrcCreate_accounts_effect [OF ok ac ns]
  have ca: "\<forall>t. ca = Some t \<longrightarrow> tok L1 (fst t) = Some (snd t)" using e(10) by simp
  have K: "finite (create_touches a)" "SrcCreate.creator a \<in> create_touches a"
    "SrcCreate.order_ata a \<in> create_touches a" "\<forall>t. ca = Some t \<longrightarrow> fst t \<in> create_touches a"
    using e(11) by (auto simp: create_touches_def)
  note d = deposit_order_funds_frame [OF ok dp ca K]
  have l: "lamports L' = lamports L2" by (rule lamports_cong) (simp add: L')
  have C: "conserved (create_touches a) (lamports L) (lamports L')" using conserved_trans [OF e(12) d(4)] l by simp
  have P: "prog L' = (prog L)(SrcCreate.order a \<mapsto>
      OrderAcc (new_order rt x (SrcCreate.creator a) (SrcCreate.mint a) args bump))"
    using d(1) e(4) by (simp add: L')
  have W: "wf_ledger L'" if "wf_ledger L"
  proof (rule wf_ledger_sub [OF e(18) [OF that]])
    show "dom (prog L') \<subseteq> dom (prog L1)" using e(4) by (auto simp: P)
    show "dom (tok L') \<subseteq> dom (tok L1)" "mints L' = mints L1" using statics_dom [OF d(3)] d(2) by (simp_all add: L')
  qed
  show ?thesis by (rule that [OF e(3) g e(2) P C W])
qed

text \<open>C12: \<open>create\<close>: the maker signs, the order's address is the one its parameters hash to and
  was unused, the parameters pass every check, and the order is recorded with all of its
  amount remaining.  Its token account holds at least the order's amount more than before and
  lamports for the promised cancellation premium, and the maker has paid for everything:
  lamports only moved among the maker, its token account and the two new accounts.\<close>

theorem src_create_correct:
  assumes "runtime_ok rt" "backed_at L (SrcCreate.order_ata a)" "src_create rt x a args dst L = Inr L'"
    and "SrcCreate.order a \<notin> set (signers x)" "SrcCreate.order_ata a \<notin> set (signers x)"
  shows "SrcCreate.creator a \<in> set (signers x) \<and> no_data L (SrcCreate.order a)
    \<and> order_args_ok rt (SrcCreate.mint a) args (now x)
    \<and> (\<exists>bump. find_program_address rt
          (order_seeds (get_order_hash rt (SrcCreate.creator a) (SrcCreate.mint a) args)) src_ID
          = (SrcCreate.order a, bump)
        \<and> prog L' = (prog L)(SrcCreate.order a \<mapsto>
            OrderAcc (new_order rt x (SrcCreate.creator a) (SrcCreate.mint a) args bump)))
    \<and> tokens L (SrcCreate.order_ata a) + unat (oa_amount args) \<le> tokens L' (SrcCreate.order_ata a)
    \<and> (SrcCreate.mint a \<noteq> native_mint rt \<longrightarrow> SrcCreate.creator_ata a \<noteq> None
        \<and> shifted (the (SrcCreate.creator_ata a)) (SrcCreate.order_ata a) (unat (oa_amount args)) (tokens L) (tokens L'))
    \<and> unat (oa_max_cancellation_premium args) \<le> lamports L' (SrcCreate.order_ata a)
    \<and> conserved (create_touches a) (lamports L) (lamports L')"
proof -
  from assms(3) obtain L1 m ca oa bump L2 where
    ac: "SrcCreate_accounts rt x a args L = Inr (L1, m, ca, oa, bump)" and
    mp: "oa_max_cancellation_premium args \<le> lam L1 (SrcCreate.order_ata a)" and
    ok: "order_args_ok rt (SrcCreate.mint a) args (now x)" and
    dp: "deposit_order_funds rt x a (oa_asset_is_native args) (oa_amount args) m ca L1 = Inr L2" and
    L': "L' = set_data (SrcCreate.order a)
       (OrderAcc (new_order rt x (SrcCreate.creator a) (SrcCreate.mint a) args bump)) L2"
    by (rule src_create_Inr)
  note ea = SrcCreate_accounts_effect [OF assms(1) ac assms(4)]
  have c1: "SrcCreate.creator a \<noteq> SrcCreate.order a" "SrcCreate.creator a \<noteq> SrcCreate.order_ata a"
    using ea(1) assms(4,5) by auto
  have amt: "oa_amount args \<noteq> 0" using ok by (simp add: order_args_ok_def)
  have K: "finite (create_touches a)" "SrcCreate.creator a \<in> create_touches a"
    "SrcCreate.order_ata a \<in> create_touches a" "\<forall>t. ca = Some t \<longrightarrow> fst t \<in> create_touches a"
    using ea(11) by (auto simp: create_touches_def)
  note ed = deposit_order_funds_effect [OF assms(1) dp amt ea(7,8,10) c1(1) ea(15) [OF c1(2) assms(2)] K]
  have l: "lamports L' = lamports L2" "tokens L' = tokens L2"
    by (simp_all add: L' lamports_def tokens_def fun_eq_iff)
  have P: "prog L' = (prog L)(SrcCreate.order a \<mapsto>
      OrderAcc (new_order rt x (SrcCreate.creator a) (SrcCreate.mint a) args bump))"
    using ed(1) ea(4) by (simp add: L')
  have T: "tokens L (SrcCreate.order_ata a) + unat (oa_amount args) \<le> tokens L' (SrcCreate.order_ata a)"
    using ed(5) ea(13) l by simp
  have S: "SrcCreate.creator_ata a \<noteq> None
      \<and> shifted (the (SrcCreate.creator_ata a)) (SrcCreate.order_ata a) (unat (oa_amount args)) (tokens L) (tokens L')"
    if "SrcCreate.mint a \<noteq> native_mint rt"
  proof -
    have n: "\<not> oa_asset_is_native args" using ok that by (auto simp: order_args_ok_def)
    with ed(4) ea(11) obtain t where t: "ca = Some t" "SrcCreate.creator_ata a = Some (fst t)" by auto
    with ed(8) [OF n] ea(14) [OF that] l show ?thesis by simp
  qed
  have M: "unat (oa_max_cancellation_premium args) \<le> lamports L' (SrcCreate.order_ata a)"
    using mp ed(6) l by (simp add: lamports_def word_le_nat_alt)
  have C: "conserved (create_touches a) (lamports L) (lamports L')"
    using conserved_trans [OF ea(12) ed(7)] l by simp
  show ?thesis using ea(1-3) ok P T S M C by blast
qed

section \<open>Examples\<close>

definition demo_order :: Order where
  "demo_order = \<lparr>o_order_hash = [31], o_hashlock = [41], o_creator = [11], o_token = [6], o_amount = 100,
     o_remaining_amount = 100, o_safety_deposit = 7, o_timelocks = (85899345930, 171798691870, 0, 0),
     o_expiration_time = 2000, o_asset_is_native = False, o_dst_amount = (50, 0, 0, 0),
     o_dutch_auction_data_hash = [1], o_max_cancellation_premium = 40, o_cancellation_auction_duration = 100,
     o_allow_multiple_fills = False, o_bump = 255\<rparr>"

definition demo_dst_params :: DstChainParams where
  "demo_dst_params = \<lparr>chain_id = 1, maker_address = zero32, dst_token = zero32, dst_safety_deposit = 9\<rparr>"

definition demo_order_key :: pubkey where
  "demo_order_key = [111, 114, 100, 101, 114, 31]"

definition demo_resolver_key :: pubkey where
  "demo_resolver_key = src_ID @ [13]"

definition demo_order_account :: "pubkey \<Rightarrow> u64 \<Rightarrow> TokenAccount" where
  "demo_order_account owner amount =
     \<lparr>ta_mint = [6], ta_owner = owner, ta_amount = amount, ta_native = None, ta_program = [2]\<rparr>"

definition demo_order_ledger :: "Order \<Rightarrow> ledger" where
  "demo_order_ledger ord = \<lparr>lam = (\<lambda>k. 1000),
     tok = [200 # demo_order_key @ [6] \<mapsto> demo_order_account demo_order_key 100,
            [200, 11, 6] \<mapsto> demo_order_account [11] 500],
     mints = [[6] \<mapsto> \<lparr>m_decimals = 9, m_program = [2]\<rparr>],
     prog = [demo_order_key \<mapsto> OrderAcc ord, demo_resolver_key \<mapsto> ResolverAcc \<lparr>ra_bump = 255\<rparr>]\<rparr>"

definition demo_maker_ledger :: ledger where
  "demo_maker_ledger = \<lparr>lam = (\<lambda>k. 1000), tok = [[200, 11, 6] \<mapsto> demo_order_account [11] 500],
     mints = [[6] \<mapsto> \<lparr>m_decimals = 9, m_program = [2]\<rparr>], prog = (\<lambda>k. None)\<rparr>"

definition demo_order_exec :: "64 word \<Rightarrow> exec" where
  "demo_order_exec t = \<lparr>program_id = src_ID, signers = [[11], [13]], unix_timestamp = t\<rparr>"

definition demo_create :: SrcCreate where
  "demo_create = \<lparr>SrcCreate.creator = [11], SrcCreate.mint = [6], SrcCreate.creator_ata = Some [200, 11, 6],
     SrcCreate.order = concat (order_seeds (get_order_hash demo_runtime [11] [6] sample_args)),
     SrcCreate.order_ata = 200 # concat (order_seeds (get_order_hash demo_runtime [11] [6] sample_args)) @ [6],
     SrcCreate.associated_token_program = [1], SrcCreate.token_program = [2], SrcCreate.rent = [4],
     SrcCreate.system_program = [0]\<rparr>"

definition demo_cancel_order :: CancelOrder where
  "demo_cancel_order = \<lparr>CancelOrder.creator = [11], CancelOrder.mint = [6], CancelOrder.order = demo_order_key,
     CancelOrder.order_ata = 200 # demo_order_key @ [6], CancelOrder.creator_ata = Some [200, 11, 6],
     CancelOrder.token_program = [2], CancelOrder.system_program = [0]\<rparr>"

definition demo_cancel_by_resolver :: CancelOrderbyResolver where
  "demo_cancel_by_resolver = \<lparr>CancelOrderbyResolver.resolver = [13],
     CancelOrderbyResolver.resolver_access = demo_resolver_key, CancelOrderbyResolver.creator = [11],
     CancelOrderbyResolver.mint = [6], CancelOrderbyResolver.order = demo_order_key,
     CancelOrderbyResolver.order_ata = 200 # demo_order_key @ [6],
     CancelOrderbyResolver.creator_ata = Some [200, 11, 6],
     CancelOrderbyResolver.token_program = [2], CancelOrderbyResolver.system_program = [0]\<rparr>"

lemma demo_order_seeds:
  "concat (order_seeds h) = 111 # 114 # 100 # 101 # 114 # h"
  "concat (resolver_seeds src_ID [13]) = demo_resolver_key"
  by (simp_all add: order_seeds_def ORDER_SEED_def ascii_def resolver_seeds_def demo_resolver_key_def)

lemma demo_order_keys:
  "demo_resolver_key \<noteq> 111 # ks" "demo_resolver_key \<noteq> 200 # ks" "demo_resolver_key \<noteq> [k]"
  by (simp_all add: demo_resolver_key_def src_ID_def)

lemma demo_order_exec_sel:
  "program_id (demo_order_exec t) = src_ID" "signers (demo_order_exec t) = [[11], [13]]"
  "now (demo_order_exec t) = ucast t"
  by (simp_all add: demo_order_exec_def now_def get_current_timestamp_def)

lemmas demo_order_simps = check_entry_def check_signer_def check_key_def check_pda_def check_ata_def check_ata_opt_def
  check_token_program_def check_system_program_def check_associated_token_program_def check_rent_def
  find_pda_def load_Order_def load_ResolverAccess_def load_mint_def
  load_token_def load_token_opt_def Let_def native_part_def order_signer_seeds_def cpi_signers_def
  map_filter_simps demo_order_seeds demo_order_keys demo_order_keys [symmetric] demo_order_exec_sel
  demo_order_ledger_def demo_order_account_def demo_order_key_def effect_defs

lemma demo_create_runs:
  "\<exists>L'. src_create demo_runtime (demo_order_exec 500) demo_create sample_args demo_dst_params demo_maker_ledger = Inr L'"
  by (simp add: src_create_def SrcCreate_accounts_def demo_create_def init_data_def init_if_needed_ata_def
      deposit_order_funds_def sample_args_def demo_maker_ledger_def demo_order_simps)

lemma demo_cancel_order_runs:
  "\<exists>L'. cancel_order demo_runtime (demo_order_exec 500) demo_cancel_order (demo_order_ledger demo_order) = Inr L'"
  by (simp add: cancel_order_def CancelOrder_accounts_def return_order_tokens_def demo_cancel_order_def
      demo_order_def demo_order_simps)

lemma demo_premium: "calculate_premium 2050 2000 100 40 = Inr 20"
  by (simp add: calculate_premium_cases premium_def)

lemma demo_cancel_by_resolver_runs:
  "\<exists>L'. cancel_order_by_resolver demo_runtime (demo_order_exec 2050) demo_cancel_by_resolver 15
    (demo_order_ledger demo_order) = Inr L'"
  by (simp add: cancel_order_by_resolver_def CancelOrderbyResolver_accounts_def return_order_tokens_def
      demo_cancel_by_resolver_def demo_order_def demo_order_simps demo_premium sub_u_def)

theorem src_create_correct_witness:
  "\<exists>L'. src_create demo_runtime (demo_order_exec 500) demo_create sample_args demo_dst_params demo_maker_ledger = Inr L'
    \<and> 100 \<le> tokens L' (SrcCreate.order_ata demo_create) \<and> tokens L' [200, 11, 6] = 400"
proof -
  obtain L' where r: "src_create demo_runtime (demo_order_exec 500) demo_create sample_args demo_dst_params demo_maker_ledger = Inr L'"
    using demo_create_runs by blast
  have k: "SrcCreate.order_ata demo_create = 200 # 111 # 114 # 100 # 101 # 114 # get_order_hash demo_runtime [11] [6] sample_args @ [6]"
    "SrcCreate.creator_ata demo_create = Some [200, 11, 6]" "SrcCreate.mint demo_create = [6]"
    by (simp_all add: demo_create_def demo_order_seeds)
  have b: "backed_at demo_maker_ledger (SrcCreate.order_ata demo_create)"
    by (simp add: backed_at_def k demo_maker_ledger_def)
  have s: "SrcCreate.order demo_create \<notin> set (signers (demo_order_exec 500))"
    "SrcCreate.order_ata demo_create \<notin> set (signers (demo_order_exec 500))"
    by (simp_all add: demo_create_def demo_order_exec_sel demo_order_seeds)
  note p = src_create_correct [OF demo_runtime_ok b r s]
  have "tokens demo_maker_ledger [200, 11, 6] = 500"
    by (simp add: tokens_def demo_maker_ledger_def demo_order_account_def)
  moreover have "oa_amount sample_args = 100" by (simp add: sample_args_def)
  ultimately have "100 \<le> tokens L' (SrcCreate.order_ata demo_create) \<and> tokens L' [200, 11, 6] = 400"
    using p by (simp add: k shifted_def)
  with r show ?thesis by blast
qed

lemma demo_order_ledger_wf: "wf_ledger (demo_order_ledger ord)"
  by (auto simp: wf_ledger_def demo_order_ledger_def demo_order_key_def demo_resolver_key_def src_ID_def)

lemma demo_order_facts:
  "prog (demo_order_ledger ord) demo_order_key = Some (OrderAcc ord)"
  "tokens (demo_order_ledger ord) (200 # demo_order_key @ [6]) = 100"
  "backing (demo_order_ledger ord) (200 # demo_order_key @ [6]) = 0" "lamports (demo_order_ledger ord) k = 1000"
  by (simp_all add: demo_order_ledger_def demo_order_key_def demo_order_keys demo_order_keys [symmetric] tokens_def backing_def lamports_def
      demo_order_account_def native_part_def)

lemmas demo_return_simps = demo_order_facts return_tokens_def return_key_def return_backing_def

theorem cancel_order_correct_witness:
  "\<exists>L'. cancel_order demo_runtime (demo_order_exec 500) demo_cancel_order (demo_order_ledger demo_order) = Inr L'
    \<and> settled (demo_order_ledger demo_order) L' demo_order_key (200 # demo_order_key @ [6])
        [([200, 11, 6], 100)] [([200, 11, 6], 0), ([11], 2000)]"
proof -
  obtain L' where r: "cancel_order demo_runtime (demo_order_exec 500) demo_cancel_order (demo_order_ledger demo_order) = Inr L'"
    using demo_cancel_order_runs by blast
  have "o_asset_is_native demo_order = False" by (simp add: demo_order_def)
  with cancel_order_correct [OF demo_runtime_ok demo_order_ledger_wf r]
  have "settled (demo_order_ledger demo_order) L' demo_order_key (200 # demo_order_key @ [6])
        [([200, 11, 6], 100)] [([200, 11, 6], 0), ([11], 2000)]"
    by (auto simp: demo_cancel_order_def demo_return_simps)
  with r show ?thesis by blast
qed

theorem cancel_order_by_resolver_correct_witness:
  "\<exists>L'. cancel_order_by_resolver demo_runtime (demo_order_exec 2050) demo_cancel_by_resolver 15
      (demo_order_ledger demo_order) = Inr L'
    \<and> settled (demo_order_ledger demo_order) L' demo_order_key (200 # demo_order_key @ [6])
        [([200, 11, 6], 100)] [([200, 11, 6], 0), ([13], 15), ([11], 1985)]"
proof -
  obtain L' where r: "cancel_order_by_resolver demo_runtime (demo_order_exec 2050) demo_cancel_by_resolver 15
      (demo_order_ledger demo_order) = Inr L'" using demo_cancel_by_resolver_runs by blast
  have s: "CancelOrderbyResolver.order demo_cancel_by_resolver \<notin> set (signers (demo_order_exec 2050))"
    by (simp add: demo_cancel_by_resolver_def demo_order_exec_sel demo_order_key_def)
  have "o_asset_is_native demo_order = False" "o_expiration_time demo_order = 2000"
    "o_cancellation_auction_duration demo_order = 100" "o_max_cancellation_premium demo_order = 40"
    by (simp_all add: demo_order_def)
  with cancel_order_by_resolver_correct [OF demo_runtime_ok demo_order_ledger_wf r s]
  have "settled (demo_order_ledger demo_order) L' demo_order_key (200 # demo_order_key @ [6])
        [([200, 11, 6], 100)] [([200, 11, 6], 0), ([13], 15), ([11], 1985)]"
    by (auto simp: demo_cancel_by_resolver_def demo_return_simps demo_order_exec_sel premium_def)
  with r show ?thesis by blast
qed

end
