(* ===== verification/Fills.thy ===== *)
theory Fills
  imports Errors
begin

text \<open>
  Partial fills of an order (\<open>is_valid_partial_fill\<close> of
  \<open>programs/cross-chain-escrow-src/src/lib.rs\<close>).  An order split in \<open>parts_amount\<close> parts has
  one secret more than parts; the secret a fill must use depends on the part in which the
  cumulative fill ends.  The lemmas give the exact condition under which the 64-bit
  computation does not panic, and show that along any sequence of accepted fills the
  indices of the secrets strictly increase: no secret is used twice.
\<close>

definition is_valid_partial_fill :: "u64 \<Rightarrow> u64 \<Rightarrow> u64 \<Rightarrow> u64 \<Rightarrow> u64 \<Rightarrow> bool res" where
  "is_valid_partial_fill making_amount remaining_making_amount order_making_amount parts_amount validated_index =
     bindE (sub_u order_making_amount remaining_making_amount) (\<lambda>filled.
     bindE (add_u filled making_amount) (\<lambda>upto.
     bindE (sub_u upto 1) (\<lambda>last.
     bindE (mul_u last parts_amount) (\<lambda>scaled.
     bindE (div_u scaled order_making_amount) (\<lambda>calculated_index.
       if remaining_making_amount = making_amount then
         bindE (add_u calculated_index 1) (\<lambda>next.
         Inr (next = validated_index))
       else if order_making_amount \<noteq> remaining_making_amount then
         bindE (sub_u order_making_amount remaining_making_amount) (\<lambda>prev_filled.
         bindE (sub_u prev_filled 1) (\<lambda>prev_last.
         bindE (mul_u prev_last parts_amount) (\<lambda>prev_scaled.
         bindE (div_u prev_scaled order_making_amount) (\<lambda>prev_calculated_index.
           if calculated_index = prev_calculated_index then Inr False
           else Inr (calculated_index = validated_index)))))
       else Inr (calculated_index = validated_index))))))"

section \<open>The part a cumulative fill ends in\<close>

definition part_of :: "nat \<Rightarrow> nat \<Rightarrow> nat \<Rightarrow> nat" where
  "part_of tot parts filled = (filled - 1) * parts div tot"

lemma part_of_mono: "f \<le> g \<Longrightarrow> part_of tot parts f \<le> part_of tot parts g"
  unfolding part_of_def by (intro div_le_mono mult_le_mono diff_le_mono) simp_all

lemma part_of_less: "0 < f \<Longrightarrow> f \<le> tot \<Longrightarrow> 0 < parts \<Longrightarrow> part_of tot parts f < parts"
proof -
  assume a: "0 < f" "f \<le> tot" "0 < parts"
  then have "(f - 1) * parts < tot * parts" by simp
  with a show ?thesis unfolding part_of_def by (simp add: less_mult_imp_div_less mult.commute)
qed

lemma part_of_total: "0 < parts \<Longrightarrow> parts \<le> tot \<Longrightarrow> part_of tot parts tot = parts - 1"
proof -
  assume a: "0 < parts" "parts \<le> tot"
  have "(tot - 1) * parts = (tot - parts) + (parts - 1) * tot"
    using a by (cases parts; cases tot) (simp_all add: algebra_simps)
  moreover have "((tot - parts) + (parts - 1) * tot) div tot = parts - 1"
    using a by (subst div_mult_self1) simp_all
  ultimately show ?thesis unfolding part_of_def by simp
qed

text \<open>The acceptance rule on natural numbers, and the range in which the code computes it.\<close>

definition fill_ok :: "nat \<Rightarrow> nat \<Rightarrow> nat \<Rightarrow> nat \<Rightarrow> nat \<Rightarrow> bool" where
  "fill_ok tot parts filled making i \<longleftrightarrow>
     (if filled + making = tot then i = part_of tot parts tot + 1
      else if filled = 0 then i = part_of tot parts making
      else part_of tot parts (filled + making) \<noteq> part_of tot parts filled
         \<and> i = part_of tot parts (filled + making))"

definition fill_fits :: "nat \<Rightarrow> nat \<Rightarrow> nat \<Rightarrow> nat \<Rightarrow> bool" where
  "fill_fits tot parts filled making \<longleftrightarrow>
     0 < tot \<and> 0 < filled + making \<and> (filled + making - 1) * parts < 2 ^ 64"

text \<open>The three steps by which the code computes a part, and the part as a word.\<close>

definition word_part :: "u64 \<Rightarrow> u64 \<Rightarrow> u64 \<Rightarrow> u64" where
  "word_part tot parts filled = (filled - 1) * parts div tot"

lemma part_steps:
  "bindE (sub_u v 1) (\<lambda>l. bindE (mul_u l parts) (\<lambda>s. bindE (div_u s tot) k)) =
    (if 0 < unat v \<and> (unat v - 1) * unat parts < 2 ^ 64 \<and> 0 < unat tot then k (word_part tot parts v) else Inl Panic)"
  by (cases "0 < unat v") (auto simp: sub_u_def mul_u_def div_u_def expect_def checked_mul_def checked_div_def word_part_def
      unat_sub_ok Suc_le_eq word_le_nat_alt unat_eq_0)

lemma unat_word_part:
  assumes "0 < unat v" "(unat v - 1) * unat parts < 2 ^ 64"
  shows "unat (word_part tot parts v) = part_of (unat tot) (unat parts) (unat v)"
  using assms by (simp add: word_part_def part_of_def unat_div_distrib unat_mult_ok unat_sub_ok Suc_le_eq)

text \<open>The last part is not the largest word, so its successor does not overflow.\<close>

lemma word_part_Suc:
  assumes "0 < unat v" "(unat v - 1) * unat parts < 2 ^ 64" "unat v = unat tot"
  shows "add_u (word_part tot parts v) 1 = Inr (word_part tot parts v + 1)"
    "unat (word_part tot parts v + 1) = part_of (unat tot) (unat parts) (unat v) + 1"
proof -
  have "unat (word_part tot parts v) + 1 < 2 ^ 64"
  proof (cases "unat parts = 0")
    case False
    then have "unat (word_part tot parts v) < unat parts"
      using assms by (simp add: unat_word_part [OF assms(1,2)] part_of_less)
    then show ?thesis using unat_less_2p [of parts] by simp
  qed (simp add: unat_word_part [OF assms(1,2)] part_of_def)
  then show "add_u (word_part tot parts v) 1 = Inr (word_part tot parts v + 1)"
    "unat (word_part tot parts v + 1) = part_of (unat tot) (unat parts) (unat v) + 1"
    by (simp_all add: unat_add_ok num_simps unat_word_part [OF assms(1,2)])
qed

lemma is_valid_partial_fill_eq:
  assumes "unat making \<le> unat remaining" "unat remaining \<le> unat order"
  shows "is_valid_partial_fill making remaining order parts i =
     (if fill_fits (unat order) (unat parts) (unat order - unat remaining) (unat making)
      then Inr (fill_ok (unat order) (unat parts) (unat order - unat remaining) (unat making) (unat i))
      else Inl Panic)"
proof -
  define filled where "filled = order - remaining"
  have f: "unat filled = unat order - unat remaining" and sub: "sub_u order remaining = Inr filled"
    using assms by (simp_all add: filled_def unat_sub word_le_nat_alt num_simps)
  have up: "unat (filled + making) = unat filled + unat making" "add_u filled making = Inr (filled + making)"
    using assms unat_less_2p [of order] by (simp_all add: unat_add_ok num_simps f)
  show ?thesis
  proof (cases "fill_fits (unat order) (unat parts) (unat filled) (unat making)")
    case False
    then show ?thesis by (auto simp: is_valid_partial_fill_def sub up part_steps fill_fits_def f)
  next
    case True
    then have fit: "0 < unat (filled + making)" "(unat (filled + making) - 1) * unat parts < 2 ^ 64" "0 < unat order"
      by (simp_all add: fill_fits_def up)
    note c = unat_word_part [OF fit(1,2), of order, unfolded up(1)]
    note run = is_valid_partial_fill_def sub up(2) part_steps
    have "is_valid_partial_fill making remaining order parts i =
        Inr (fill_ok (unat order) (unat parts) (unat filled) (unat making) (unat i))"
    proof (cases "remaining = making")
      case rm: True
      then have whole: "unat (filled + making) = unat order" using assms by (simp add: f up(1))
      note n = word_part_Suc [OF fit(1,2) whole]
      show ?thesis using rm fit whole n by (auto simp: run fill_ok_def up(1) word_eq_iff_unat)
    next
      case rm: False
      then have nw: "unat filled + unat making \<noteq> unat order" using assms by (auto simp: f word_eq_iff_unat)
      show ?thesis
      proof (cases "order = remaining")
        case True
        then have z: "filled = 0" by (simp add: filled_def)
        show ?thesis using True rm nw fit c by (auto simp: z run up(2) [unfolded z] fill_ok_def word_eq_iff_unat)
      next
        case False
        then have pos: "0 < unat filled" using assms by (auto simp: f word_eq_iff_unat)
        have "(unat filled - 1) * unat parts \<le> (unat (filled + making) - 1) * unat parts"
          unfolding up(1) by (intro mult_le_mono1 diff_le_mono) simp
        then have pfit: "(unat filled - 1) * unat parts < 2 ^ 64" using fit(2) by (rule le_less_trans)
        note pc = unat_word_part [OF pos pfit, of order]
        from False rm nw pos pfit fit c pc show ?thesis by (auto simp: run fill_ok_def word_eq_iff_unat)
      qed
    qed
    with True show ?thesis by (simp add: f)
  qed
qed

section \<open>Sequences of fills\<close>

text \<open>The fills \<open>create_escrow\<close> accepts one after another, each an amount and the index of its
  secret: a fill is at most what remains, passes \<open>is_valid_partial_fill\<close>, and the fill that
  takes all that remains closes the order.\<close>

fun accepted_fills :: "u64 \<Rightarrow> u64 \<Rightarrow> u64 \<Rightarrow> (u64 \<times> u64) list \<Rightarrow> bool" where
  "accepted_fills order parts remaining [] = True"
| "accepted_fills order parts remaining ((making, i) # fs) =
     (making \<le> remaining \<and> is_valid_partial_fill making remaining order parts i = Inr True
      \<and> (if remaining = making then fs = [] else accepted_fills order parts (remaining - making) fs))"

lemma fill_ok_pos: "fill_ok tot parts filled making i \<Longrightarrow> 0 < filled + making \<Longrightarrow> filled + making \<le> tot
    \<Longrightarrow> filled < tot \<Longrightarrow> 0 < making"
  by (cases making) (auto simp: fill_ok_def split: if_splits)

text \<open>A fill uses an index above the part of the cumulative fill before it, and, unless it
  completes the order, the part of the cumulative fill after it.\<close>

lemma fill_ok_index:
  assumes "fill_ok tot parts filled making i" "filled + making \<le> tot" "0 < filled"
  shows "part_of tot parts filled < i"
  using assms part_of_mono [of filled "filled + making" tot parts] part_of_mono [of filled tot tot parts]
  by (auto simp: fill_ok_def split: if_splits)

lemma fill_ok_index_part:
  assumes "fill_ok tot parts filled making i" "filled + making < tot"
  shows "i = part_of tot parts (filled + making)"
  using assms by (auto simp: fill_ok_def split: if_splits)

lemma accepted_fills_Cons:
  assumes "accepted_fills order parts remaining ((making, i) # fs)" "unat remaining \<le> unat order"
  shows "unat making \<le> unat remaining"
    and "fill_ok (unat order) (unat parts) (unat order - unat remaining) (unat making) (unat i)"
    and "unat (remaining - making) = unat remaining - unat making"
    and "0 < unat remaining \<Longrightarrow> 0 < unat making"
proof -
  show le: "unat making \<le> unat remaining" using assms(1) by (simp add: word_le_nat_alt)
  have ok: "fill_fits (unat order) (unat parts) (unat order - unat remaining) (unat making)
      \<and> fill_ok (unat order) (unat parts) (unat order - unat remaining) (unat making) (unat i)"
    using assms le by (auto simp: is_valid_partial_fill_eq split: if_splits)
  then show "fill_ok (unat order) (unat parts) (unat order - unat remaining) (unat making) (unat i)" ..
  show "unat (remaining - making) = unat remaining - unat making" using le by (rule unat_sub_ok)
  assume "0 < unat remaining"
  with ok assms(2) le show "0 < unat making"
    by (intro fill_ok_pos [of "unat order" "unat parts" "unat order - unat remaining" "unat making" "unat i"])
      (auto simp: fill_fits_def)
qed

lemma accepted_fills_above:
  assumes "accepted_fills order parts remaining fs" "unat remaining < unat order"
    and "f \<in> set fs"
  shows "part_of (unat order) (unat parts) (unat order - unat remaining) < unat (snd f)"
  using assms
proof (induction fs arbitrary: remaining)
  case (Cons g fs)
  obtain making i where g: "g = (making, i)" by (cases g)
  note c = accepted_fills_Cons [OF Cons.prems(1) [unfolded g] less_imp_le [OF Cons.prems(2)]]
  have first: "part_of (unat order) (unat parts) (unat order - unat remaining) < unat i"
    by (rule fill_ok_index [OF c(2)]) (use c(1) Cons.prems(2) in linarith)+
  show ?case
  proof (cases "f = g")
    case False
    then have f: "f \<in> set fs" using Cons.prems(3) by simp
    with Cons.prems(1) have rest: "remaining \<noteq> making" "accepted_fills order parts (remaining - making) fs"
      by (auto simp: g split: if_splits)
    have "part_of (unat order) (unat parts) (unat order - unat (remaining - making)) < unat (snd f)"
      using rest(2) Cons.prems(2) f c(1,3) by (intro Cons.IH) simp_all
    moreover have "part_of (unat order) (unat parts) (unat order - unat remaining)
        \<le> part_of (unat order) (unat parts) (unat order - unat (remaining - making))"
      using c(3) by (intro part_of_mono) simp
    ultimately show ?thesis by linarith
  qed (simp add: g first)
qed simp

lemma accepted_fills_sorted:
  assumes "accepted_fills order parts remaining fs" "remaining \<le> order" "remaining \<noteq> 0"
  shows "sorted_wrt (<) (map snd fs) \<and> (\<forall>(making, i) \<in> set fs. making \<noteq> 0)"
  using assms
proof (induction fs arbitrary: remaining)
  case (Cons g fs)
  obtain making i where g: "g = (making, i)" by (cases g)
  have le: "unat remaining \<le> unat order" using Cons.prems(2) by (simp add: word_le_nat_alt)
  note c = accepted_fills_Cons [OF Cons.prems(1) [unfolded g] le]
  have pos: "0 < unat making" using c(4) Cons.prems(3) by (simp add: unat_gt_0)
  show ?case
  proof (cases "fs = []")
    case True
    with pos show ?thesis by (auto simp: g)
  next
    case False
    with Cons.prems(1) have rest: "remaining \<noteq> making" "accepted_fills order parts (remaining - making) fs"
      by (auto simp: g split: if_splits)
    have lt: "unat making < unat remaining" using c(1) rest(1) by (simp add: word_eq_iff_unat)
    have IH: "sorted_wrt (<) (map snd fs) \<and> (\<forall>(making, i) \<in> set fs. making \<noteq> 0)"
      by (rule Cons.IH [OF rest(2)]) (use lt le in \<open>auto simp: word_le_nat_alt word_eq_iff_unat c(3)\<close>)
    have "unat i < unat (snd f)" if "f \<in> set fs" for f
    proof -
      have "unat i = part_of (unat order) (unat parts) (unat order - unat remaining + unat making)"
        by (rule fill_ok_index_part [OF c(2)]) (use lt le in linarith)
      also have "\<dots> = part_of (unat order) (unat parts) (unat order - unat (remaining - making))"
        using lt le c(3) by (intro arg_cong [of _ _ "part_of _ _"]) simp
      also have "\<dots> < unat (snd f)"
        by (rule accepted_fills_above [OF rest(2) _ that]) (use lt le pos c(3) in linarith)
      finally show ?thesis .
    qed
    then have "\<forall>f \<in> set fs. i < snd f" by (simp add: word_less_nat_alt)
    with IH pos show ?thesis by (auto simp: g)
  qed
qed simp

text \<open>Whatever the takers do, the indices of the secrets used by the accepted fills of one
  order strictly increase from fill to fill, starting from the untouched order: no secret of
  the Merkle tree is revealed for two fills.  Every accepted fill moves a positive amount.\<close>

theorem fill_indices_increase:
  assumes "accepted_fills order parts remaining fs" "remaining \<le> order" "remaining \<noteq> 0"
  shows "sorted_wrt (<) (map snd fs) \<and> (\<forall>(making, i) \<in> set fs. making \<noteq> 0)"
  using assms by (rule accepted_fills_sorted)

theorem fill_indices_increase_witness:
  "sorted_wrt (<) (map snd [(300 :: u64, 1 :: u64), (500, 3), (200, 4)])"
proof -
  have "accepted_fills 1000 4 1000 [(300, 1), (500, 3), (200, 4)]"
    by (simp add: is_valid_partial_fill_eq fill_fits_def fill_ok_def part_of_def)
  from fill_indices_increase [OF this] show ?thesis by simp
qed

text \<open>C28: on a fill the order can take, \<open>is_valid_partial_fill\<close> panics exactly when the order or
  the cumulative fill is empty or the scaled cumulative fill reaches \<open>2^64\<close>; otherwise it
  decides the rule of the parts.  With \<open>n\<close> parts, an order of at most \<open>2^64 / n\<close> units never
  meets the overflow, a larger one does before it is completed.\<close>

theorem is_valid_partial_fill_correct:
  assumes "making \<le> remaining" "remaining \<le> order"
  shows "is_valid_partial_fill making remaining order parts i =
     (if unat order = 0 \<or> unat order - unat remaining + unat making = 0
         \<or> 2 ^ 64 \<le> (unat order - unat remaining + unat making - 1) * unat parts
      then Inl Panic
      else Inr (fill_ok (unat order) (unat parts) (unat order - unat remaining) (unat making) (unat i)))"
  using assms by (auto simp: is_valid_partial_fill_eq word_le_nat_alt fill_fits_def)

theorem is_valid_partial_fill_correct_witness:
  "is_valid_partial_fill 300 1000 1000 4 1 = Inr True
   \<and> is_valid_partial_fill (2 ^ 63) (2 ^ 63) (2 ^ 63) 4 4 = Inl Panic"
  using is_valid_partial_fill_correct [of 300 1000 1000 4 1]
    is_valid_partial_fill_correct [of "2 ^ 63" "2 ^ 63" "2 ^ 63" 4 4]
  by (simp add: fill_ok_def part_of_def)

end
