(* ===== verification/DstAmount.thy ===== *)
theory DstAmount
  imports Timelocks Auction
begin

text \<open>
  The amount a fill owes on the destination chain
  (\<open>programs/cross-chain-escrow-src/src/lib.rs\<close>): the share of the order's destination
  amount (the expression in \<open>create_escrow\<close>), raised by the rate bump (\<open>get_dst_amount\<close>).
  Both quotients round up.  The lemmas read the 256-bit computation as exact arithmetic and
  bound the sum over the fills of an order.
\<close>

section \<open>The two computations\<close>

definition prorated_dst_amount :: "u64x4 \<Rightarrow> u64 \<Rightarrow> u64 \<Rightarrow> u64x4 res" where
  "prorated_dst_amount order_dst_amount amount order_amount =
     bindE (expect (checked_mul (U256 order_dst_amount) (ucast amount))) (\<lambda>product.
     bindE (sub_u order_amount 1) (\<lambda>divisor_minus_1.
     bindE (expect (checked_add product (ucast divisor_minus_1))) (\<lambda>sum.
     bindE (expect (checked_div sum (ucast order_amount))) (\<lambda>quotient.
     Inr (limbs quotient)))))"

definition get_dst_amount :: "64 word \<Rightarrow> u64x4 \<Rightarrow> AuctionData \<Rightarrow> u64x4 res" where
  "get_dst_amount unix_timestamp dst_amount data =
     bindE (calculate_rate_bump unix_timestamp data) (\<lambda>rate_bump.
     bindE (add_u BASE_1E7 rate_bump) (\<lambda>multiplier.
     bindE (expect (checked_mul (U256 dst_amount) (ucast multiplier))) (\<lambda>product.
     bindE (sub_u BASE_1E7 1) (\<lambda>base_minus_1.
     bindE (expect (checked_add product (ucast base_minus_1))) (\<lambda>sum.
     bindE (expect (checked_div sum (ucast BASE_1E7))) (\<lambda>result.
     Inr (limbs result)))))))"

text \<open>The field \<open>dst_amount\<close> of a new escrow: both computations, in the order of the code.\<close>

definition escrow_dst_amount :: "64 word \<Rightarrow> u64x4 \<Rightarrow> u64 \<Rightarrow> u64 \<Rightarrow> AuctionData \<Rightarrow> u64x4 res" where
  "escrow_dst_amount unix_timestamp order_dst_amount amount order_amount data =
     bindE (prorated_dst_amount order_dst_amount amount order_amount) (\<lambda>prorated.
     get_dst_amount unix_timestamp prorated data)"

section \<open>The exact values\<close>

definition amount_of :: "u64x4 \<Rightarrow> nat" where
  "amount_of x = unat (U256 x)"

lemma amount_of_limbs [simp]: "amount_of (limbs w) = unat w"
  by (simp add: amount_of_def)

definition share :: "nat \<Rightarrow> nat \<Rightarrow> nat \<Rightarrow> nat" where
  "share dst amount order_amount = ceil_div (dst * amount) order_amount"

definition bumped :: "nat \<Rightarrow> nat \<Rightarrow> nat" where
  "bumped dst bump = ceil_div (dst * (10000000 + bump)) 10000000"

lemma unat_ucast_256 [simp]: "unat (ucast (x :: u64) :: u256) = unat x"
  by (simp add: unat_ucast_widen)

lemma amount_of_less: "amount_of x < 2 ^ 256"
  unfolding amount_of_def using unat_less_2p [of "U256 x"] by simp

lemma amount_of_inj: "amount_of x = amount_of y \<longleftrightarrow> x = y"
  unfolding amount_of_def by (metis limbs_U256 word_eq_iff_unat)

lemma prorated_dst_amount_ok:
  assumes "unat order \<noteq> 0" "amount_of dst * unat amount + (unat order - 1) < 2 ^ 256"
  shows "\<exists>r. prorated_dst_amount dst amount order = Inr r
    \<and> amount_of r = share (amount_of dst) (unat amount) (unat order)"
proof -
  let ?p = "U256 dst * ucast amount" and ?d = "order - 1"
  have d: "unat ?d = unat order - 1" "sub_u order 1 = Inr ?d"
    using assms(1) by (simp_all add: unat_sub_ok num_simps Suc_le_eq)
  have p: "unat ?p = amount_of dst * unat amount" "checked_mul (U256 dst) (ucast amount) = Some ?p"
    using assms(2) by (simp_all add: unat_mult_ok checked_mul_def amount_of_def)
  have s: "unat (?p + ucast ?d) = amount_of dst * unat amount + (unat order - 1)"
      "checked_add ?p (ucast ?d) = Some (?p + ucast ?d)"
    using assms(2) by (simp_all add: unat_add_ok checked_add_def p(1) d(1))
  have "ucast order \<noteq> (0 :: u256)" using assms(1) by (metis unat_0 unat_ucast_256)
  then have q: "checked_div (?p + ucast ?d) (ucast order) = Some ((?p + ucast ?d) div ucast order)"
    by (simp add: checked_div_def)
  show ?thesis
    by (simp add: prorated_dst_amount_def p(2) d(2) s(2) q unat_div_distrib s(1) share_def ceil_div_def)
qed

lemma prorated_dst_amount_InrD:
  assumes "prorated_dst_amount dst amount order = Inr r"
  shows "unat order \<noteq> 0" "amount_of dst * unat amount + (unat order - 1) < 2 ^ 256"
    "amount_of r = share (amount_of dst) (unat amount) (unat order)"
proof -
  from assms obtain p d s q where
    p: "amount_of dst * unat amount = unat (p :: u256)" and
    d: "1 \<le> unat order" "unat order - 1 = unat (d :: u64)" and
    s: "unat p + unat (ucast d :: u256) = unat (s :: u256)" and
    q: "unat s div unat order = unat (q :: u256)" "r = limbs q"
    by (auto simp: prorated_dst_amount_def res_simps amount_of_def)
  show "unat order \<noteq> 0" using d(1) by simp
  show "amount_of dst * unat amount + (unat order - 1) < 2 ^ 256"
    using p d s unat_less_2p [of s] by simp
  show "amount_of r = share (amount_of dst) (unat amount) (unat order)"
    using p d s q by (simp add: share_def ceil_div_def)
qed

lemma base_facts: "unat BASE_1E7 = 10000000" "sub_u BASE_1E7 1 = Inr 9999999"
  by (simp_all add: BASE_1E7_def num_simps)

lemma get_dst_amount_ok:
  assumes "amount_of dst * (10000000 + bump_at (unat now) data) + 9999999 < 2 ^ 256"
  shows "\<exists>r. get_dst_amount now dst data = Inr r
    \<and> amount_of r = bumped (amount_of dst) (bump_at (unat now) data)"
proof -
  obtain b where b: "calculate_rate_bump now data = Inr b" "unat b = bump_at (unat now) data"
    using calculate_rate_bump_eq by blast
  have lt: "unat b < 2 ^ 24" unfolding b(2) by (rule bump_at_less)
  have m: "unat (BASE_1E7 + b) = 10000000 + unat b" "add_u BASE_1E7 b = Inr (BASE_1E7 + b)"
    using lt by (simp_all add: unat_add_ok num_simps base_facts)
  let ?p = "U256 dst * ucast (BASE_1E7 + b)"
  have p: "unat ?p = amount_of dst * (10000000 + unat b)"
      "checked_mul (U256 dst) (ucast (BASE_1E7 + b)) = Some ?p"
    using assms by (simp_all add: unat_mult_ok checked_mul_def amount_of_def m b(2))
  have s: "unat (?p + 9999999) = amount_of dst * (10000000 + unat b) + 9999999"
      "checked_add ?p 9999999 = Some (?p + 9999999)"
    using assms by (simp_all add: unat_add_ok checked_add_def p(1) b(2))
  have "checked_div (?p + 9999999) (ucast BASE_1E7) = Some ((?p + 9999999) div 10000000)"
    by (simp add: checked_div_def BASE_1E7_def)
  then show ?thesis
    by (simp add: get_dst_amount_def b(1) m(2) base_facts p(2) s(2) unat_div_distrib s(1)
        bumped_def ceil_div_def b(2))
qed

lemma get_dst_amount_InrD:
  assumes "get_dst_amount now dst data = Inr r"
  shows "amount_of dst * (10000000 + bump_at (unat now) data) + 9999999 < 2 ^ 256"
    "amount_of r = bumped (amount_of dst) (bump_at (unat now) data)"
proof -
  from assms obtain b m p s q where
    b: "unat (b :: u64) = bump_at (unat now) data" and
    m: "10000000 + unat b = unat (m :: u64)" and
    p: "amount_of dst * unat m = unat (p :: u256)" and
    s: "unat p + 9999999 = unat (s :: u256)" and
    q: "unat s div 10000000 = unat (q :: u256)" "r = limbs q"
    by (auto simp: get_dst_amount_def res_simps amount_of_def base_facts calculate_rate_bump_Inr_iff)
  show "amount_of dst * (10000000 + bump_at (unat now) data) + 9999999 < 2 ^ 256"
    using b m p s unat_less_2p [of s] by simp
  show "amount_of r = bumped (amount_of dst) (bump_at (unat now) data)"
    using b m p s q by (simp add: bumped_def ceil_div_def)
qed

section \<open>Shares\<close>

lemma share_bounds:
  assumes "0 < whole"
  shows "dst * a \<le> share dst a whole * whole"
    and "share dst a whole * whole < dst * a + whole"
proof -
  show "dst * a \<le> share dst a whole * whole" unfolding share_def by (rule ceil_div_upper [OF assms])
  show "share dst a whole * whole < dst * a + whole"
  proof (cases "dst * a = 0")
    case True
    have "share dst a whole * whole < whole"
      using assms unfolding share_def ceil_div_def True by simp
    with True show ?thesis by simp
  next
    case False
    then have "(share dst a whole - 1) * whole < dst * a"
      unfolding share_def using assms by (intro ceil_div_tight) simp_all
    then show ?thesis by (cases "share dst a whole") simp_all
  qed
qed

lemma share_whole: "0 < whole \<Longrightarrow> share dst whole whole = dst"
proof -
  assume w: "0 < whole"
  then show ?thesis using share_bounds [OF w, of dst whole]
    by (metis add.commute add_mult_distrib dual_order.antisym less_Suc_eq_le mult.commute mult_Suc mult_le_cancel2 mult_less_cancel2)
qed

lemma sum_share_ge:
  assumes "0 < whole"
  shows "dst * sum_list as \<le> sum_list (map (\<lambda>a. share dst a whole) as) * whole"
proof (induction as)
  case (Cons a as)
  then show ?case using share_bounds(1) [OF assms, of dst a] by (simp add: algebra_simps)
qed simp

lemma share_le: "a \<le> whole \<Longrightarrow> share dst a whole \<le> dst"
proof (cases "whole = 0")
  case False
  assume "a \<le> whole"
  then have "dst * a \<le> dst * whole" by simp
  with False show ?thesis unfolding share_def by (simp add: ceil_div_le_iff)
qed (simp add: share_def ceil_div_def)

lemma bumped_ge: "dst \<le> bumped dst b"
proof -
  have "dst * 10000000 \<le> bumped dst b * 10000000"
    unfolding bumped_def using ceil_div_upper [of 10000000 "dst * (10000000 + b)"]
    by (simp add: algebra_simps)
  then show ?thesis by simp
qed

lemma bumped_mono: "d \<le> d' \<Longrightarrow> b \<le> b' \<Longrightarrow> bumped d b \<le> bumped d' b'"
  unfolding bumped_def by (intro ceil_div_mono mult_le_mono) simp_all

lemma escrow_dst_amount_InrD:
  assumes "escrow_dst_amount now dst amount order data = Inr r"
  shows "unat order \<noteq> 0"
    "amount_of r = bumped (share (amount_of dst) (unat amount) (unat order)) (bump_at (unat now) data)"
proof -
  from assms obtain p where p: "prorated_dst_amount dst amount order = Inr p" "get_dst_amount now p data = Inr r"
    by (auto simp: escrow_dst_amount_def res_simps)
  show "unat order \<noteq> 0" by (rule prorated_dst_amount_InrD(1) [OF p(1)])
  show "amount_of r = bumped (share (amount_of dst) (unat amount) (unat order)) (bump_at (unat now) data)"
    using get_dst_amount_InrD(2) [OF p(2)] prorated_dst_amount_InrD(3) [OF p(1)] by simp
qed

lemma escrow_dst_amount_ok:
  assumes "order \<noteq> 0" "amount \<le> order" "amount_of dst < 2 ^ 191"
  shows "\<exists>r. escrow_dst_amount now dst amount order data = Inr r
    \<and> amount_of r = bumped (share (amount_of dst) (unat amount) (unat order)) (bump_at (unat now) data)"
proof -
  let ?b = "bump_at (unat now) data" and ?s = "share (amount_of dst) (unat amount) (unat order)"
  have o: "unat order \<noteq> 0" "unat amount \<le> unat order" "unat order < 2 ^ 64" "unat amount < 2 ^ 64"
    using assms unat_less_2p [of order] unat_less_2p [of amount] by (simp_all add: word_le_nat_alt unat_eq_zero)
  have "amount_of dst * unat amount \<le> 2 ^ 191 * 2 ^ 64" using assms(3) o by (intro mult_le_mono) simp_all
  then have "amount_of dst * unat amount + (unat order - 1) < 2 ^ 256" using o(3) by simp
  from prorated_dst_amount_ok [OF o(1) this]
  obtain p where p: "prorated_dst_amount dst amount order = Inr p" "amount_of p = ?s" by blast
  have "?s \<le> 2 ^ 191" using share_le [OF o(2), of "amount_of dst"] assms(3) by simp
  moreover have "10000000 + ?b \<le> 2 ^ 25" using bump_at_less [of "unat now" data] by simp
  ultimately have "?s * (10000000 + ?b) \<le> 2 ^ 191 * 2 ^ 25" by (rule mult_le_mono)
  then have "amount_of p * (10000000 + ?b) + 9999999 < 2 ^ 256" using p(2) by simp
  from get_dst_amount_ok [OF this] p(2)
  obtain r where r: "get_dst_amount now p data = Inr r" "amount_of r = bumped ?s ?b" by auto
  with p show ?thesis by (simp add: escrow_dst_amount_def)
qed

lemma exact_le_escrow_dst_amount:
  assumes "0 < whole"
  shows "dst * a * (10000000 + b) \<le> bumped (share dst a whole) b * whole * 10000000"
proof -
  have "dst * a * (10000000 + b) \<le> share dst a whole * whole * (10000000 + b)"
    using share_bounds(1) [OF assms, of dst a] by (rule mult_le_mono1)
  also have "\<dots> = share dst a whole * (10000000 + b) * whole" by (simp only: mult.commute mult.left_commute)
  also have "\<dots> \<le> bumped (share dst a whole) b * 10000000 * whole"
    unfolding bumped_def by (rule mult_le_mono1 [OF ceil_div_upper]) simp
  finally show ?thesis by (simp only: mult.commute mult.left_commute)
qed

text \<open>C32: the destination amount of a fill.  A destination amount below \<open>2^191\<close> never makes
  \<open>create_escrow\<close> panic; the result is the order's amount in proportion to the fill, raised by
  the rate bump of the auction, each rounded up, so it is never below the exact value.\<close>

theorem escrow_dst_amount_correct:
  assumes "order \<noteq> 0" "amount \<le> order" "amount_of dst < 2 ^ 191"
  shows "\<exists>r. escrow_dst_amount now dst amount order data = Inr r
    \<and> amount_of r = bumped (share (amount_of dst) (unat amount) (unat order)) (bump_at (unat now) data)
    \<and> amount_of dst * unat amount * (10000000 + bump_at (unat now) data)
        \<le> amount_of r * unat order * 10000000"
  using escrow_dst_amount_ok [OF assms, of now data] assms(1)
    exact_le_escrow_dst_amount [of "unat order" "amount_of dst" "unat amount" "bump_at (unat now) data"]
  by (auto simp: unat_gt_0)

lemmas sample_dst_simps =
  share_def bumped_def ceil_div_def bump_at_def lerp_def point_def unat_to_u64 unat_to_u32

theorem escrow_dst_amount_correct_witness:
  "\<exists>r. escrow_dst_amount 105 (1000, 0, 0, 0) 3 7 sample_auction = Inr r \<and> amount_of r = 430"
proof -
  have a: "amount_of (1000, 0, 0, 0) = 1000" by (simp add: amount_of_def)
  have "bump_at 105 sample_auction = 175" by (simp add: sample_auction_def sample_dst_simps)
  then show ?thesis
    using escrow_dst_amount_correct [of 7 3 "(1000, 0, 0, 0)" 105 sample_auction]
    by (auto simp: a share_def bumped_def ceil_div_def)
qed

text \<open>C33: rounding never shortens the maker.  Whatever the fills of an order are and whenever
  they are made, once they add up to the order's amount, the destination amounts recorded in
  their escrows add up to at least the destination amount of the order.\<close>

theorem fills_cover_dst_amount:
  assumes "order \<noteq> 0"
    and "\<forall>(amount, now, r) \<in> set fills. escrow_dst_amount now dst amount order data = Inr r"
    and "(\<Sum>(amount, now, r) \<leftarrow> fills. unat amount) = unat order"
  shows "amount_of dst \<le> (\<Sum>(amount, now, r) \<leftarrow> fills. amount_of r)"
proof -
  have o: "0 < unat order" using assms(1) by (simp add: unat_gt_0)
  let ?S = "\<Sum>(amount, now, r) \<leftarrow> fills. share (amount_of dst) (unat amount) (unat order)"
  have "amount_of dst * unat order \<le> ?S * unat order"
    using sum_share_ge [OF o, of "amount_of dst" "map (\<lambda>(amount, now, r). unat amount) fills"] assms(3)
    by (simp add: comp_def case_prod_unfold)
  then have "amount_of dst \<le> ?S" using o by simp
  also have "?S \<le> (\<Sum>(amount, now, r) \<leftarrow> fills. amount_of r)"
    using assms(2) bumped_ge by (intro sum_list_mono) (auto dest!: bspec escrow_dst_amount_InrD(2))
  finally show ?thesis .
qed

theorem fills_cover_dst_amount_witness:
  "\<exists>r r'. escrow_dst_amount 105 (1000, 0, 0, 0) 3 7 sample_auction = Inr r
     \<and> escrow_dst_amount 150 (1000, 0, 0, 0) 4 7 sample_auction = Inr r'
     \<and> 1000 \<le> amount_of r + amount_of r'"
proof -
  have a: "amount_of (1000, 0, 0, 0) = 1000" by (simp add: amount_of_def)
  obtain r r' where r: "escrow_dst_amount 105 (1000, 0, 0, 0) 3 7 sample_auction = Inr r"
      "escrow_dst_amount 150 (1000, 0, 0, 0) 4 7 sample_auction = Inr r'"
    using escrow_dst_amount_ok [of 7 3 "(1000, 0, 0, 0)" 105 sample_auction]
      escrow_dst_amount_ok [of 7 4 "(1000, 0, 0, 0)" 150 sample_auction] a by auto
  have "amount_of (1000, 0, 0, 0) \<le> (\<Sum>(amount, now, r) \<leftarrow> [(3 :: u64, 105 :: u64, r), (4, 150, r')]. amount_of r)"
    by (rule fills_cover_dst_amount [where order = 7 and data = sample_auction]) (simp_all add: r)
  with a r show ?thesis by auto
qed

end
