(* ===== verification/SrcFills.thy ===== *)
theory SrcFills
  imports SrcOrders Fills DstAmount
begin

text \<open>
  Filling an order: \<open>create_escrow\<close> of \<open>programs/cross-chain-escrow-src/src/lib.rs\<close>, by which a
  whitelisted taker opens an escrow for a whole order or for a part of it.  The lemmas give
  its whole effect on the order, the new escrow, tokens and lamports.
\<close>

section \<open>Accounts\<close>

record CreateEscrow =
  taker :: pubkey
  resolver_access :: pubkey
  maker :: pubkey
  mint :: pubkey
  order :: pubkey
  order_ata :: pubkey
  escrow :: pubkey
  escrow_ata :: pubkey
  associated_token_program :: pubkey
  token_program :: pubkey
  system_program :: pubkey

definition zero_EscrowSrc :: EscrowSrc where
  "zero_EscrowSrc = \<lparr>es_order_hash = zero_key, es_hashlock = zero_key, es_maker = zero_key,
     es_taker = zero_key, es_token = zero_key, es_amount = 0, es_safety_deposit = 0,
     es_timelocks = (0, 0, 0, 0), es_asset_is_native = False, es_dst_amount = (0, 0, 0, 0), es_bump = 0\<rparr>"

section \<open>\<open>create_escrow\<close>\<close>

definition CreateEscrow_accounts ::
  "runtime \<Rightarrow> exec \<Rightarrow> CreateEscrow \<Rightarrow> u64 \<Rightarrow> MerkleProof option \<Rightarrow> ledger
    \<Rightarrow> (ledger \<times> mint_ref \<times> Order \<times> token_ref \<times> u8) res" where
  "CreateEscrow_accounts rt x a amount merkle_proof L =
     bindE (check_signer x (CreateEscrow.taker a)) (\<lambda>_.
     bindE (load_ResolverAccess L (CreateEscrow.resolver_access a)) (\<lambda>ra.
     bindE (load_mint L (CreateEscrow.mint a)) (\<lambda>m.
     bindE (load_Order L (CreateEscrow.order a)) (\<lambda>ord.
     bindE (load_token L (CreateEscrow.order_ata a)) (\<lambda>oa.
     bindE (check_associated_token_program rt (CreateEscrow.associated_token_program a)) (\<lambda>_.
     bindE (check_token_program rt (CreateEscrow.token_program a)) (\<lambda>_.
     bindE (check_system_program rt (CreateEscrow.system_program a)) (\<lambda>_.
     bindE (find_pda rt (escrow_seeds (o_order_hash ord) (get_escrow_hashlock (o_hashlock ord) merkle_proof)
       (CreateEscrow.taker a) amount) src_ID (CreateEscrow.escrow a)) (\<lambda>bump.
     bindE (init_data rt x (CreateEscrow.taker a) (CreateEscrow.escrow a)
       (DISCRIMINATOR_BYTES + EscrowSrc_INIT_SPACE) src_ID (EscrowSrcAcc zero_EscrowSrc) L) (\<lambda>L1.
     bindE (init_if_needed_ata rt x (CreateEscrow.escrow_ata a) (CreateEscrow.taker a) (CreateEscrow.mint a)
       (CreateEscrow.escrow a) (CreateEscrow.token_program a) L1) (\<lambda>(L2, ea).
     bindE (check_pda rt (resolver_seeds src_ID (CreateEscrow.taker a)) (ra_bump ra) whitelist_ID
       (CreateEscrow.resolver_access a)) (\<lambda>_.
     bindE (check_key (CreateEscrow.maker a = o_creator ord) (Escrow InvalidAccount)) (\<lambda>_.
     bindE (check_key (CreateEscrow.mint a = o_token ord) (Escrow InvalidMint)) (\<lambda>_.
     bindE (check_pda rt (order_seeds (o_order_hash ord)) (o_bump ord) src_ID (CreateEscrow.order a)) (\<lambda>_.
     bindE (check_ata rt oa (CreateEscrow.mint a) (CreateEscrow.order a) (CreateEscrow.token_program a)) (\<lambda>_.
     Inr (L2, m, ord, oa, bump)))))))))))))))))"

text \<open>The hashlock of the new escrow: the order's own, or the one a Merkle proof opens.\<close>

definition fill_hashlock :: "runtime \<Rightarrow> Order \<Rightarrow> u64 \<Rightarrow> MerkleProof option \<Rightarrow> bytes res" where
  "fill_hashlock rt ord amount merkle_proof =
     (case merkle_proof of
        Some prf \<Rightarrow>
          require (drop 2 (process_proof (keccak rt) prf) = drop 2 (o_hashlock ord)) (Escrow InvalidMerkleProof)
          (bindE (is_valid_partial_fill amount (o_remaining_amount ord) (o_amount ord)
             (ucast (parts_amount (o_hashlock ord))) (index prf)) (\<lambda>valid.
           require valid (Escrow InvalidPartialFill) (Inr (hashed_secret prf))))
      | None \<Rightarrow> Inr (o_hashlock ord))"

definition new_escrow :: "exec \<Rightarrow> Order \<Rightarrow> pubkey \<Rightarrow> u64 \<Rightarrow> bytes \<Rightarrow> u64x4 \<Rightarrow> u8 \<Rightarrow> EscrowSrc" where
  "new_escrow x ord who amount hashlock dst_amount bump =
     \<lparr>es_order_hash = o_order_hash ord, es_hashlock = hashlock, es_maker = o_creator ord, es_taker = who,
      es_token = o_token ord, es_amount = amount, es_safety_deposit = o_safety_deposit ord,
      es_timelocks = get_timelocks (set_deployed_at (Timelocks (U256 (o_timelocks ord))) (now x)),
      es_asset_is_native = o_asset_is_native ord, es_dst_amount = dst_amount, es_bump = bump\<rparr>"

text \<open>The end of the handler: a filled order is closed, any other keeps what remains.\<close>

definition close_or_reduce :: "runtime \<Rightarrow> exec \<Rightarrow> CreateEscrow \<Rightarrow> Order \<Rightarrow> u64 \<Rightarrow> ledger \<Rightarrow> ledger res" where
  "close_or_reduce rt x a ord amount L =
     (if \<not> o_allow_multiple_fills ord \<or> o_remaining_amount ord = amount then
        bindE (close_token_account rt (cpi_signers rt x (Some [order_signer_seeds ord])) (CreateEscrow.token_program a)
          (CreateEscrow.order_ata a) (CreateEscrow.maker a) (CreateEscrow.order a) L) (\<lambda>L1.
        close_program_account rt (CreateEscrow.order a) (CreateEscrow.maker a) L1)
      else
        bindE (sub_u (o_remaining_amount ord) amount) (\<lambda>rest.
        Inr (set_data (CreateEscrow.order a) (OrderAcc (ord\<lparr>o_remaining_amount := rest\<rparr>)) L)))"

definition create_escrow ::
  "runtime \<Rightarrow> exec \<Rightarrow> CreateEscrow \<Rightarrow> u64 \<Rightarrow> MerkleProof option \<Rightarrow> AuctionData \<Rightarrow> ledger \<Rightarrow> ledger res" where
  "create_escrow rt x a amount merkle_proof dutch_auction_data L =
     bindE (check_entry src_ID x) (\<lambda>_.
     bindE (CreateEscrow_accounts rt x a amount merkle_proof L) (\<lambda>(L1, m, ord, oa, bump).
     require ((o_allow_multiple_fills ord \<and> amount \<le> o_remaining_amount ord)
         \<or> (\<not> o_allow_multiple_fills ord \<and> amount = o_amount ord)) (Escrow InvalidAmount)
     (require (now x < o_expiration_time ord) (Escrow OrderHasExpired)
     (bindE (try_to_vec dutch_auction_data) (\<lambda>encoded.
     require (hashv (keccak rt) [encoded] = o_dutch_auction_data_hash ord) (Escrow DutchAuctionDataHashMismatch)
     (require (o_allow_multiple_fills ord = (merkle_proof \<noteq> None)) (Escrow InconsistentMerkleProofTrait)
     (bindE (fill_hashlock rt ord amount merkle_proof) (\<lambda>hashlock.
     let amount_to_transfer = (if o_remaining_amount ord = amount then ta_amount (snd oa) else amount) in
     bindE (uni_transfer rt x
       (TokenTransfer (CreateEscrow.order_ata a) (CreateEscrow.order a) (CreateEscrow.escrow_ata a) m
          amount_to_transfer (CreateEscrow.token_program a)) (Some [order_signer_seeds ord]) L1) (\<lambda>L2.
     bindE (escrow_dst_amount (unix_timestamp x) (o_dst_amount ord) amount (o_amount ord) dutch_auction_data) (\<lambda>dst.
     close_or_reduce rt x a ord amount
       (set_data (CreateEscrow.escrow a)
         (EscrowSrcAcc (new_escrow x ord (CreateEscrow.taker a) amount hashlock dst bump)) L2)))))))))))"

section \<open>Filling an order\<close>

definition fill_touches :: "CreateEscrow \<Rightarrow> pubkey set" where
  "fill_touches a = {CreateEscrow.taker a, CreateEscrow.maker a, CreateEscrow.order a, CreateEscrow.order_ata a,
     CreateEscrow.escrow a, CreateEscrow.escrow_ata a}"

lemma CreateEscrow_accounts_effect:
  assumes ok: "runtime_ok rt" and r: "CreateEscrow_accounts rt x a amount mp L = Inr (L2, m, ord, oa, bump)"
  shows "CreateEscrow.taker a \<in> set (signers x)"
    and "has_access rt L src_ID (CreateEscrow.taker a) (CreateEscrow.resolver_access a)"
    and "prog L (CreateEscrow.order a) = Some (OrderAcc ord)" "CreateEscrow.maker a = o_creator ord"
    and "find_program_address rt (escrow_seeds (o_order_hash ord) (get_escrow_hashlock (o_hashlock ord) mp)
       (CreateEscrow.taker a) amount) src_ID = (CreateEscrow.escrow a, bump)"
    and "no_data L (CreateEscrow.escrow a)" "prog L2 = (prog L)(CreateEscrow.escrow a \<mapsto> EscrowSrcAcc zero_EscrowSrc)"
    and "mints L2 = mints L" "\<forall>k. k \<noteq> CreateEscrow.escrow_ata a \<longrightarrow> tok L2 k = tok L k"
    and "tok L (CreateEscrow.order_ata a) = Some (snd oa)" "tok L2 (CreateEscrow.order_ata a) = Some (snd oa)"
    and "CreateEscrow.order_ata a \<noteq> CreateEscrow.escrow_ata a" "CreateEscrow.escrow a \<noteq> CreateEscrow.order a"
    and "tok L2 (CreateEscrow.escrow_ata a) \<noteq> None" "CreateEscrow.escrow_ata a \<noteq> CreateEscrow.escrow a"
    and "tokens L (CreateEscrow.escrow_ata a) \<le> tokens L2 (CreateEscrow.escrow_ata a)"
    and "conserved (fill_touches a) (lamports L) (lamports L2)"
    and "CreateEscrow.taker a \<noteq> CreateEscrow.escrow a \<Longrightarrow>
      unat (minimum_balance rt (DISCRIMINATOR_BYTES + EscrowSrc_INIT_SPACE)) \<le> lamports L2 (CreateEscrow.escrow a)"
    and "tok L (CreateEscrow.escrow_ata a) = None \<Longrightarrow> no_data L (CreateEscrow.escrow_ata a)"
    and "create_program_address rt (order_seeds (o_order_hash ord) @ [[o_bump ord]]) src_ID = Some (CreateEscrow.order a)"
    and "wf_ledger L \<Longrightarrow> wf_ledger L2"
proof -
  let ?ea = "CreateEscrow.escrow_ata a" and ?e = "CreateEscrow.escrow a" and ?t = "CreateEscrow.taker a"
    and ?oa = "CreateEscrow.order_ata a" and ?o = "CreateEscrow.order a"
  from r obtain ra L1 ea where l: "?t \<in> set (signers x)"
    "has_access rt L src_ID ?t (CreateEscrow.resolver_access a)"
    "prog L ?o = Some (OrderAcc ord)" "CreateEscrow.maker a = o_creator ord"
    "find_program_address rt (escrow_seeds (o_order_hash ord) (get_escrow_hashlock (o_hashlock ord) mp) ?t amount) src_ID
      = (?e, bump)" "tok L ?oa = Some (snd oa)" and ow: "ta_owner (snd oa) = ?o"
    and pda: "create_program_address rt (order_seeds (o_order_hash ord) @ [[o_bump ord]]) src_ID = Some ?o" and
    i: "init_data rt x ?t ?e (DISCRIMINATOR_BYTES + EscrowSrc_INIT_SPACE) src_ID (EscrowSrcAcc zero_EscrowSrc) L = Inr L1" and
    n: "init_if_needed_ata rt x ?ea ?t (CreateEscrow.mint a) ?e (CreateEscrow.token_program a) L1 = Inr (L2, ea)"
    by (auto simp: CreateEscrow_accounts_def bindE_Inr_iff check_Inr_iff find_pda_Inr_iff load_Inr_iff
        load_token_Inr_iff check_ata_Inr_iff has_access_def)
  show "?t \<in> set (signers x)" "has_access rt L src_ID ?t (CreateEscrow.resolver_access a)"
    "prog L ?o = Some (OrderAcc ord)" "CreateEscrow.maker a = o_creator ord"
    "find_program_address rt (escrow_seeds (o_order_hash ord) (get_escrow_hashlock (o_hashlock ord) mp) ?t amount) src_ID
      = (?e, bump)" "tok L ?oa = Some (snd oa)" by (fact l)+
  show "create_program_address rt (order_seeds (o_order_hash ord) @ [[o_bump ord]]) src_ID = Some ?o" by (rule pda)
  note e = init_pair_effect [OF ok i n]
  show "no_data L ?e" "prog L2 = (prog L)(?e \<mapsto> EscrowSrcAcc zero_EscrowSrc)" "mints L2 = mints L" "?ea \<noteq> ?e"
    "\<forall>k. k \<noteq> ?ea \<longrightarrow> tok L2 k = tok L k" "tokens L ?ea \<le> tokens L2 ?ea"
    "?t \<noteq> ?e \<Longrightarrow> unat (minimum_balance rt (DISCRIMINATOR_BYTES + EscrowSrc_INIT_SPACE)) \<le> lamports L2 ?e"
    "tok L ?ea = None \<Longrightarrow> no_data L ?ea" "wf_ledger L \<Longrightarrow> wf_ledger L2" using e by blast+
  show eo: "?e \<noteq> ?o" using e(1) l(3) by (auto simp: no_data_def)
  show oa: "tok L2 ?oa = Some (snd oa)" by (rule e(9) [OF l(6)])
  show "?oa \<noteq> ?ea" using oa e(5,7) ow eo by auto
  show "tok L2 ?ea \<noteq> None" using e(5) by simp
  show "conserved (fill_touches a) (lamports L) (lamports L2)" by (rule e(15)) (simp_all add: fill_touches_def)
qed

definition order_closes :: "Order \<Rightarrow> u64 \<Rightarrow> bool" where
  "order_closes ord amount \<longleftrightarrow> \<not> o_allow_multiple_fills ord \<or> o_remaining_amount ord = amount"

definition order_after :: "Order \<Rightarrow> u64 \<Rightarrow> ProgramData option" where
  "order_after ord amount =
     (if order_closes ord amount then None
      else Some (OrderAcc (ord\<lparr>o_remaining_amount := o_remaining_amount ord - amount\<rparr>)))"

text \<open>Closing an order and its token account, both for the maker.\<close>

lemma close_order_effect:
  assumes ok: "runtime_ok rt"
    and c: "close_token_account rt sg p (CreateEscrow.order_ata a) (CreateEscrow.maker a) (CreateEscrow.order a) L = Inr L1"
    and p: "close_program_account rt (CreateEscrow.order a) (CreateEscrow.maker a) L1 = Inr L'"
    and oe: "CreateEscrow.escrow a \<noteq> CreateEscrow.order a" "CreateEscrow.escrow a \<noteq> CreateEscrow.order_ata a"
  shows "prog L' = (prog L)(CreateEscrow.order a := None)" "mints L' = mints L"
    and "tok L' = (tok L)(CreateEscrow.order_ata a := None)"
    and "conserved (fill_touches a) (lamports L) (lamports L')"
    and "lamports L' (CreateEscrow.order a) = 0"
    and "lamports L (CreateEscrow.escrow a) \<le> lamports L' (CreateEscrow.escrow a)"
proof -
  let ?o = "CreateEscrow.order a" and ?oa = "CreateEscrow.order_ata a" and ?m = "CreateEscrow.maker a"
    and ?e = "CreateEscrow.escrow a"
  note ec = close_token_account_effect [OF runtime_okD(3) [OF ok c]]
  note ep = close_program_account_effect [OF runtime_okD(7) [OF ok p]]
  have K: "finite (fill_touches a)" "?m \<in> fill_touches a" "?o \<in> fill_touches a" "?oa \<in> fill_touches a"
    by (simp_all add: fill_touches_def)
  have "conserved (fill_touches a) (lamports L) (lamports L1)" by (rule shifted_conserved [OF ec(4) K(1,4,2)])
  also have "conserved (fill_touches a) (lamports L1) (lamports L')" by (rule shifted_conserved [OF ep(2) K(1,3,2)])
  finally show "conserved (fill_touches a) (lamports L) (lamports L')" .
  show "lamports L' ?o = 0" using ep(1,2) by (auto simp: shifted_def)
  have "lamports L ?e \<le> lamports L1 ?e" using ec(4) oe by (auto simp: shifted_def)
  also have "lamports L1 ?e \<le> lamports L' ?e" using ep(2) oe by (auto simp: shifted_def)
  finally show "lamports L ?e \<le> lamports L' ?e" .
  show "prog L' = (prog L)(?o := None)" "mints L' = mints L" "tok L' = (tok L)(?oa := None)" using ec ep by simp_all
qed

lemma close_or_reduce_effect:
  assumes ok: "runtime_ok rt" and r: "close_or_reduce rt x a ord amount L = Inr L'"
    and oe: "CreateEscrow.escrow a \<noteq> CreateEscrow.order a" "CreateEscrow.escrow a \<noteq> CreateEscrow.order_ata a"
  shows "prog L' = (prog L)(CreateEscrow.order a := order_after ord amount)" "mints L' = mints L"
    and "tok L' = (if order_closes ord amount then (tok L)(CreateEscrow.order_ata a := None) else tok L)"
    and "conserved (fill_touches a) (lamports L) (lamports L')"
    and "order_closes ord amount \<or> unat amount \<le> unat (o_remaining_amount ord)"
    and "order_closes ord amount \<Longrightarrow> lamports L' (CreateEscrow.order a) = 0"
    and "\<not> order_closes ord amount \<Longrightarrow> lamports L' = lamports L"
    and "lamports L (CreateEscrow.escrow a) \<le> lamports L' (CreateEscrow.escrow a)"
proof -
  let ?o = "CreateEscrow.order a" and ?oa = "CreateEscrow.order_ata a" and ?m = "CreateEscrow.maker a"
    and ?e = "CreateEscrow.escrow a"
  have "prog L' = (prog L)(?o := order_after ord amount) \<and> mints L' = mints L
    \<and> tok L' = (if order_closes ord amount then (tok L)(?oa := None) else tok L)
    \<and> conserved (fill_touches a) (lamports L) (lamports L')
    \<and> (order_closes ord amount \<or> unat amount \<le> unat (o_remaining_amount ord))
    \<and> (order_closes ord amount \<longrightarrow> lamports L' ?o = 0)
    \<and> (\<not> order_closes ord amount \<longrightarrow> lamports L' = lamports L)
    \<and> lamports L ?e \<le> lamports L' ?e"
  proof (cases "order_closes ord amount")
    case True
    with r obtain L1 where
      c: "close_token_account rt (cpi_signers rt x (Some [order_signer_seeds ord])) (CreateEscrow.token_program a)
          ?oa ?m ?o L = Inr L1" and
      p: "close_program_account rt ?o ?m L1 = Inr L'"
      by (auto simp: close_or_reduce_def order_closes_def bindE_Inr_iff)
    from close_order_effect [OF ok c p oe] show ?thesis using True by (simp add: order_after_def)
  next
    case False
    with r obtain rest where rest: "sub_u (o_remaining_amount ord) amount = Inr rest" and
      L': "L' = set_data ?o (OrderAcc (ord\<lparr>o_remaining_amount := rest\<rparr>)) L"
      by (auto simp: close_or_reduce_def order_closes_def bindE_Inr_iff)
    have "rest = o_remaining_amount ord - amount" "unat amount \<le> unat (o_remaining_amount ord)"
      using rest by (auto simp: sub_u_def word_le_nat_alt split: if_splits)
    moreover have "lamports L' = lamports L" by (rule lamports_cong) (simp add: L')
    ultimately show ?thesis using False by (simp add: L' order_after_def)
  qed
  then show "prog L' = (prog L)(?o := order_after ord amount)" "mints L' = mints L"
    "tok L' = (if order_closes ord amount then (tok L)(?oa := None) else tok L)"
    "conserved (fill_touches a) (lamports L) (lamports L')"
    "order_closes ord amount \<or> unat amount \<le> unat (o_remaining_amount ord)"
    "order_closes ord amount \<Longrightarrow> lamports L' ?o = 0"
    "\<not> order_closes ord amount \<Longrightarrow> lamports L' = lamports L"
    "lamports L ?e \<le> lamports L' ?e" by blast+
qed

text \<open>The conditions under which a fill of an order is accepted, with the hashlock and the
  destination amount of the escrow it opens.\<close>

definition fill_accepted ::
  "runtime \<Rightarrow> exec \<Rightarrow> Order \<Rightarrow> u64 \<Rightarrow> MerkleProof option \<Rightarrow> AuctionData \<Rightarrow> bytes \<Rightarrow> u64x4 \<Rightarrow> bool" where
  "fill_accepted rt x ord amount mp auction hashlock dst \<longleftrightarrow>
     (o_allow_multiple_fills ord \<and> amount \<le> o_remaining_amount ord
       \<or> \<not> o_allow_multiple_fills ord \<and> amount = o_amount ord)
     \<and> now x < o_expiration_time ord
     \<and> (\<exists>v. try_to_vec auction = Inr v \<and> hashv (keccak rt) [v] = o_dutch_auction_data_hash ord)
     \<and> o_allow_multiple_fills ord = (mp \<noteq> None)
     \<and> fill_hashlock rt ord amount mp = Inr hashlock
     \<and> escrow_dst_amount (unix_timestamp x) (o_dst_amount ord) amount (o_amount ord) auction = Inr dst"

definition moved_by_fill :: "Order \<Rightarrow> u64 \<Rightarrow> nat \<Rightarrow> nat" where
  "moved_by_fill ord amount balance = (if o_remaining_amount ord = amount then balance else unat amount)"

lemma create_escrow_Inr:
  assumes "create_escrow rt x a amount mp auction L = Inr L'"
  obtains L1 m ord oa bump L2 hashlock dst where
    "CreateEscrow_accounts rt x a amount mp L = Inr (L1, m, ord, oa, bump)"
    "fill_accepted rt x ord amount mp auction hashlock dst"
    "uni_transfer rt x
       (TokenTransfer (CreateEscrow.order_ata a) (CreateEscrow.order a) (CreateEscrow.escrow_ata a) m
          (if o_remaining_amount ord = amount then ta_amount (snd oa) else amount) (CreateEscrow.token_program a))
       (Some [order_signer_seeds ord]) L1 = Inr L2"
    "close_or_reduce rt x a ord amount
       (set_data (CreateEscrow.escrow a)
         (EscrowSrcAcc (new_escrow x ord (CreateEscrow.taker a) amount hashlock dst bump)) L2) = Inr L'"
  using assms
  by (auto simp: create_escrow_def fill_accepted_def Let_def bindE_Inr_iff require_Inr_iff
      simp del: uni_transfer.simps split: prod.splits)

lemma fill_hashlock_eq: "fill_hashlock rt ord amount mp = Inr h \<Longrightarrow> h = get_escrow_hashlock (o_hashlock ord) mp"
  by (auto simp: fill_hashlock_def get_escrow_hashlock_def require_Inr_iff bindE_Inr_iff split: option.splits)

text \<open>The transfer into the escrow and what happens to the order afterwards.\<close>

lemma fill_moves:
  assumes ok: "runtime_ok rt"
    and u: "uni_transfer rt x (TokenTransfer (CreateEscrow.order_ata a) (CreateEscrow.order a) (CreateEscrow.escrow_ata a) m
       (if o_remaining_amount ord = amount then ta_amount (snd oa) else amount) tp) (Some [seeds]) L = Inr L1"
    and c: "close_or_reduce rt x a ord amount (set_data (CreateEscrow.escrow a) d L1) = Inr L'"
    and oa: "tok L (CreateEscrow.order_ata a) = Some (snd oa)" "CreateEscrow.order_ata a \<noteq> CreateEscrow.escrow_ata a"
    and e: "CreateEscrow.escrow a \<noteq> CreateEscrow.order a" "CreateEscrow.escrow a \<noteq> CreateEscrow.order_ata a"
    and wf: "wf_ledger L" and p: "prog L (CreateEscrow.escrow a) \<noteq> None" "prog L (CreateEscrow.order a) \<noteq> None"
  shows "prog L' = (prog L)(CreateEscrow.escrow a \<mapsto> d, CreateEscrow.order a := order_after ord amount)"
    and "moved_by_fill ord amount (tokens L (CreateEscrow.order_ata a)) \<le> tokens L (CreateEscrow.order_ata a)"
    and "tokens L (CreateEscrow.escrow_ata a) + moved_by_fill ord amount (tokens L (CreateEscrow.order_ata a))
      \<le> tokens L' (CreateEscrow.escrow_ata a)"
    and "tokens L' (CreateEscrow.order_ata a) = (if order_closes ord amount then 0
      else tokens L (CreateEscrow.order_ata a) - moved_by_fill ord amount (tokens L (CreateEscrow.order_ata a)))"
    and "conserved (fill_touches a) (lamports L) (lamports L')"
    and "lamports L (CreateEscrow.escrow a) \<le> lamports L' (CreateEscrow.escrow a)"
    and "wf_ledger L'" "order_closes ord amount \<Longrightarrow> lamports L' (CreateEscrow.order a) = 0"
proof -
  let ?ea = "CreateEscrow.escrow_ata a" and ?oa = "CreateEscrow.order_ata a"
  note eu = token_transfer_effect [OF ok u]
  note ec = close_or_reduce_effect [OF ok c e]
  have mv: "unat (if o_remaining_amount ord = amount then ta_amount (snd oa) else amount)
      = moved_by_fill ord amount (tokens L ?oa)"
    using oa by (simp add: moved_by_fill_def tokens_def)
  note s = eu(1) [unfolded mv] and s2 = eu(7) [OF oa(1)]
  have t: "lamports (set_data (CreateEscrow.escrow a) d L1) = lamports L1" by (simp add: lamports_def fun_eq_iff)
  have tk: "tokens L' = (if order_closes ord amount then (tokens L1)(?oa := 0) else tokens L1)"
    using ec(3) by (auto simp: tokens_def fun_eq_iff)
  show "prog L' = (prog L)(CreateEscrow.escrow a \<mapsto> d, CreateEscrow.order a := order_after ord amount)"
    using ec(1) eu(4) by simp
  show "moved_by_fill ord amount (tokens L ?oa) \<le> tokens L ?oa" using s by (simp add: shifted_def)
  show "tokens L ?ea + moved_by_fill ord amount (tokens L ?oa) \<le> tokens L' ?ea"
    "tokens L' ?oa = (if order_closes ord amount then 0
      else tokens L ?oa - moved_by_fill ord amount (tokens L ?oa))"
    using s oa(2) by (auto simp: tk shifted_def)
  have "conserved (fill_touches a) (lamports L) (lamports L1)"
    by (rule shifted_conserved [OF s2]) (simp_all add: fill_touches_def)
  then show "conserved (fill_touches a) (lamports L) (lamports L')" using ec(4) t conserved_trans by simp
  have "lamports L (CreateEscrow.escrow a) \<le> lamports L1 (CreateEscrow.escrow a)" using s2 e(2) by (auto simp: shifted_def)
  then show "lamports L (CreateEscrow.escrow a) \<le> lamports L' (CreateEscrow.escrow a)" using ec(8) t by simp
  have "wf_ledger L1" using wf statics_dom [OF eu(2)] eu(3,4) by (simp add: wf_ledger_def)
  then show "wf_ledger L'"
    by (rule wf_ledger_sub) (use ec(1-3) p eu(4) in \<open>auto split: if_splits\<close>)
  show "order_closes ord amount \<Longrightarrow> lamports L' (CreateEscrow.order a) = 0" by (rule ec(6))
qed

lemma create_escrow_effect:
  assumes ok: "runtime_ok rt" and wf: "wf_ledger L" and r: "create_escrow rt x a amount mp auction L = Inr L'"
    and ns: "CreateEscrow.escrow a \<notin> set (signers x)"
  obtains ord hashlock dst bump where
    "prog L (CreateEscrow.order a) = Some (OrderAcc ord)" "CreateEscrow.maker a = o_creator ord"
    "CreateEscrow.taker a \<in> set (signers x)"
    "has_access rt L src_ID (CreateEscrow.taker a) (CreateEscrow.resolver_access a)"
    "fill_accepted rt x ord amount mp auction hashlock dst"
    "find_program_address rt (escrow_seeds (o_order_hash ord) hashlock (CreateEscrow.taker a) amount) src_ID
      = (CreateEscrow.escrow a, bump)"
    "create_program_address rt (order_seeds (o_order_hash ord) @ [[o_bump ord]]) src_ID = Some (CreateEscrow.order a)"
    "no_data L (CreateEscrow.escrow a)"
    "prog L' = (prog L)(CreateEscrow.escrow a \<mapsto>
        EscrowSrcAcc (new_escrow x ord (CreateEscrow.taker a) amount hashlock dst bump),
      CreateEscrow.order a := order_after ord amount)"
    "moved_by_fill ord amount (tokens L (CreateEscrow.order_ata a)) \<le> tokens L (CreateEscrow.order_ata a)"
    "tokens L (CreateEscrow.escrow_ata a) + moved_by_fill ord amount (tokens L (CreateEscrow.order_ata a))
      \<le> tokens L' (CreateEscrow.escrow_ata a)"
    "tokens L' (CreateEscrow.order_ata a) = (if order_closes ord amount then 0
      else tokens L (CreateEscrow.order_ata a) - moved_by_fill ord amount (tokens L (CreateEscrow.order_ata a)))"
    "conserved (fill_touches a) (lamports L) (lamports L')"
    "unat (minimum_balance rt (DISCRIMINATOR_BYTES + EscrowSrc_INIT_SPACE)) \<le> lamports L' (CreateEscrow.escrow a)"
    "wf_ledger L'" "order_closes ord amount \<Longrightarrow> lamports L' (CreateEscrow.order a) = 0"
proof -
  let ?ea = "CreateEscrow.escrow_ata a" and ?e = "CreateEscrow.escrow a" and ?t = "CreateEscrow.taker a"
    and ?oa = "CreateEscrow.order_ata a" and ?o = "CreateEscrow.order a"
  from r obtain L1 m ord oa bump L2 hashlock dst where
    ac: "CreateEscrow_accounts rt x a amount mp L = Inr (L1, m, ord, oa, bump)" and
    fa: "fill_accepted rt x ord amount mp auction hashlock dst" and
    u: "uni_transfer rt x
       (TokenTransfer ?oa ?o ?ea m (if o_remaining_amount ord = amount then ta_amount (snd oa) else amount)
          (CreateEscrow.token_program a)) (Some [order_signer_seeds ord]) L1 = Inr L2" and
    c: "close_or_reduce rt x a ord amount
       (set_data ?e (EscrowSrcAcc (new_escrow x ord ?t amount hashlock dst bump)) L2) = Inr L'"
    by (rule create_escrow_Inr)
  have h: "hashlock = get_escrow_hashlock (o_hashlock ord) mp"
    using fa unfolding fill_accepted_def by (elim conjE) (rule fill_hashlock_eq)
  note ea = CreateEscrow_accounts_effect [OF ok ac]
  have eoa: "?e \<noteq> ?oa" using ea(6,10) by (auto simp: no_data_def)
  have te: "?t \<noteq> ?e" using ea(1) ns by auto
  have p: "prog L1 ?e \<noteq> None" "prog L1 ?o \<noteq> None" using ea(7,3) by simp_all
  note m = fill_moves [OF ok u c ea(11,12,13) eoa ea(21) [OF wf] p]
  have l1: "tokens L1 ?oa = tokens L ?oa" using ea(10,11) by (simp add: tokens_def)
  have P: "prog L' = (prog L)(?e \<mapsto> EscrowSrcAcc (new_escrow x ord ?t amount hashlock dst bump), ?o := order_after ord amount)"
    using m(1) ea(7) by simp
  have C: "conserved (fill_touches a) (lamports L) (lamports L')" by (rule conserved_trans [OF ea(17) m(5)])
  have T: "tokens L ?ea + moved_by_fill ord amount (tokens L ?oa) \<le> tokens L' ?ea" using m(3) ea(16) l1 by simp
  have R: "unat (minimum_balance rt (DISCRIMINATOR_BYTES + EscrowSrc_INIT_SPACE)) \<le> lamports L' ?e"
    using ea(18) [OF te] m(6) by simp
  show ?thesis
    by (rule that [OF ea(3,4,1,2) fa ea(5) [folded h] ea(20,6) P m(2) [unfolded l1] T m(4) [unfolded l1] C R m(7,8)])
qed

text \<open>\<open>create_escrow\<close> and the books.\<close>

lemma create_escrow_books:
  assumes "runtime_ok rt" "wf_ledger L" "create_escrow rt x a amount mp auction L = Inr L'"
    and "CreateEscrow.escrow a \<notin> set (signers x)"
  shows "\<exists>ord hashlock dst bump. prog L (CreateEscrow.order a) = Some (OrderAcc ord)
    \<and> CreateEscrow.taker a \<in> set (signers x)
    \<and> has_access rt L src_ID (CreateEscrow.taker a) (CreateEscrow.resolver_access a)
    \<and> fill_accepted rt x ord amount mp auction hashlock dst
    \<and> find_program_address rt (escrow_seeds (o_order_hash ord) hashlock (CreateEscrow.taker a) amount) src_ID
        = (CreateEscrow.escrow a, bump)
    \<and> no_data L (CreateEscrow.escrow a)
    \<and> prog L' = (prog L)(CreateEscrow.escrow a \<mapsto>
        EscrowSrcAcc (new_escrow x ord (CreateEscrow.taker a) amount hashlock dst bump),
        CreateEscrow.order a := order_after ord amount)"
  using assms by (rule create_escrow_effect) blast

text \<open>C11: \<open>create_escrow\<close> and the funds: the tokens of the fill (the whole balance when the fill
  takes all that remains) move from the order's to the escrow's token account, the escrow
  account is rent exempt, a closed order leaves nothing behind, and lamports move only among
  the accounts the instruction names.\<close>

theorem create_escrow_funds:
  assumes "runtime_ok rt" "wf_ledger L" "create_escrow rt x a amount mp auction L = Inr L'"
    and "CreateEscrow.escrow a \<notin> set (signers x)"
  shows "\<exists>ord. prog L (CreateEscrow.order a) = Some (OrderAcc ord)
    \<and> moved_by_fill ord amount (tokens L (CreateEscrow.order_ata a)) \<le> tokens L (CreateEscrow.order_ata a)
    \<and> tokens L (CreateEscrow.escrow_ata a) + moved_by_fill ord amount (tokens L (CreateEscrow.order_ata a))
        \<le> tokens L' (CreateEscrow.escrow_ata a)
    \<and> tokens L' (CreateEscrow.order_ata a) = (if order_closes ord amount then 0
        else tokens L (CreateEscrow.order_ata a) - moved_by_fill ord amount (tokens L (CreateEscrow.order_ata a)))
    \<and> (order_closes ord amount \<longrightarrow> lamports L' (CreateEscrow.order a) = 0)
    \<and> unat (minimum_balance rt (DISCRIMINATOR_BYTES + EscrowSrc_INIT_SPACE)) \<le> lamports L' (CreateEscrow.escrow a)
    \<and> conserved (fill_touches a) (lamports L) (lamports L')"
  using assms by (rule create_escrow_effect) blast

section \<open>Examples\<close>

definition demo_fill_order :: Order where
  "demo_fill_order = demo_order\<lparr>o_dutch_auction_data_hash := borsh_auction sample_auction\<rparr>"

definition demo_fill_key :: pubkey where
  "demo_fill_key = concat (escrow_seeds [31] [41] [13] 100)"

definition demo_fill :: CreateEscrow where
  "demo_fill = \<lparr>CreateEscrow.taker = [13], CreateEscrow.resolver_access = demo_resolver_key,
     CreateEscrow.maker = [11], CreateEscrow.mint = [6], CreateEscrow.order = demo_order_key,
     CreateEscrow.order_ata = 200 # demo_order_key @ [6], CreateEscrow.escrow = demo_fill_key,
     CreateEscrow.escrow_ata = 200 # demo_fill_key @ [6], CreateEscrow.associated_token_program = [1],
     CreateEscrow.token_program = [2], CreateEscrow.system_program = [0]\<rparr>"

lemma demo_fill_key_eq: "demo_fill_key = 101 # 115 # 99 # 114 # 111 # 119 # 31 # 41 # 13 # to_be_bytes (100 :: u64)"
  by (simp add: demo_fill_key_def escrow_seeds_def ESCROW_SEED_def ascii_def)

lemma demo_fill_keys:
  "demo_resolver_key \<noteq> 101 # ks" "101 # ks \<noteq> demo_resolver_key"
  "demo_fill_key \<noteq> 111 # ks" "demo_fill_key \<noteq> 200 # ks" "demo_fill_key \<noteq> [k]" "demo_fill_key \<noteq> demo_resolver_key"
  "demo_fill_key @ ls \<noteq> 111 # ks" "demo_fill_key @ ls \<noteq> [11, k]"
  by (simp_all add: demo_fill_key_eq demo_resolver_key_def src_ID_def)

lemma demo_fill_order_sel:
  "o_order_hash demo_fill_order = [31]" "o_hashlock demo_fill_order = [41]" "o_creator demo_fill_order = [11]"
  "o_token demo_fill_order = [6]" "o_amount demo_fill_order = 100" "o_remaining_amount demo_fill_order = 100"
  "o_expiration_time demo_fill_order = 2000" "o_allow_multiple_fills demo_fill_order = False"
  "o_dutch_auction_data_hash demo_fill_order = borsh_auction sample_auction" "o_bump demo_fill_order = 255"
  "o_dst_amount demo_fill_order = (50, 0, 0, 0)"
  by (simp_all add: demo_fill_order_def demo_order_def)

lemma demo_fill_accepted:
  "\<exists>dst. fill_accepted demo_runtime (demo_order_exec 1000) demo_fill_order 100 None sample_auction [41] dst"
  "try_to_vec sample_auction = Inr (borsh_auction sample_auction)"
proof -
  show v: "try_to_vec sample_auction = Inr (borsh_auction sample_auction)"
    by (simp add: try_to_vec_def sample_auction_def)
  obtain r where "escrow_dst_amount (unix_timestamp (demo_order_exec 1000)) (50, 0, 0, 0) 100 100 sample_auction = Inr r"
    using escrow_dst_amount_ok [of 100 100 "(50, 0, 0, 0)" "unix_timestamp (demo_order_exec 1000)" sample_auction]
    by (auto simp: amount_of_def)
  with v show "\<exists>dst. fill_accepted demo_runtime (demo_order_exec 1000) demo_fill_order 100 None sample_auction [41] dst"
    by (simp add: fill_accepted_def demo_fill_order_sel fill_hashlock_def hashv_def demo_order_exec_sel)
qed

lemma demo_fill_runs:
  "\<exists>L'. create_escrow demo_runtime (demo_order_exec 1000) demo_fill 100 None sample_auction
    (demo_order_ledger demo_fill_order) = Inr L'"
proof -
  obtain r where r: "escrow_dst_amount (unix_timestamp (demo_order_exec 1000)) (50, 0, 0, 0) 100 100 sample_auction = Inr r"
    using demo_fill_accepted(1) by (auto simp: fill_accepted_def demo_fill_order_sel)
  have h: "hashv (\<lambda>b. b) [borsh_auction sample_auction] = borsh_auction sample_auction"
    by (simp add: hashv_def)
  show ?thesis
    by (simp add: create_escrow_def CreateEscrow_accounts_def demo_fill_def init_data_def init_if_needed_ata_def
      fill_hashlock_def close_or_reduce_def get_escrow_hashlock_def demo_fill_order_sel r demo_fill_accepted(2) h
      demo_fill_keys demo_fill_keys [symmetric] demo_fill_key_def [symmetric] demo_order_simps)
qed

lemma demo_fill_sel:
  "CreateEscrow.order demo_fill = demo_order_key" "CreateEscrow.escrow demo_fill = demo_fill_key"
  "CreateEscrow.escrow_ata demo_fill = 200 # demo_fill_key @ [6]"
  "CreateEscrow.order_ata demo_fill = 200 # demo_order_key @ [6]"
  "demo_fill_key \<notin> set (signers (demo_order_exec t))"
  by (simp_all add: demo_fill_def demo_order_exec_sel demo_fill_keys)

theorem create_escrow_funds_witness:
  "\<exists>L'. create_escrow demo_runtime (demo_order_exec 1000) demo_fill 100 None sample_auction
      (demo_order_ledger demo_fill_order) = Inr L'
    \<and> 100 \<le> tokens L' (200 # demo_fill_key @ [6]) \<and> tokens L' (200 # demo_order_key @ [6]) = 0"
proof -
  obtain L' where r: "create_escrow demo_runtime (demo_order_exec 1000) demo_fill 100 None sample_auction
      (demo_order_ledger demo_fill_order) = Inr L'" using demo_fill_runs by blast
  have s: "CreateEscrow.escrow demo_fill \<notin> set (signers (demo_order_exec 1000))"
    unfolding demo_fill_sel(2) by (rule demo_fill_sel(5))
  have "100 \<le> tokens L' (200 # demo_fill_key @ [6]) \<and> tokens L' (200 # demo_order_key @ [6]) = 0"
    using create_escrow_funds [OF demo_runtime_ok demo_order_ledger_wf r s]
    by (auto simp: demo_fill_sel demo_order_facts order_closes_def moved_by_fill_def demo_fill_order_sel)
  with r show ?thesis by blast
qed

end
