(* ===== verification/SrcClaims.thy ===== *)
theory SrcClaims
  imports CommonEscrow Interfaces OrderHash
begin

text \<open>
  The life of an escrow of the source program after its creation
  (\<open>programs/cross-chain-escrow-src/src/lib.rs\<close> and \<open>utils.rs\<close>): \<open>withdraw\<close>,
  \<open>public_withdraw\<close>, \<open>cancel_escrow\<close> and \<open>public_cancel_escrow\<close>.  Each instruction is the
  loading and checking of its accounts (\<open>..._accounts\<close>), its handler and the closing of the
  escrow account.  The lemmas state who gets which tokens and lamports, and at which times.
\<close>

section \<open>\<open>utils.rs\<close>\<close>

definition escrow_signer_seeds :: "EscrowSrc \<Rightarrow> u8 \<Rightarrow> bytes list" where
  "escrow_signer_seeds e bump =
     escrow_seeds (es_order_hash e) (es_hashlock e) (es_taker e) (es_amount e) @ [[bump]]"

text \<open>\<open>escrow\<close> is passed as its key and the copy loaded; \<open>hash\<close> is Keccak of one slice.\<close>

definition utils_withdraw ::
  "runtime \<Rightarrow> exec \<Rightarrow> pubkey \<times> EscrowSrc \<Rightarrow> u8 \<Rightarrow> token_ref \<Rightarrow> token_ref \<Rightarrow> mint_ref \<Rightarrow> pubkey \<Rightarrow> pubkey
    \<Rightarrow> pubkey \<Rightarrow> bytes \<Rightarrow> ledger \<Rightarrow> ledger res" where
  "utils_withdraw rt x escrow escrow_bump escrow_ata taker_ata mint token_program rent_recipient
      safety_deposit_recipient secret L =
     require (keccak rt secret = es_hashlock (snd escrow)) (Escrow InvalidSecret)
     (let seeds = escrow_signer_seeds (snd escrow) escrow_bump in
      bindE (withdraw_and_close_token_ata rt x escrow_ata (fst escrow) (fst taker_ata) mint token_program
        rent_recipient seeds L) (\<lambda>L1.
      pay_safety_deposit rt (fst escrow) rent_recipient safety_deposit_recipient
        (es_safety_deposit (snd escrow)) L1))"

definition utils_cancel ::
  "runtime \<Rightarrow> exec \<Rightarrow> pubkey \<times> EscrowSrc \<Rightarrow> u8 \<Rightarrow> token_ref \<Rightarrow> token_ref option \<Rightarrow> mint_ref \<Rightarrow> pubkey \<Rightarrow> pubkey
    \<Rightarrow> pubkey \<Rightarrow> pubkey \<Rightarrow> ledger \<Rightarrow> ledger res" where
  "utils_cancel rt x escrow escrow_bump escrow_ata creator_ata mint token_program rent_recipient creator
      safety_deposit_recipient L =
     (let seeds = escrow_signer_seeds (snd escrow) escrow_bump in
      bindE (process_payout rt x mint (es_asset_is_native (snd escrow)) (es_amount (snd escrow)) (fst escrow)
        escrow_ata creator creator_ata rent_recipient seeds token_program L) (\<lambda>L1.
      pay_safety_deposit rt (fst escrow) rent_recipient safety_deposit_recipient
        (es_safety_deposit (snd escrow)) L1))"

section \<open>Accounts\<close>

record SrcWithdraw =
  taker :: pubkey
  mint :: pubkey
  escrow :: pubkey
  escrow_ata :: pubkey
  taker_ata :: pubkey
  token_program :: pubkey
  system_program :: pubkey

record SrcPublicWithdraw =
  taker :: pubkey
  payer :: pubkey
  resolver_access :: pubkey
  mint :: pubkey
  escrow :: pubkey
  escrow_ata :: pubkey
  taker_ata :: pubkey
  token_program :: pubkey
  system_program :: pubkey

record CancelEscrow =
  taker :: pubkey
  maker :: pubkey
  mint :: pubkey
  escrow :: pubkey
  escrow_ata :: pubkey
  maker_ata :: "pubkey option"
  token_program :: pubkey
  system_program :: pubkey

record PublicCancelEscrow =
  taker :: pubkey
  maker :: pubkey
  mint :: pubkey
  payer :: pubkey
  resolver_access :: pubkey
  escrow :: pubkey
  escrow_ata :: pubkey
  maker_ata :: "pubkey option"
  token_program :: pubkey
  system_program :: pubkey

definition SrcWithdraw_accounts :: "runtime \<Rightarrow> exec \<Rightarrow> SrcWithdraw \<Rightarrow> ledger \<Rightarrow> EscrowSrc loaded res" where
  "SrcWithdraw_accounts rt x a L =
     bindE (check_signer x (SrcWithdraw.taker a)) (\<lambda>_.
     bindE (load_mint L (SrcWithdraw.mint a)) (\<lambda>m.
     bindE (load_EscrowSrc L (SrcWithdraw.escrow a)) (\<lambda>e.
     bindE (load_token L (SrcWithdraw.escrow_ata a)) (\<lambda>ea.
     bindE (load_token L (SrcWithdraw.taker_ata a)) (\<lambda>ta.
     bindE (check_token_program rt (SrcWithdraw.token_program a)) (\<lambda>_.
     bindE (check_system_program rt (SrcWithdraw.system_program a)) (\<lambda>_.
     bindE (check_key (SrcWithdraw.taker a = es_taker e) (Escrow InvalidAccount)) (\<lambda>_.
     bindE (check_key (SrcWithdraw.mint a = es_token e) (Escrow InvalidMint)) (\<lambda>_.
     bindE (check_pda rt (escrow_seeds (es_order_hash e) (es_hashlock e) (es_taker e) (es_amount e))
       (es_bump e) src_ID (SrcWithdraw.escrow a)) (\<lambda>_.
     bindE (check_key (SrcWithdraw.escrow a \<noteq> SrcWithdraw.taker a) (Anchor ConstraintClose)) (\<lambda>_.
     bindE (check_ata rt ea (SrcWithdraw.mint a) (SrcWithdraw.escrow a) (SrcWithdraw.token_program a)) (\<lambda>_.
     bindE (check_ata rt ta (SrcWithdraw.mint a) (SrcWithdraw.taker a) (SrcWithdraw.token_program a)) (\<lambda>_.
     Inr \<lparr>ld_state = e, ld_mint = m, ld_ata = ea, ld_dest = Some ta\<rparr>)))))))))))))"

definition SrcPublicWithdraw_accounts ::
  "runtime \<Rightarrow> exec \<Rightarrow> SrcPublicWithdraw \<Rightarrow> ledger \<Rightarrow> EscrowSrc loaded res" where
  "SrcPublicWithdraw_accounts rt x a L =
     bindE (check_signer x (SrcPublicWithdraw.payer a)) (\<lambda>_.
     bindE (load_ResolverAccess L (SrcPublicWithdraw.resolver_access a)) (\<lambda>ra.
     bindE (load_mint L (SrcPublicWithdraw.mint a)) (\<lambda>m.
     bindE (load_EscrowSrc L (SrcPublicWithdraw.escrow a)) (\<lambda>e.
     bindE (load_token L (SrcPublicWithdraw.escrow_ata a)) (\<lambda>ea.
     bindE (load_token L (SrcPublicWithdraw.taker_ata a)) (\<lambda>ta.
     bindE (check_token_program rt (SrcPublicWithdraw.token_program a)) (\<lambda>_.
     bindE (check_system_program rt (SrcPublicWithdraw.system_program a)) (\<lambda>_.
     bindE (check_key (SrcPublicWithdraw.taker a = es_taker e) (Escrow InvalidAccount)) (\<lambda>_.
     bindE (check_pda rt (resolver_seeds src_ID (SrcPublicWithdraw.payer a)) (ra_bump ra) whitelist_ID
       (SrcPublicWithdraw.resolver_access a)) (\<lambda>_.
     bindE (check_key (SrcPublicWithdraw.mint a = es_token e) (Escrow InvalidMint)) (\<lambda>_.
     bindE (check_pda rt (escrow_seeds (es_order_hash e) (es_hashlock e) (es_taker e) (es_amount e))
       (es_bump e) src_ID (SrcPublicWithdraw.escrow a)) (\<lambda>_.
     bindE (check_key (SrcPublicWithdraw.escrow a \<noteq> SrcPublicWithdraw.taker a) (Anchor ConstraintClose)) (\<lambda>_.
     bindE (check_ata rt ea (SrcPublicWithdraw.mint a) (SrcPublicWithdraw.escrow a)
       (SrcPublicWithdraw.token_program a)) (\<lambda>_.
     bindE (check_ata rt ta (SrcPublicWithdraw.mint a) (SrcPublicWithdraw.taker a)
       (SrcPublicWithdraw.token_program a)) (\<lambda>_.
     Inr \<lparr>ld_state = e, ld_mint = m, ld_ata = ea, ld_dest = Some ta\<rparr>)))))))))))))))"

definition CancelEscrow_accounts :: "runtime \<Rightarrow> exec \<Rightarrow> CancelEscrow \<Rightarrow> ledger \<Rightarrow> EscrowSrc loaded res" where
  "CancelEscrow_accounts rt x a L =
     bindE (check_signer x (CancelEscrow.taker a)) (\<lambda>_.
     bindE (load_mint L (CancelEscrow.mint a)) (\<lambda>m.
     bindE (load_EscrowSrc L (CancelEscrow.escrow a)) (\<lambda>e.
     bindE (load_token L (CancelEscrow.escrow_ata a)) (\<lambda>ea.
     bindE (load_token_opt L (CancelEscrow.maker_ata a)) (\<lambda>ma.
     bindE (check_token_program rt (CancelEscrow.token_program a)) (\<lambda>_.
     bindE (check_system_program rt (CancelEscrow.system_program a)) (\<lambda>_.
     bindE (check_key (CancelEscrow.taker a = es_taker e) (Escrow InvalidAccount)) (\<lambda>_.
     bindE (check_key (CancelEscrow.maker a = es_maker e) (Escrow InvalidAccount)) (\<lambda>_.
     bindE (check_key (CancelEscrow.mint a = es_token e) (Escrow InvalidMint)) (\<lambda>_.
     bindE (check_pda rt (escrow_seeds (es_order_hash e) (es_hashlock e) (CancelEscrow.taker a) (es_amount e))
       (es_bump e) src_ID (CancelEscrow.escrow a)) (\<lambda>_.
     bindE (check_key (CancelEscrow.escrow a \<noteq> CancelEscrow.taker a) (Anchor ConstraintClose)) (\<lambda>_.
     bindE (check_ata rt ea (CancelEscrow.mint a) (CancelEscrow.escrow a) (CancelEscrow.token_program a)) (\<lambda>_.
     bindE (check_ata_opt rt ma (CancelEscrow.mint a) (CancelEscrow.maker a) (CancelEscrow.token_program a)) (\<lambda>_.
     Inr \<lparr>ld_state = e, ld_mint = m, ld_ata = ea, ld_dest = ma\<rparr>))))))))))))))"

definition PublicCancelEscrow_accounts ::
  "runtime \<Rightarrow> exec \<Rightarrow> PublicCancelEscrow \<Rightarrow> ledger \<Rightarrow> EscrowSrc loaded res" where
  "PublicCancelEscrow_accounts rt x a L =
     bindE (load_mint L (PublicCancelEscrow.mint a)) (\<lambda>m.
     bindE (check_signer x (PublicCancelEscrow.payer a)) (\<lambda>_.
     bindE (load_ResolverAccess L (PublicCancelEscrow.resolver_access a)) (\<lambda>ra.
     bindE (load_EscrowSrc L (PublicCancelEscrow.escrow a)) (\<lambda>e.
     bindE (load_token L (PublicCancelEscrow.escrow_ata a)) (\<lambda>ea.
     bindE (load_token_opt L (PublicCancelEscrow.maker_ata a)) (\<lambda>ma.
     bindE (check_token_program rt (PublicCancelEscrow.token_program a)) (\<lambda>_.
     bindE (check_system_program rt (PublicCancelEscrow.system_program a)) (\<lambda>_.
     bindE (check_key (PublicCancelEscrow.taker a = es_taker e) (Escrow InvalidAccount)) (\<lambda>_.
     bindE (check_key (PublicCancelEscrow.maker a = es_maker e) (Escrow InvalidAccount)) (\<lambda>_.
     bindE (check_key (PublicCancelEscrow.mint a = es_token e) (Escrow InvalidMint)) (\<lambda>_.
     bindE (check_pda rt (resolver_seeds src_ID (PublicCancelEscrow.payer a)) (ra_bump ra) whitelist_ID
       (PublicCancelEscrow.resolver_access a)) (\<lambda>_.
     bindE (check_pda rt (escrow_seeds (es_order_hash e) (es_hashlock e) (PublicCancelEscrow.taker a) (es_amount e))
       (es_bump e) src_ID (PublicCancelEscrow.escrow a)) (\<lambda>_.
     bindE (check_key (PublicCancelEscrow.escrow a \<noteq> PublicCancelEscrow.taker a) (Anchor ConstraintClose)) (\<lambda>_.
     bindE (check_ata rt ea (PublicCancelEscrow.mint a) (PublicCancelEscrow.escrow a)
       (PublicCancelEscrow.token_program a)) (\<lambda>_.
     bindE (check_ata_opt rt ma (PublicCancelEscrow.mint a) (es_maker e)
       (PublicCancelEscrow.token_program a)) (\<lambda>_.
     Inr \<lparr>ld_state = e, ld_mint = m, ld_ata = ea, ld_dest = ma\<rparr>))))))))))))))))"

section \<open>Instructions\<close>

definition src_withdraw :: "runtime \<Rightarrow> exec \<Rightarrow> SrcWithdraw \<Rightarrow> bytes \<Rightarrow> ledger \<Rightarrow> ledger res" where
  "src_withdraw rt x a secret L =
     bindE (check_entry src_ID x) (\<lambda>_.
     bindE (SrcWithdraw_accounts rt x a L) (\<lambda>ld.
     let e = ld_state ld in
     bindE (in_window (now x) (Timelocks (U256 (es_timelocks e))) SrcWithdrawal SrcCancellation) (\<lambda>ok.
     require ok (Escrow InvalidTime)
     (bindE (utils_withdraw rt x (SrcWithdraw.escrow a, e) (es_bump e) (ld_ata ld) (the (ld_dest ld)) (ld_mint ld)
       (SrcWithdraw.token_program a) (SrcWithdraw.taker a) (SrcWithdraw.taker a) secret L) (\<lambda>L1.
     close_program_account rt (SrcWithdraw.escrow a) (SrcWithdraw.taker a) L1)))))"

definition src_public_withdraw :: "runtime \<Rightarrow> exec \<Rightarrow> SrcPublicWithdraw \<Rightarrow> bytes \<Rightarrow> ledger \<Rightarrow> ledger res" where
  "src_public_withdraw rt x a secret L =
     bindE (check_entry src_ID x) (\<lambda>_.
     bindE (SrcPublicWithdraw_accounts rt x a L) (\<lambda>ld.
     let e = ld_state ld in
     bindE (in_window (now x) (Timelocks (U256 (es_timelocks e))) SrcPublicWithdrawal SrcCancellation) (\<lambda>ok.
     require ok (Escrow InvalidTime)
     (bindE (utils_withdraw rt x (SrcPublicWithdraw.escrow a, e) (es_bump e) (ld_ata ld) (the (ld_dest ld))
       (ld_mint ld) (SrcPublicWithdraw.token_program a) (SrcPublicWithdraw.taker a) (SrcPublicWithdraw.payer a)
       secret L) (\<lambda>L1.
     close_program_account rt (SrcPublicWithdraw.escrow a) (SrcPublicWithdraw.taker a) L1)))))"

definition cancel_escrow :: "runtime \<Rightarrow> exec \<Rightarrow> CancelEscrow \<Rightarrow> ledger \<Rightarrow> ledger res" where
  "cancel_escrow rt x a L =
     bindE (check_entry src_ID x) (\<lambda>_.
     bindE (CancelEscrow_accounts rt x a L) (\<lambda>ld.
     let e = ld_state ld in
     bindE (get (Timelocks (U256 (es_timelocks e))) SrcCancellation) (\<lambda>start.
     require (now x \<ge> start) (Escrow InvalidTime)
     (bindE (utils_cancel rt x (CancelEscrow.escrow a, e) (es_bump e) (ld_ata ld) (ld_dest ld) (ld_mint ld)
       (CancelEscrow.token_program a) (CancelEscrow.taker a) (CancelEscrow.maker a) (CancelEscrow.taker a) L) (\<lambda>L1.
     close_program_account rt (CancelEscrow.escrow a) (CancelEscrow.taker a) L1)))))"

definition public_cancel_escrow :: "runtime \<Rightarrow> exec \<Rightarrow> PublicCancelEscrow \<Rightarrow> ledger \<Rightarrow> ledger res" where
  "public_cancel_escrow rt x a L =
     bindE (check_entry src_ID x) (\<lambda>_.
     bindE (PublicCancelEscrow_accounts rt x a L) (\<lambda>ld.
     let e = ld_state ld in
     bindE (get (Timelocks (U256 (es_timelocks e))) SrcPublicCancellation) (\<lambda>start.
     require (now x \<ge> start) (Escrow InvalidTime)
     (bindE (utils_cancel rt x (PublicCancelEscrow.escrow a, e) (es_bump e) (ld_ata ld) (ld_dest ld) (ld_mint ld)
       (PublicCancelEscrow.token_program a) (PublicCancelEscrow.taker a) (PublicCancelEscrow.maker a)
       (PublicCancelEscrow.payer a) L) (\<lambda>L1.
     close_program_account rt (PublicCancelEscrow.escrow a) (PublicCancelEscrow.taker a) L1)))))"

section \<open>Inversion\<close>

lemma utils_withdraw_close:
  "bindE (utils_withdraw rt x (es, e) b ea ta m p rr sdr secret L) (\<lambda>L1. close_program_account rt es rr L1)
    = require (keccak rt secret = es_hashlock e) (Escrow InvalidSecret)
        (payout_and_close rt x m False (es_amount e) es ea rr (Some ta) rr (escrow_signer_seeds e b) p sdr
          (es_safety_deposit e) L)"
  by (cases "keccak rt secret = es_hashlock e")
    (simp_all add: utils_withdraw_def payout_and_close_def process_payout_def Let_def bindE_assoc)

lemma utils_cancel_close:
  "bindE (utils_cancel rt x (es, e) b ea ca m p rr cr sdr L) (\<lambda>L1. close_program_account rt es rr L1)
    = payout_and_close rt x m (es_asset_is_native e) (es_amount e) es ea cr ca rr (escrow_signer_seeds e b) p sdr
          (es_safety_deposit e) L"
  by (simp add: utils_cancel_def payout_and_close_def Let_def bindE_assoc)

lemma src_withdraw_Inr:
  assumes "src_withdraw rt x a secret L = Inr L'"
  obtains e m ea ta where
    "prog L (SrcWithdraw.escrow a) = Some (EscrowSrcAcc e)" "SrcWithdraw.taker a = es_taker e"
    "SrcWithdraw.taker a \<in> set (signers x)" "SrcWithdraw.escrow a \<noteq> SrcWithdraw.taker a"
    "fst ea = SrcWithdraw.escrow_ata a" "tok L (SrcWithdraw.escrow_ata a) = Some (snd ea)"
    "ta_owner (snd ea) = SrcWithdraw.escrow a"
    "fst ta = SrcWithdraw.taker_ata a" "tok L (SrcWithdraw.taker_ata a) = Some (snd ta)"
    "ta_owner (snd ta) = SrcWithdraw.taker a"
    "in_window (now x) (Timelocks (U256 (es_timelocks e))) SrcWithdrawal SrcCancellation = Inr True"
    "keccak rt secret = es_hashlock e"
    "payout_and_close rt x m False (es_amount e) (SrcWithdraw.escrow a) ea (SrcWithdraw.taker a) (Some ta)
      (SrcWithdraw.taker a) (escrow_signer_seeds e (es_bump e)) (SrcWithdraw.token_program a) (SrcWithdraw.taker a)
      (es_safety_deposit e) L = Inr L'"
proof -
  from assms obtain ld ok where
    ld: "SrcWithdraw_accounts rt x a L = Inr ld" and
    w: "in_window (now x) (Timelocks (U256 (es_timelocks (ld_state ld)))) SrcWithdrawal SrcCancellation = Inr ok" "ok" and
    r: "bindE (utils_withdraw rt x (SrcWithdraw.escrow a, ld_state ld) (es_bump (ld_state ld)) (ld_ata ld)
       (the (ld_dest ld)) (ld_mint ld) (SrcWithdraw.token_program a) (SrcWithdraw.taker a) (SrcWithdraw.taker a)
       secret L) (\<lambda>L1. close_program_account rt (SrcWithdraw.escrow a) (SrcWithdraw.taker a) L1) = Inr L'"
    by (auto simp: src_withdraw_def Let_def bindE_Inr_iff require_Inr_iff)
  from ld obtain ta where l: "ld_dest ld = Some ta"
      "prog L (SrcWithdraw.escrow a) = Some (EscrowSrcAcc (ld_state ld))" "SrcWithdraw.taker a = es_taker (ld_state ld)"
      "SrcWithdraw.taker a \<in> set (signers x)" "SrcWithdraw.escrow a \<noteq> SrcWithdraw.taker a"
      "fst (ld_ata ld) = SrcWithdraw.escrow_ata a" "tok L (SrcWithdraw.escrow_ata a) = Some (snd (ld_ata ld))"
      "ta_owner (snd (ld_ata ld)) = SrcWithdraw.escrow a"
      "fst ta = SrcWithdraw.taker_ata a" "tok L (SrcWithdraw.taker_ata a) = Some (snd ta)"
      "ta_owner (snd ta) = SrcWithdraw.taker a"
    by (auto simp: SrcWithdraw_accounts_def res_simps)
  note p = r [unfolded utils_withdraw_close require_Inr_iff l(1) option.sel]
  show ?thesis using w by (intro that [OF l(2-11) _ conjunct1 [OF p] conjunct2 [OF p]]) simp
qed

lemma src_public_withdraw_Inr:
  assumes "src_public_withdraw rt x a secret L = Inr L'"
  obtains e m ea ta ra where
    "prog L (SrcPublicWithdraw.escrow a) = Some (EscrowSrcAcc e)" "SrcPublicWithdraw.taker a = es_taker e"
    "SrcPublicWithdraw.payer a \<in> set (signers x)" "SrcPublicWithdraw.escrow a \<noteq> SrcPublicWithdraw.taker a"
    "fst ea = SrcPublicWithdraw.escrow_ata a" "tok L (SrcPublicWithdraw.escrow_ata a) = Some (snd ea)"
    "ta_owner (snd ea) = SrcPublicWithdraw.escrow a"
    "fst ta = SrcPublicWithdraw.taker_ata a" "tok L (SrcPublicWithdraw.taker_ata a) = Some (snd ta)"
    "ta_owner (snd ta) = SrcPublicWithdraw.taker a"
    "prog L (SrcPublicWithdraw.resolver_access a) = Some (ResolverAcc ra)"
    "create_program_address rt (resolver_seeds src_ID (SrcPublicWithdraw.payer a) @ [[ra_bump ra]]) whitelist_ID
      = Some (SrcPublicWithdraw.resolver_access a)"
    "in_window (now x) (Timelocks (U256 (es_timelocks e))) SrcPublicWithdrawal SrcCancellation = Inr True"
    "keccak rt secret = es_hashlock e"
    "payout_and_close rt x m False (es_amount e) (SrcPublicWithdraw.escrow a) ea (SrcPublicWithdraw.taker a)
      (Some ta) (SrcPublicWithdraw.taker a) (escrow_signer_seeds e (es_bump e)) (SrcPublicWithdraw.token_program a)
      (SrcPublicWithdraw.payer a) (es_safety_deposit e) L = Inr L'"
proof -
  from assms obtain ld ok where
    ld: "SrcPublicWithdraw_accounts rt x a L = Inr ld" and
    w: "in_window (now x) (Timelocks (U256 (es_timelocks (ld_state ld)))) SrcPublicWithdrawal SrcCancellation = Inr ok" "ok" and
    r: "bindE (utils_withdraw rt x (SrcPublicWithdraw.escrow a, ld_state ld) (es_bump (ld_state ld)) (ld_ata ld)
       (the (ld_dest ld)) (ld_mint ld) (SrcPublicWithdraw.token_program a) (SrcPublicWithdraw.taker a)
       (SrcPublicWithdraw.payer a) secret L)
       (\<lambda>L1. close_program_account rt (SrcPublicWithdraw.escrow a) (SrcPublicWithdraw.taker a) L1) = Inr L'"
    by (auto simp: src_public_withdraw_def Let_def bindE_Inr_iff require_Inr_iff)
  from ld obtain ta ra where l: "ld_dest ld = Some ta"
      "prog L (SrcPublicWithdraw.escrow a) = Some (EscrowSrcAcc (ld_state ld))"
      "SrcPublicWithdraw.taker a = es_taker (ld_state ld)"
      "SrcPublicWithdraw.payer a \<in> set (signers x)" "SrcPublicWithdraw.escrow a \<noteq> SrcPublicWithdraw.taker a"
      "fst (ld_ata ld) = SrcPublicWithdraw.escrow_ata a" "tok L (SrcPublicWithdraw.escrow_ata a) = Some (snd (ld_ata ld))"
      "ta_owner (snd (ld_ata ld)) = SrcPublicWithdraw.escrow a"
      "fst ta = SrcPublicWithdraw.taker_ata a" "tok L (SrcPublicWithdraw.taker_ata a) = Some (snd ta)"
      "ta_owner (snd ta) = SrcPublicWithdraw.taker a"
      "prog L (SrcPublicWithdraw.resolver_access a) = Some (ResolverAcc ra)"
      "create_program_address rt (resolver_seeds src_ID (SrcPublicWithdraw.payer a) @ [[ra_bump ra]]) whitelist_ID
        = Some (SrcPublicWithdraw.resolver_access a)"
    by (auto simp: SrcPublicWithdraw_accounts_def res_simps)
  note p = r [unfolded utils_withdraw_close require_Inr_iff l(1) option.sel]
  show ?thesis using w by (intro that [OF l(2-13) _ conjunct1 [OF p] conjunct2 [OF p]]) simp
qed

lemma cancel_escrow_Inr:
  assumes "cancel_escrow rt x a L = Inr L'"
  obtains e m ea ma start where
    "prog L (CancelEscrow.escrow a) = Some (EscrowSrcAcc e)"
    "CancelEscrow.taker a = es_taker e" "CancelEscrow.maker a = es_maker e"
    "CancelEscrow.taker a \<in> set (signers x)" "CancelEscrow.escrow a \<noteq> CancelEscrow.taker a"
    "fst ea = CancelEscrow.escrow_ata a" "tok L (CancelEscrow.escrow_ata a) = Some (snd ea)"
    "ta_owner (snd ea) = CancelEscrow.escrow a"
    "CancelEscrow.maker_ata a = map_option fst ma"
    "\<forall>ta. ma = Some ta \<longrightarrow> tok L (fst ta) = Some (snd ta) \<and> ta_owner (snd ta) = CancelEscrow.maker a"
    "get (Timelocks (U256 (es_timelocks e))) SrcCancellation = Inr start" "start \<le> now x"
    "payout_and_close rt x m (es_asset_is_native e) (es_amount e) (CancelEscrow.escrow a) ea (CancelEscrow.maker a)
      ma (CancelEscrow.taker a) (escrow_signer_seeds e (es_bump e)) (CancelEscrow.token_program a)
      (CancelEscrow.taker a) (es_safety_deposit e) L = Inr L'"
proof -
  from assms obtain ld start where
    ld: "CancelEscrow_accounts rt x a L = Inr ld" and
    w: "get (Timelocks (U256 (es_timelocks (ld_state ld)))) SrcCancellation = Inr start" "start \<le> now x" and
    r: "bindE (utils_cancel rt x (CancelEscrow.escrow a, ld_state ld) (es_bump (ld_state ld)) (ld_ata ld)
       (ld_dest ld) (ld_mint ld) (CancelEscrow.token_program a) (CancelEscrow.taker a) (CancelEscrow.maker a)
       (CancelEscrow.taker a) L) (\<lambda>L1. close_program_account rt (CancelEscrow.escrow a) (CancelEscrow.taker a) L1) = Inr L'"
    by (auto simp: cancel_escrow_def Let_def bindE_Inr_iff require_Inr_iff)
  from ld have l:
      "prog L (CancelEscrow.escrow a) = Some (EscrowSrcAcc (ld_state ld))"
      "CancelEscrow.taker a = es_taker (ld_state ld)" "CancelEscrow.maker a = es_maker (ld_state ld)"
      "CancelEscrow.taker a \<in> set (signers x)" "CancelEscrow.escrow a \<noteq> CancelEscrow.taker a"
      "fst (ld_ata ld) = CancelEscrow.escrow_ata a" "tok L (CancelEscrow.escrow_ata a) = Some (snd (ld_ata ld))"
      "ta_owner (snd (ld_ata ld)) = CancelEscrow.escrow a"
      "CancelEscrow.maker_ata a = map_option fst (ld_dest ld)"
      "\<forall>ta. ld_dest ld = Some ta \<longrightarrow> tok L (fst ta) = Some (snd ta) \<and> ta_owner (snd ta) = CancelEscrow.maker a"
    by (auto simp: CancelEscrow_accounts_def res_simps)
  show ?thesis by (rule that [OF l w r [unfolded utils_cancel_close]])
qed

lemma public_cancel_escrow_Inr:
  assumes "public_cancel_escrow rt x a L = Inr L'"
  obtains e m ea ma start ra where
    "prog L (PublicCancelEscrow.escrow a) = Some (EscrowSrcAcc e)"
    "PublicCancelEscrow.taker a = es_taker e" "PublicCancelEscrow.maker a = es_maker e"
    "PublicCancelEscrow.payer a \<in> set (signers x)" "PublicCancelEscrow.escrow a \<noteq> PublicCancelEscrow.taker a"
    "fst ea = PublicCancelEscrow.escrow_ata a" "tok L (PublicCancelEscrow.escrow_ata a) = Some (snd ea)"
    "ta_owner (snd ea) = PublicCancelEscrow.escrow a"
    "PublicCancelEscrow.maker_ata a = map_option fst ma"
    "\<forall>ta. ma = Some ta \<longrightarrow> tok L (fst ta) = Some (snd ta) \<and> ta_owner (snd ta) = PublicCancelEscrow.maker a"
    "prog L (PublicCancelEscrow.resolver_access a) = Some (ResolverAcc ra)"
    "create_program_address rt (resolver_seeds src_ID (PublicCancelEscrow.payer a) @ [[ra_bump ra]]) whitelist_ID
      = Some (PublicCancelEscrow.resolver_access a)"
    "get (Timelocks (U256 (es_timelocks e))) SrcPublicCancellation = Inr start" "start \<le> now x"
    "payout_and_close rt x m (es_asset_is_native e) (es_amount e) (PublicCancelEscrow.escrow a) ea
      (PublicCancelEscrow.maker a) ma (PublicCancelEscrow.taker a) (escrow_signer_seeds e (es_bump e))
      (PublicCancelEscrow.token_program a) (PublicCancelEscrow.payer a) (es_safety_deposit e) L = Inr L'"
proof -
  from assms obtain ld start where
    ld: "PublicCancelEscrow_accounts rt x a L = Inr ld" and
    w: "get (Timelocks (U256 (es_timelocks (ld_state ld)))) SrcPublicCancellation = Inr start" "start \<le> now x" and
    r: "bindE (utils_cancel rt x (PublicCancelEscrow.escrow a, ld_state ld) (es_bump (ld_state ld)) (ld_ata ld)
       (ld_dest ld) (ld_mint ld) (PublicCancelEscrow.token_program a) (PublicCancelEscrow.taker a)
       (PublicCancelEscrow.maker a) (PublicCancelEscrow.payer a) L)
       (\<lambda>L1. close_program_account rt (PublicCancelEscrow.escrow a) (PublicCancelEscrow.taker a) L1) = Inr L'"
    by (auto simp: public_cancel_escrow_def Let_def bindE_Inr_iff require_Inr_iff)
  from ld obtain ra where l:
      "prog L (PublicCancelEscrow.escrow a) = Some (EscrowSrcAcc (ld_state ld))"
      "PublicCancelEscrow.taker a = es_taker (ld_state ld)" "PublicCancelEscrow.maker a = es_maker (ld_state ld)"
      "PublicCancelEscrow.payer a \<in> set (signers x)" "PublicCancelEscrow.escrow a \<noteq> PublicCancelEscrow.taker a"
      "fst (ld_ata ld) = PublicCancelEscrow.escrow_ata a" "tok L (PublicCancelEscrow.escrow_ata a) = Some (snd (ld_ata ld))"
      "ta_owner (snd (ld_ata ld)) = PublicCancelEscrow.escrow a"
      "PublicCancelEscrow.maker_ata a = map_option fst (ld_dest ld)"
      "\<forall>ta. ld_dest ld = Some ta \<longrightarrow> tok L (fst ta) = Some (snd ta) \<and> ta_owner (snd ta) = PublicCancelEscrow.maker a"
      "prog L (PublicCancelEscrow.resolver_access a) = Some (ResolverAcc ra)"
      "create_program_address rt (resolver_seeds src_ID (PublicCancelEscrow.payer a) @ [[ra_bump ra]]) whitelist_ID
        = Some (PublicCancelEscrow.resolver_access a)"
    by (auto simp: PublicCancelEscrow_accounts_def res_simps)
  show ?thesis by (rule that [OF l w r [unfolded utils_cancel_close]])
qed

section \<open>Who is paid\<close>

text \<open>What \<open>withdraw\<close> on the source chain does when it succeeds.\<close>

lemma src_withdraw_settles:
  assumes "runtime_ok rt" "wf_ledger L" "src_withdraw rt x a secret L = Inr L'"
  shows "\<exists>e. prog L (SrcWithdraw.escrow a) = Some (EscrowSrcAcc e)
    \<and> SrcWithdraw.taker a = es_taker e \<and> SrcWithdraw.taker a \<in> set (signers x)
    \<and> keccak rt secret = es_hashlock e
    \<and> in_window (now x) (Timelocks (U256 (es_timelocks e))) SrcWithdrawal SrcCancellation = Inr True
    \<and> settled L L' (SrcWithdraw.escrow a) (SrcWithdraw.escrow_ata a)
        [(SrcWithdraw.taker_ata a, tokens L (SrcWithdraw.escrow_ata a))]
        [(SrcWithdraw.taker_ata a, backing L (SrcWithdraw.escrow_ata a)),
         (SrcWithdraw.taker a, lamports L (SrcWithdraw.escrow a) + lamports L (SrcWithdraw.escrow_ata a)
            - backing L (SrcWithdraw.escrow_ata a))]"
  using assms(3)
proof (rule src_withdraw_Inr)
  fix e m ea ta
  assume i: "prog L (SrcWithdraw.escrow a) = Some (EscrowSrcAcc e)" "SrcWithdraw.taker a = es_taker e"
    "SrcWithdraw.taker a \<in> set (signers x)" "SrcWithdraw.escrow a \<noteq> SrcWithdraw.taker a"
    and ea: "fst ea = SrcWithdraw.escrow_ata a" "tok L (SrcWithdraw.escrow_ata a) = Some (snd ea)"
    "ta_owner (snd ea) = SrcWithdraw.escrow a"
    and ta: "fst ta = SrcWithdraw.taker_ata a" "tok L (SrcWithdraw.taker_ata a) = Some (snd ta)"
    "ta_owner (snd ta) = SrcWithdraw.taker a"
    and g: "in_window (now x) (Timelocks (U256 (es_timelocks e))) SrcWithdrawal SrcCancellation = Inr True"
    "keccak rt secret = es_hashlock e"
    and p: "payout_and_close rt x m False (es_amount e) (SrcWithdraw.escrow a) ea (SrcWithdraw.taker a) (Some ta)
      (SrcWithdraw.taker a) (escrow_signer_seeds e (es_bump e)) (SrcWithdraw.token_program a) (SrcWithdraw.taker a)
      (es_safety_deposit e) L = Inr L'"
  have d: "payout_dest False (SrcWithdraw.taker a) (Some ta) = SrcWithdraw.taker_ata a"
    using ta by (simp add: payout_dest_def)
  have n: "SrcWithdraw.escrow a \<noteq> SrcWithdraw.taker_ata a" "SrcWithdraw.escrow_ata a \<noteq> SrcWithdraw.taker_ata a"
    using wf_ledger_neq [OF assms(2)] i(1,4) ta ea by auto
  have t: "tok L (fst ea) = Some (snd ea)" "prog L (SrcWithdraw.escrow a) \<noteq> None" using ea i by simp_all
  note s = payout_and_close_settled [OF assms(1,2) p t, unfolded d]
  have b: "payout_lamports False (es_amount e) ea = backing L (SrcWithdraw.escrow_ata a)"
    using s(4) n i(4) ea by simp
  show ?thesis using s(1) i g n ea by (intro exI [where x = e]) (simp add: b)
qed

text \<open>C13: \<open>withdraw\<close> on the source chain: it succeeds only for the taker, inside the private
  withdrawal window and with the preimage of the hashlock; it then delivers every token of the
  escrow to the taker's account, the rent of both closed accounts and the safety deposit to
  the taker, and removes the escrow.\<close>

theorem src_withdraw_correct:
  assumes "runtime_ok rt" "wf_ledger L" "src_withdraw rt x a secret L = Inr L'"
  shows "\<exists>e. prog L (SrcWithdraw.escrow a) = Some (EscrowSrcAcc e)
    \<and> SrcWithdraw.taker a = es_taker e \<and> SrcWithdraw.taker a \<in> set (signers x)
    \<and> keccak rt secret = es_hashlock e
    \<and> in_window (now x) (Timelocks (U256 (es_timelocks e))) SrcWithdrawal SrcCancellation = Inr True
    \<and> settled L L' (SrcWithdraw.escrow a) (SrcWithdraw.escrow_ata a)
        [(SrcWithdraw.taker_ata a, tokens L (SrcWithdraw.escrow_ata a))]
        [(SrcWithdraw.taker_ata a, backing L (SrcWithdraw.escrow_ata a)),
         (SrcWithdraw.taker a, lamports L (SrcWithdraw.escrow a) + lamports L (SrcWithdraw.escrow_ata a)
            - backing L (SrcWithdraw.escrow_ata a))]"
  by (rule src_withdraw_settles [OF assms])

text \<open>C14: \<open>public_withdraw\<close> on the source chain: a whitelisted resolver may claim for the taker
  inside the public withdrawal window; the tokens go to the taker, and the safety deposit is
  taken from the taker's share of the lamports and paid to the resolver.\<close>

theorem src_public_withdraw_correct:
  assumes "runtime_ok rt" "wf_ledger L" "src_public_withdraw rt x a secret L = Inr L'"
    and "SrcPublicWithdraw.escrow a \<notin> set (signers x)"
  shows "\<exists>e. prog L (SrcPublicWithdraw.escrow a) = Some (EscrowSrcAcc e)
    \<and> SrcPublicWithdraw.taker a = es_taker e \<and> SrcPublicWithdraw.payer a \<in> set (signers x)
    \<and> has_access rt L src_ID (SrcPublicWithdraw.payer a) (SrcPublicWithdraw.resolver_access a)
    \<and> keccak rt secret = es_hashlock e
    \<and> in_window (now x) (Timelocks (U256 (es_timelocks e))) SrcPublicWithdrawal SrcCancellation = Inr True
    \<and> settled L L' (SrcPublicWithdraw.escrow a) (SrcPublicWithdraw.escrow_ata a)
        [(SrcPublicWithdraw.taker_ata a, tokens L (SrcPublicWithdraw.escrow_ata a))]
        [(SrcPublicWithdraw.taker_ata a, backing L (SrcPublicWithdraw.escrow_ata a)),
         (SrcPublicWithdraw.payer a, deposit_due (SrcPublicWithdraw.taker a) (SrcPublicWithdraw.payer a) (es_safety_deposit e)),
         (SrcPublicWithdraw.taker a, lamports L (SrcPublicWithdraw.escrow a)
            + lamports L (SrcPublicWithdraw.escrow_ata a) - backing L (SrcPublicWithdraw.escrow_ata a) 
            - deposit_due (SrcPublicWithdraw.taker a) (SrcPublicWithdraw.payer a) (es_safety_deposit e))]"
  using assms(3)
proof (rule src_public_withdraw_Inr)
  fix e m ea ta ra
  assume i: "prog L (SrcPublicWithdraw.escrow a) = Some (EscrowSrcAcc e)" "SrcPublicWithdraw.taker a = es_taker e"
    "SrcPublicWithdraw.payer a \<in> set (signers x)" "SrcPublicWithdraw.escrow a \<noteq> SrcPublicWithdraw.taker a"
    and ea: "fst ea = SrcPublicWithdraw.escrow_ata a" "tok L (SrcPublicWithdraw.escrow_ata a) = Some (snd ea)"
    "ta_owner (snd ea) = SrcPublicWithdraw.escrow a"
    and ta: "fst ta = SrcPublicWithdraw.taker_ata a" "tok L (SrcPublicWithdraw.taker_ata a) = Some (snd ta)"
    "ta_owner (snd ta) = SrcPublicWithdraw.taker a"
    and ra: "prog L (SrcPublicWithdraw.resolver_access a) = Some (ResolverAcc ra)"
    "create_program_address rt (resolver_seeds src_ID (SrcPublicWithdraw.payer a) @ [[ra_bump ra]]) whitelist_ID
      = Some (SrcPublicWithdraw.resolver_access a)"
    and g: "in_window (now x) (Timelocks (U256 (es_timelocks e))) SrcPublicWithdrawal SrcCancellation = Inr True"
    "keccak rt secret = es_hashlock e"
    and p: "payout_and_close rt x m False (es_amount e) (SrcPublicWithdraw.escrow a) ea (SrcPublicWithdraw.taker a)
      (Some ta) (SrcPublicWithdraw.taker a) (escrow_signer_seeds e (es_bump e)) (SrcPublicWithdraw.token_program a)
      (SrcPublicWithdraw.payer a) (es_safety_deposit e) L = Inr L'"
  have d: "payout_dest False (SrcPublicWithdraw.taker a) (Some ta) = SrcPublicWithdraw.taker_ata a"
    using ta by (simp add: payout_dest_def)
  have n: "SrcPublicWithdraw.escrow a \<noteq> SrcPublicWithdraw.taker_ata a"
    "SrcPublicWithdraw.escrow_ata a \<noteq> SrcPublicWithdraw.taker_ata a"
    "SrcPublicWithdraw.escrow a \<noteq> SrcPublicWithdraw.payer a"
    using wf_ledger_neq [OF assms(2)] assms(4) i(1,3,4) ta ea by auto
  have t: "tok L (fst ea) = Some (snd ea)" "prog L (SrcPublicWithdraw.escrow a) \<noteq> None" using ea i by simp_all
  note s = payout_and_close_settled [OF assms(1,2) p t, unfolded d]
  have b: "payout_lamports False (es_amount e) ea = backing L (SrcPublicWithdraw.escrow_ata a)"
    using s(4) n ea by simp
  have acc: "has_access rt L src_ID (SrcPublicWithdraw.payer a) (SrcPublicWithdraw.resolver_access a)"
    using ra by (auto simp: has_access_def)
  show ?thesis using s(1) i g n ea acc by (intro exI [where x = e]) (simp add: b)
qed

text \<open>What the maker gets back: the tokens at the maker's associated account, or, for native
  assets, the escrowed amount in lamports at the maker's own account.\<close>

definition refund_key :: "EscrowSrc \<Rightarrow> pubkey option \<Rightarrow> pubkey" where
  "refund_key e ata = pay_key (es_asset_is_native e) (es_maker e) ata"

definition refund_lamports :: "EscrowSrc \<Rightarrow> ledger \<Rightarrow> pubkey \<Rightarrow> nat" where
  "refund_lamports e L ea = pay_lamports (es_asset_is_native e) (es_amount e) L ea"

definition refund_tokens :: "EscrowSrc \<Rightarrow> pubkey option \<Rightarrow> ledger \<Rightarrow> pubkey \<Rightarrow> (pubkey \<times> nat) list" where
  "refund_tokens e ata L ea = pay_tokens (es_asset_is_native e) (es_maker e) ata L ea"

lemmas refund_to_defs = refund_tokens_def refund_key_def refund_lamports_def

lemmas refund_defs = refund_to_defs pay_tokens_def pay_key_def pay_lamports_def

text \<open>C15: \<open>cancel_escrow\<close>: it succeeds only for the taker and only once the cancellation time
  is reached; the maker gets the escrowed tokens back (native assets unwrapped, the exact
  amount), the taker the rent and the safety deposit, and the escrow is gone.\<close>

theorem cancel_escrow_correct:
  assumes "runtime_ok rt" "wf_ledger L" "cancel_escrow rt x a L = Inr L'"
    and "CancelEscrow.maker a \<noteq> CancelEscrow.escrow a"
  shows "\<exists>e start. prog L (CancelEscrow.escrow a) = Some (EscrowSrcAcc e)
    \<and> CancelEscrow.taker a = es_taker e \<and> CancelEscrow.maker a = es_maker e
    \<and> CancelEscrow.taker a \<in> set (signers x)
    \<and> get (Timelocks (U256 (es_timelocks e))) SrcCancellation = Inr start \<and> start \<le> now x
    \<and> (es_asset_is_native e \<or> CancelEscrow.maker_ata a \<noteq> None)
    \<and> settled L L' (CancelEscrow.escrow a) (CancelEscrow.escrow_ata a)
        (refund_tokens e (CancelEscrow.maker_ata a) L (CancelEscrow.escrow_ata a))
        [(refund_key e (CancelEscrow.maker_ata a), refund_lamports e L (CancelEscrow.escrow_ata a)),
         (CancelEscrow.taker a, lamports L (CancelEscrow.escrow a) + lamports L (CancelEscrow.escrow_ata a)
            - refund_lamports e L (CancelEscrow.escrow_ata a))]"
  using assms(3)
proof (rule cancel_escrow_Inr)
  fix e m ea ma start
  assume i: "prog L (CancelEscrow.escrow a) = Some (EscrowSrcAcc e)"
    "CancelEscrow.taker a = es_taker e" "CancelEscrow.maker a = es_maker e"
    "CancelEscrow.taker a \<in> set (signers x)" "CancelEscrow.escrow a \<noteq> CancelEscrow.taker a"
    and ea: "fst ea = CancelEscrow.escrow_ata a" "tok L (CancelEscrow.escrow_ata a) = Some (snd ea)"
    "ta_owner (snd ea) = CancelEscrow.escrow a"
    and ma: "CancelEscrow.maker_ata a = map_option fst ma"
    "\<forall>ta. ma = Some ta \<longrightarrow> tok L (fst ta) = Some (snd ta) \<and> ta_owner (snd ta) = CancelEscrow.maker a"
    and g: "get (Timelocks (U256 (es_timelocks e))) SrcCancellation = Inr start" "start \<le> now x"
    and p: "payout_and_close rt x m (es_asset_is_native e) (es_amount e) (CancelEscrow.escrow a) ea
      (CancelEscrow.maker a) ma (CancelEscrow.taker a) (escrow_signer_seeds e (es_bump e))
      (CancelEscrow.token_program a) (CancelEscrow.taker a) (es_safety_deposit e) L = Inr L'"
  have t: "tok L (fst ea) = Some (snd ea)" "prog L (CancelEscrow.escrow a) \<noteq> None" using ea i by simp_all
  have n: "es_maker e \<noteq> CancelEscrow.escrow a" using assms(4) i by simp
  note s = payout_to_settled [OF assms(1,2) p [unfolded i(3)] t ea(3) ma(2) [unfolded i(3)] n i(5)]
  show ?thesis using s i g ea ma by (intro exI [where x = e] exI [where x = start]) (simp add: refund_to_defs)
qed

text \<open>C16: \<open>public_cancel_escrow\<close>: the same refund for the maker, by a whitelisted resolver once
  the public cancellation time is reached; the safety deposit goes to the resolver and the
  rest of the rent to the taker.\<close>

theorem public_cancel_escrow_correct:
  assumes "runtime_ok rt" "wf_ledger L" "public_cancel_escrow rt x a L = Inr L'"
    and "PublicCancelEscrow.maker a \<noteq> PublicCancelEscrow.escrow a"
    and "PublicCancelEscrow.escrow a \<notin> set (signers x)"
  shows "\<exists>e start. prog L (PublicCancelEscrow.escrow a) = Some (EscrowSrcAcc e)
    \<and> PublicCancelEscrow.taker a = es_taker e \<and> PublicCancelEscrow.maker a = es_maker e
    \<and> PublicCancelEscrow.payer a \<in> set (signers x)
    \<and> has_access rt L src_ID (PublicCancelEscrow.payer a) (PublicCancelEscrow.resolver_access a)
    \<and> get (Timelocks (U256 (es_timelocks e))) SrcPublicCancellation = Inr start \<and> start \<le> now x
    \<and> (es_asset_is_native e \<or> PublicCancelEscrow.maker_ata a \<noteq> None)
    \<and> settled L L' (PublicCancelEscrow.escrow a) (PublicCancelEscrow.escrow_ata a)
        (refund_tokens e (PublicCancelEscrow.maker_ata a) L (PublicCancelEscrow.escrow_ata a))
        [(refund_key e (PublicCancelEscrow.maker_ata a), refund_lamports e L (PublicCancelEscrow.escrow_ata a)),
         (PublicCancelEscrow.payer a, deposit_due (PublicCancelEscrow.taker a) (PublicCancelEscrow.payer a) (es_safety_deposit e)),
         (PublicCancelEscrow.taker a, lamports L (PublicCancelEscrow.escrow a)
            + lamports L (PublicCancelEscrow.escrow_ata a)
            - refund_lamports e L (PublicCancelEscrow.escrow_ata a) 
            - deposit_due (PublicCancelEscrow.taker a) (PublicCancelEscrow.payer a) (es_safety_deposit e))]"
  using assms(3)
proof (rule public_cancel_escrow_Inr)
  fix e m ea ma start ra
  assume i: "prog L (PublicCancelEscrow.escrow a) = Some (EscrowSrcAcc e)"
    "PublicCancelEscrow.taker a = es_taker e" "PublicCancelEscrow.maker a = es_maker e"
    "PublicCancelEscrow.payer a \<in> set (signers x)" "PublicCancelEscrow.escrow a \<noteq> PublicCancelEscrow.taker a"
    and ea: "fst ea = PublicCancelEscrow.escrow_ata a" "tok L (PublicCancelEscrow.escrow_ata a) = Some (snd ea)"
    "ta_owner (snd ea) = PublicCancelEscrow.escrow a"
    and ma: "PublicCancelEscrow.maker_ata a = map_option fst ma"
    "\<forall>ta. ma = Some ta \<longrightarrow> tok L (fst ta) = Some (snd ta) \<and> ta_owner (snd ta) = PublicCancelEscrow.maker a"
    and ra: "prog L (PublicCancelEscrow.resolver_access a) = Some (ResolverAcc ra)"
    "create_program_address rt (resolver_seeds src_ID (PublicCancelEscrow.payer a) @ [[ra_bump ra]]) whitelist_ID
      = Some (PublicCancelEscrow.resolver_access a)"
    and g: "get (Timelocks (U256 (es_timelocks e))) SrcPublicCancellation = Inr start" "start \<le> now x"
    and p: "payout_and_close rt x m (es_asset_is_native e) (es_amount e) (PublicCancelEscrow.escrow a) ea
      (PublicCancelEscrow.maker a) ma (PublicCancelEscrow.taker a) (escrow_signer_seeds e (es_bump e))
      (PublicCancelEscrow.token_program a) (PublicCancelEscrow.payer a) (es_safety_deposit e) L = Inr L'"
  have t: "tok L (fst ea) = Some (snd ea)" "prog L (PublicCancelEscrow.escrow a) \<noteq> None" using ea i by simp_all
  have n: "es_maker e \<noteq> PublicCancelEscrow.escrow a" "PublicCancelEscrow.escrow a \<noteq> PublicCancelEscrow.payer a"
    using assms(4,5) i by auto
  note s = payout_to_settled [OF assms(1,2) p [unfolded i(3)] t ea(3) ma(2) [unfolded i(3)] n]
  have acc: "has_access rt L src_ID (PublicCancelEscrow.payer a) (PublicCancelEscrow.resolver_access a)"
    using ra by (auto simp: has_access_def)
  show ?thesis using s i g ea ma acc
    by (intro exI [where x = e] exI [where x = start]) (simp add: refund_to_defs)
qed

section \<open>Times of claims and refunds\<close>

definition src_can_claim :: "EscrowSrc \<Rightarrow> u32 \<Rightarrow> bool" where
  "src_can_claim e t \<longleftrightarrow>
     in_window t (Timelocks (U256 (es_timelocks e))) SrcWithdrawal SrcCancellation = Inr True
     \<or> in_window t (Timelocks (U256 (es_timelocks e))) SrcPublicWithdrawal SrcCancellation = Inr True"

definition src_can_refund :: "EscrowSrc \<Rightarrow> u32 \<Rightarrow> bool" where
  "src_can_refund e t \<longleftrightarrow>
     (case get (Timelocks (U256 (es_timelocks e))) SrcCancellation of Inr s \<Rightarrow> s \<le> t | Inl _ \<Rightarrow> False)"

interpretation src_window: htlc_window src_can_claim src_can_refund
proof unfold_locales
  fix e t t'
  assume "src_can_claim e t" "src_can_refund e t'"
  then show "t < t'"
    by (auto simp: src_can_claim_def src_can_refund_def in_window_Inr_iff get_Inr_iff word_less_nat_alt
        word_le_nat_alt split: sum.splits)
next
  fix e :: EscrowSrc and t t' :: u32
  assume "src_can_refund e t" "t \<le> t'"
  then show "src_can_refund e t'" by (auto simp: src_can_refund_def split: sum.splits)
qed

definition src_claims :: "runtime \<Rightarrow> exec \<Rightarrow> pubkey \<Rightarrow> ledger \<Rightarrow> ledger \<Rightarrow> bool" where
  "src_claims rt x k L L' \<longleftrightarrow>
     (\<exists>a secret. src_withdraw rt x a secret L = Inr L' \<and> SrcWithdraw.escrow a = k)
     \<or> (\<exists>a secret. src_public_withdraw rt x a secret L = Inr L' \<and> SrcPublicWithdraw.escrow a = k)"

definition src_cancels :: "runtime \<Rightarrow> exec \<Rightarrow> pubkey \<Rightarrow> ledger \<Rightarrow> ledger \<Rightarrow> bool" where
  "src_cancels rt x k L L' \<longleftrightarrow> (\<exists>a. cancel_escrow rt x a L = Inr L' \<and> CancelEscrow.escrow a = k)"

definition src_public_cancels :: "runtime \<Rightarrow> exec \<Rightarrow> pubkey \<Rightarrow> ledger \<Rightarrow> ledger \<Rightarrow> bool" where
  "src_public_cancels rt x k L L' \<longleftrightarrow>
     (\<exists>a. public_cancel_escrow rt x a L = Inr L' \<and> PublicCancelEscrow.escrow a = k)"

text \<open>The public cancellation starts before the private one.  The program does not exclude it.\<close>

definition public_early :: "EscrowSrc \<Rightarrow> bool" where
  "public_early e \<longleftrightarrow>
     delta (U256 (es_timelocks e)) SrcPublicCancellation < delta (U256 (es_timelocks e)) SrcCancellation"

lemma src_claimsD:
  "src_claims rt x k L L' \<Longrightarrow> \<exists>e. prog L k = Some (EscrowSrcAcc e) \<and> src_can_claim e (now x)"
  unfolding src_claims_def src_can_claim_def
  by (elim disjE exE conjE; elim src_withdraw_Inr src_public_withdraw_Inr) blast+

lemma src_can_claim_less:
  "src_can_claim e t \<Longrightarrow>
    unat t < unat (deployed_at (U256 (es_timelocks e))) + unat (delta (U256 (es_timelocks e)) SrcCancellation)"
  by (auto simp: src_can_claim_def in_window_Inr_iff)

lemma src_cancelsD:
  assumes "src_cancels rt x k L L'" "prog L k = Some (EscrowSrcAcc e)"
  shows "src_can_refund e (now x)"
  using assms unfolding src_cancels_def src_can_refund_def by (elim exE conjE; elim cancel_escrow_Inr) auto

lemma src_can_refund_le:
  "src_can_refund e t \<Longrightarrow>
    unat (deployed_at (U256 (es_timelocks e))) + unat (delta (U256 (es_timelocks e)) SrcCancellation) \<le> unat t"
  by (auto simp: src_can_refund_def get_Inr_iff word_le_nat_alt split: sum.splits)

lemma src_public_cancelsD:
  assumes "src_public_cancels rt x k L L'" "prog L k = Some (EscrowSrcAcc e)"
  shows "unat (deployed_at (U256 (es_timelocks e))) + unat (delta (U256 (es_timelocks e)) SrcPublicCancellation)
    \<le> unat (now x)"
proof -
  from assms obtain start where "get (Timelocks (U256 (es_timelocks e))) SrcPublicCancellation = Inr start" "start \<le> now x"
    unfolding src_public_cancels_def by (elim exE conjE; elim public_cancel_escrow_Inr) auto
  then show ?thesis by (simp add: get_Inr_iff word_le_nat_alt)
qed

section \<open>Examples\<close>

text \<open>An escrow deployed at time 1000: withdrawal from 1010, public withdrawal from 1020,
  cancellation from 1030, public cancellation from 1040.\<close>

definition demo_timelocks :: u64x4 where
  "demo_timelocks = (85899345930, 171798691870, 0, 4294967296000)"

definition demo_escrow :: EscrowSrc where
  "demo_escrow = \<lparr>es_order_hash = [31], es_hashlock = [41], es_maker = [11], es_taker = [12], es_token = [6],
     es_amount = 100, es_safety_deposit = 7, es_timelocks = demo_timelocks, es_asset_is_native = False,
     es_dst_amount = (50, 0, 0, 0), es_bump = 255\<rparr>"

definition demo_escrow_key :: pubkey where
  "demo_escrow_key = [101, 115, 99, 114, 111, 119, 31, 41, 12, 0, 0, 0, 0, 0, 0, 0, 100]"

definition demo_account :: "pubkey \<Rightarrow> u64 \<Rightarrow> TokenAccount" where
  "demo_account owner amount =
     \<lparr>ta_mint = [6], ta_owner = owner, ta_amount = amount, ta_native = None, ta_program = [2]\<rparr>"

definition demo_access_key :: pubkey where
  "demo_access_key = src_ID @ [13]"

definition demo_ledger :: "EscrowSrc \<Rightarrow> ledger" where
  "demo_ledger e = \<lparr>lam = (\<lambda>k. 1000),
     tok = [200 # demo_escrow_key @ [6] \<mapsto> demo_account demo_escrow_key 100,
            [200, 12, 6] \<mapsto> demo_account [12] 1, [200, 11, 6] \<mapsto> demo_account [11] 2],
     mints = [[6] \<mapsto> \<lparr>m_decimals = 9, m_program = [2]\<rparr>],
     prog = [demo_escrow_key \<mapsto> EscrowSrcAcc e, demo_access_key \<mapsto> ResolverAcc \<lparr>ra_bump = 255\<rparr>]\<rparr>"

definition demo_exec :: "64 word \<Rightarrow> exec" where
  "demo_exec t = \<lparr>program_id = src_ID, signers = [[12], [13]], unix_timestamp = t\<rparr>"

definition demo_withdraw :: SrcWithdraw where
  "demo_withdraw = \<lparr>SrcWithdraw.taker = [12], SrcWithdraw.mint = [6], SrcWithdraw.escrow = demo_escrow_key,
     SrcWithdraw.escrow_ata = 200 # demo_escrow_key @ [6], SrcWithdraw.taker_ata = [200, 12, 6],
     SrcWithdraw.token_program = [2], SrcWithdraw.system_program = [0]\<rparr>"

definition demo_public_withdraw :: SrcPublicWithdraw where
  "demo_public_withdraw = \<lparr>SrcPublicWithdraw.taker = [12], SrcPublicWithdraw.payer = [13],
     SrcPublicWithdraw.resolver_access = demo_access_key, SrcPublicWithdraw.mint = [6],
     SrcPublicWithdraw.escrow = demo_escrow_key,
     SrcPublicWithdraw.escrow_ata = 200 # demo_escrow_key @ [6], SrcPublicWithdraw.taker_ata = [200, 12, 6],
     SrcPublicWithdraw.token_program = [2], SrcPublicWithdraw.system_program = [0]\<rparr>"

definition demo_cancel :: CancelEscrow where
  "demo_cancel = \<lparr>CancelEscrow.taker = [12], CancelEscrow.maker = [11], CancelEscrow.mint = [6],
     CancelEscrow.escrow = demo_escrow_key, CancelEscrow.escrow_ata = 200 # demo_escrow_key @ [6],
     CancelEscrow.maker_ata = Some [200, 11, 6], CancelEscrow.token_program = [2],
     CancelEscrow.system_program = [0]\<rparr>"

definition demo_public_cancel :: PublicCancelEscrow where
  "demo_public_cancel = \<lparr>PublicCancelEscrow.taker = [12], PublicCancelEscrow.maker = [11],
     PublicCancelEscrow.mint = [6], PublicCancelEscrow.payer = [13],
     PublicCancelEscrow.resolver_access = demo_access_key,
     PublicCancelEscrow.escrow = demo_escrow_key, PublicCancelEscrow.escrow_ata = 200 # demo_escrow_key @ [6],
     PublicCancelEscrow.maker_ata = Some [200, 11, 6], PublicCancelEscrow.token_program = [2],
     PublicCancelEscrow.system_program = [0]\<rparr>"

lemma demo_seeds: "concat (escrow_seeds [31] [41] [12] 100) = demo_escrow_key"
  by (simp add: escrow_seeds_def demo_escrow_key_def ESCROW_SEED_def ascii_def to_be_bytes_def
      to_le_bytes_def upt_rec drop_bit_eq_div)

lemma demo_get:
  "get (Timelocks (U256 demo_timelocks)) SrcWithdrawal = Inr 1010"
  "get (Timelocks (U256 demo_timelocks)) SrcPublicWithdrawal = Inr 1020"
  "get (Timelocks (U256 demo_timelocks)) SrcCancellation = Inr 1030"
  "get (Timelocks (U256 demo_timelocks)) SrcPublicCancellation = Inr 1040"
  by (simp_all add: get_Inr_iff demo_timelocks_def deployed_at_U256 delta_U256 drop_bit_eq_div del: U256.simps)

lemma demo_now: "now (demo_exec t) = ucast t"
  by (simp add: now_def demo_exec_def get_current_timestamp_def)

lemma demo_pda:
  "concat (escrow_seeds [31] [41] [12] 100) = demo_escrow_key"
  "concat (resolver_seeds src_ID [13]) = demo_access_key"
  by (simp_all add: demo_seeds resolver_seeds_def demo_access_key_def)

lemma demo_exec_sel: "program_id (demo_exec t) = src_ID" "signers (demo_exec t) = [[12], [13]]"
  by (simp_all add: demo_exec_def)

lemma demo_keys:
  "demo_escrow_key \<noteq> demo_access_key" "demo_escrow_key \<noteq> [k]" "demo_escrow_key \<noteq> 200 # ks"
  "demo_access_key \<noteq> 200 # ks" "demo_access_key \<noteq> [k]" "demo_escrow_key @ [k] \<noteq> [k', k'']"
  by (simp_all add: demo_escrow_key_def demo_access_key_def src_ID_def)

lemmas demo_defs = check_entry_def check_signer_def check_key_def check_pda_def check_ata_def check_ata_opt_def
  check_token_program_def check_system_program_def load_EscrowSrc_def load_ResolverAccess_def load_mint_def
  load_token_def load_token_opt_def in_window_def Let_def process_payout_def withdraw_and_close_token_ata_def
  pay_safety_deposit_def escrow_signer_seeds_def cpi_signers_def native_part_def
  demo_exec_sel demo_pda demo_now demo_ledger_def demo_escrow_def demo_account_def

lemmas demo_run_simps = utils_withdraw_def utils_cancel_def demo_defs demo_get demo_keys demo_keys [symmetric]
  effect_defs map_filter_simps

lemma demo_withdraw_sel:
  "SrcWithdraw.taker demo_withdraw = [12]" "SrcWithdraw.escrow demo_withdraw = demo_escrow_key"
  "SrcWithdraw.escrow_ata demo_withdraw = 200 # demo_escrow_key @ [6]"
  "SrcWithdraw.taker_ata demo_withdraw = [200, 12, 6]" "SrcWithdraw.token_program demo_withdraw = [2]"
  by (simp_all add: demo_withdraw_def)

lemma demo_withdraw_runs:
  "\<exists>L'. src_withdraw demo_runtime (demo_exec 1015) demo_withdraw [41] (demo_ledger demo_escrow) = Inr L'"
  by (simp add: src_withdraw_def SrcWithdraw_accounts_def demo_withdraw_def demo_run_simps)

lemma demo_public_withdraw_runs:
  "\<exists>L'. src_public_withdraw demo_runtime (demo_exec 1025) demo_public_withdraw [41] (demo_ledger demo_escrow) = Inr L'"
  by (simp add: src_public_withdraw_def SrcPublicWithdraw_accounts_def demo_public_withdraw_def demo_run_simps)

lemma demo_cancel_runs:
  "\<exists>L'. cancel_escrow demo_runtime (demo_exec 1030) demo_cancel (demo_ledger demo_escrow) = Inr L'"
  by (simp add: cancel_escrow_def CancelEscrow_accounts_def demo_cancel_def demo_run_simps)

lemma demo_public_cancel_runs:
  "\<exists>L'. public_cancel_escrow demo_runtime (demo_exec 1040) demo_public_cancel (demo_ledger demo_escrow) = Inr L'"
  by (simp add: public_cancel_escrow_def PublicCancelEscrow_accounts_def demo_public_cancel_def demo_run_simps)

lemma demo_escrow_sel:
  "es_safety_deposit demo_escrow = 7" "es_asset_is_native demo_escrow = False" "es_maker demo_escrow = [11]"
  "es_taker demo_escrow = [12]" "es_amount demo_escrow = 100"
  by (simp_all add: demo_escrow_def)

lemma demo_ledger_wf: "wf_ledger (demo_ledger e)"
  by (simp add: wf_ledger_def demo_ledger_def demo_keys demo_keys [symmetric])

lemma demo_balances:
  "tokens (demo_ledger e) (200 # demo_escrow_key @ [6]) = 100"
  "backing (demo_ledger e) (200 # demo_escrow_key @ [6]) = 0"
  "lamports (demo_ledger e) k = 1000"
  "prog (demo_ledger e) demo_escrow_key = Some (EscrowSrcAcc e)"
  by (simp_all add: tokens_def backing_def lamports_def demo_ledger_def demo_account_def native_part_def demo_keys)

theorem src_withdraw_correct_witness:
  "\<exists>L'. src_withdraw demo_runtime (demo_exec 1015) demo_withdraw [41] (demo_ledger demo_escrow) = Inr L'
    \<and> settled (demo_ledger demo_escrow) L' demo_escrow_key (200 # demo_escrow_key @ [6])
        [([200, 12, 6], 100)] [([200, 12, 6], 0), ([12], 2000)]"
proof -
  obtain L' where r: "src_withdraw demo_runtime (demo_exec 1015) demo_withdraw [41] (demo_ledger demo_escrow) = Inr L'"
    using demo_withdraw_runs by blast
  from src_withdraw_correct [OF demo_runtime_ok demo_ledger_wf r]
  have "settled (demo_ledger demo_escrow) L' demo_escrow_key (200 # demo_escrow_key @ [6])
        [([200, 12, 6], 100)] [([200, 12, 6], 0), ([12], 2000)]"
    by (auto simp: demo_withdraw_def demo_balances)
  with r show ?thesis by blast
qed

theorem src_public_withdraw_correct_witness:
  "\<exists>L'. src_public_withdraw demo_runtime (demo_exec 1025) demo_public_withdraw [41] (demo_ledger demo_escrow) = Inr L'
    \<and> settled (demo_ledger demo_escrow) L' demo_escrow_key (200 # demo_escrow_key @ [6])
        [([200, 12, 6], 100)] [([200, 12, 6], 0), ([13], 7), ([12], 1993)]"
proof -
  obtain L' where r: "src_public_withdraw demo_runtime (demo_exec 1025) demo_public_withdraw [41]
      (demo_ledger demo_escrow) = Inr L'"
    using demo_public_withdraw_runs by blast
  have s: "SrcPublicWithdraw.escrow demo_public_withdraw \<notin> set (signers (demo_exec 1025))"
    by (simp add: demo_public_withdraw_def demo_exec_sel demo_keys)
  from src_public_withdraw_correct [OF demo_runtime_ok demo_ledger_wf r s] r show ?thesis
    by (intro exI [where x = L']) (simp add: demo_public_withdraw_def demo_balances demo_escrow_def deposit_due_def)
qed

theorem cancel_escrow_correct_witness:
  "\<exists>L'. cancel_escrow demo_runtime (demo_exec 1030) demo_cancel (demo_ledger demo_escrow) = Inr L'
    \<and> settled (demo_ledger demo_escrow) L' demo_escrow_key (200 # demo_escrow_key @ [6])
        [([200, 11, 6], 100)] [([200, 11, 6], 0), ([12], 2000)]"
proof -
  obtain L' where r: "cancel_escrow demo_runtime (demo_exec 1030) demo_cancel (demo_ledger demo_escrow) = Inr L'"
    using demo_cancel_runs by blast
  have s: "CancelEscrow.maker demo_cancel \<noteq> CancelEscrow.escrow demo_cancel"
    by (simp add: demo_cancel_def demo_keys demo_keys [symmetric])
  from cancel_escrow_correct [OF demo_runtime_ok demo_ledger_wf r s]
  have "settled (demo_ledger demo_escrow) L' demo_escrow_key (200 # demo_escrow_key @ [6])
        [([200, 11, 6], 100)] [([200, 11, 6], 0), ([12], 2000)]"
    by (auto simp: demo_cancel_def demo_balances demo_escrow_sel refund_defs)
  with r show ?thesis by blast
qed

theorem public_cancel_escrow_correct_witness:
  "\<exists>L'. public_cancel_escrow demo_runtime (demo_exec 1040) demo_public_cancel (demo_ledger demo_escrow) = Inr L'
    \<and> settled (demo_ledger demo_escrow) L' demo_escrow_key (200 # demo_escrow_key @ [6])
        [([200, 11, 6], 100)] [([200, 11, 6], 0), ([13], 7), ([12], 1993)]"
proof -
  obtain L' where r: "public_cancel_escrow demo_runtime (demo_exec 1040) demo_public_cancel
      (demo_ledger demo_escrow) = Inr L'"
    using demo_public_cancel_runs by blast
  have s: "PublicCancelEscrow.maker demo_public_cancel \<noteq> PublicCancelEscrow.escrow demo_public_cancel"
    "PublicCancelEscrow.escrow demo_public_cancel \<notin> set (signers (demo_exec 1040))"
    by (simp_all add: demo_public_cancel_def demo_exec_sel demo_keys demo_keys [symmetric])
  from public_cancel_escrow_correct [OF demo_runtime_ok demo_ledger_wf r s]
  have "settled (demo_ledger demo_escrow) L' demo_escrow_key (200 # demo_escrow_key @ [6])
        [([200, 11, 6], 100)] [([200, 11, 6], 0), ([13], 7), ([12], 1993)]"
    by (auto simp: demo_public_cancel_def demo_balances demo_escrow_sel refund_defs deposit_due_def)
  with r show ?thesis by blast
qed

lemma demo_not_public_early: "\<not> public_early demo_escrow"
  by (simp add: public_early_def demo_escrow_def demo_timelocks_def delta_U256 drop_bit_eq_div del: U256.simps)

text \<open>The example claimed and cancelled.\<close>

lemma demo_claimed: "\<exists>L'. src_claims demo_runtime (demo_exec 1015) demo_escrow_key (demo_ledger demo_escrow) L'"
  using demo_withdraw_runs demo_withdraw_sel(2) unfolding src_claims_def by metis

lemma demo_cancelled: "\<exists>L'. src_cancels demo_runtime (demo_exec 1030) demo_escrow_key (demo_ledger demo_escrow) L'"
proof -
  have "CancelEscrow.escrow demo_cancel = demo_escrow_key" by (simp add: demo_cancel_def)
  with demo_cancel_runs show ?thesis unfolding src_cancels_def by blast
qed

end
