(* ===== verification/SrcRescue.thy ===== *)
theory SrcRescue
  imports SrcFills SrcClaims
begin

text \<open>
  Rescuing leftover tokens from accounts of the source program:
  \<open>rescue_funds_for_escrow\<close> by the taker and \<open>rescue_funds_for_order\<close> by a whitelisted resolver
  (\<open>programs/cross-chain-escrow-src/src/lib.rs\<close>).  The escrow or order account may be closed
  already; while it exists, the rescue has to wait for the rescue delay after its deployment.
\<close>

section \<open>Accounts\<close>

record RescueFundsForEscrow =
  taker :: pubkey
  mint :: pubkey
  escrow :: pubkey
  escrow_ata :: pubkey
  taker_ata :: pubkey
  token_program :: pubkey
  system_program :: pubkey

record RescueFundsForOrder =
  resolver :: pubkey
  resolver_access :: pubkey
  mint :: pubkey
  order :: pubkey
  order_ata :: pubkey
  resolver_ata :: pubkey
  token_program :: pubkey
  system_program :: pubkey

text \<open>What a rescue works with once its checks have passed.\<close>

record rescue_refs =
  rr_mint :: mint_ref
  rr_ata :: token_ref
  rr_dest :: token_ref
  rr_bump :: u8

definition RescueFundsForEscrow_accounts ::
  "runtime \<Rightarrow> exec \<Rightarrow> RescueFundsForEscrow \<Rightarrow> bytes \<Rightarrow> bytes \<Rightarrow> u64 \<Rightarrow> ledger \<Rightarrow> rescue_refs res" where
  "RescueFundsForEscrow_accounts rt x a order_hash hashlock amount L =
     bindE (check_signer x (RescueFundsForEscrow.taker a)) (\<lambda>_.
     bindE (load_mint L (RescueFundsForEscrow.mint a)) (\<lambda>m.
     bindE (load_token L (RescueFundsForEscrow.escrow_ata a)) (\<lambda>ea.
     bindE (load_token L (RescueFundsForEscrow.taker_ata a)) (\<lambda>ta.
     bindE (check_token_program rt (RescueFundsForEscrow.token_program a)) (\<lambda>_.
     bindE (check_system_program rt (RescueFundsForEscrow.system_program a)) (\<lambda>_.
     bindE (find_pda rt (escrow_seeds order_hash hashlock (RescueFundsForEscrow.taker a) amount) src_ID
       (RescueFundsForEscrow.escrow a)) (\<lambda>bump.
     bindE (check_ata rt ea (RescueFundsForEscrow.mint a) (RescueFundsForEscrow.escrow a)
       (RescueFundsForEscrow.token_program a)) (\<lambda>_.
     bindE (check_ata rt ta (RescueFundsForEscrow.mint a) (RescueFundsForEscrow.taker a)
       (RescueFundsForEscrow.token_program a)) (\<lambda>_.
     Inr \<lparr>rr_mint = m, rr_ata = ea, rr_dest = ta, rr_bump = bump\<rparr>)))))))))"

definition RescueFundsForOrder_accounts ::
  "runtime \<Rightarrow> exec \<Rightarrow> RescueFundsForOrder \<Rightarrow> pubkey \<Rightarrow> pubkey \<Rightarrow> OrderArgs \<Rightarrow> ledger \<Rightarrow> rescue_refs res" where
  "RescueFundsForOrder_accounts rt x a who token args L =
     bindE (check_signer x (RescueFundsForOrder.resolver a)) (\<lambda>_.
     bindE (load_ResolverAccess L (RescueFundsForOrder.resolver_access a)) (\<lambda>ra.
     bindE (load_mint L (RescueFundsForOrder.mint a)) (\<lambda>m.
     bindE (load_token L (RescueFundsForOrder.order_ata a)) (\<lambda>oa.
     bindE (load_token L (RescueFundsForOrder.resolver_ata a)) (\<lambda>da.
     bindE (check_token_program rt (RescueFundsForOrder.token_program a)) (\<lambda>_.
     bindE (check_system_program rt (RescueFundsForOrder.system_program a)) (\<lambda>_.
     bindE (check_pda rt (resolver_seeds src_ID (RescueFundsForOrder.resolver a)) (ra_bump ra) whitelist_ID
       (RescueFundsForOrder.resolver_access a)) (\<lambda>_.
     bindE (find_pda rt (order_seeds (get_order_hash rt who token args)) src_ID
       (RescueFundsForOrder.order a)) (\<lambda>bump.
     bindE (check_ata rt oa (RescueFundsForOrder.mint a) (RescueFundsForOrder.order a)
       (RescueFundsForOrder.token_program a)) (\<lambda>_.
     bindE (check_ata rt da (RescueFundsForOrder.mint a) (RescueFundsForOrder.resolver a)
       (RescueFundsForOrder.token_program a)) (\<lambda>_.
     Inr \<lparr>rr_mint = m, rr_ata = oa, rr_dest = da, rr_bump = bump\<rparr>)))))))))))"

section \<open>Instructions\<close>

text \<open>The rescue start, read from the account when it still holds data.\<close>

definition escrow_rescue_start :: "ledger \<Rightarrow> pubkey \<Rightarrow> u32 option res" where
  "escrow_rescue_start L k =
     (if no_data L k then Inr None
      else (case prog L k of
          Some (EscrowSrcAcc e) \<Rightarrow>
            bindE (rescue_start (Timelocks (U256 (es_timelocks e))) RESCUE_DELAY) (\<lambda>s. Inr (Some s))
        | _ \<Rightarrow> Inl (Anchor AccountDiscriminatorMismatch)))"

definition order_rescue_start :: "ledger \<Rightarrow> pubkey \<Rightarrow> u32 option res" where
  "order_rescue_start L k =
     (if no_data L k then Inr None
      else (case prog L k of
          Some (OrderAcc ord) \<Rightarrow>
            bindE (rescue_start (Timelocks (U256 (o_timelocks ord))) RESCUE_DELAY) (\<lambda>s. Inr (Some s))
        | _ \<Rightarrow> Inl (Anchor AccountDiscriminatorMismatch)))"

definition rescue_funds_for_escrow ::
  "runtime \<Rightarrow> exec \<Rightarrow> RescueFundsForEscrow \<Rightarrow> bytes \<Rightarrow> bytes \<Rightarrow> u64 \<Rightarrow> u64 \<Rightarrow> ledger \<Rightarrow> ledger res" where
  "rescue_funds_for_escrow rt x a order_hash hashlock amount rescue_amount L =
     bindE (check_entry src_ID x) (\<lambda>_.
     bindE (RescueFundsForEscrow_accounts rt x a order_hash hashlock amount L) (\<lambda>rr.
     bindE (escrow_rescue_start L (RescueFundsForEscrow.escrow a)) (\<lambda>start.
     let seeds = escrow_seeds order_hash hashlock (RescueFundsForEscrow.taker a) amount @ [[rr_bump rr]] in
     rescue_funds rt x (RescueFundsForEscrow.escrow a) start (rr_ata rr) (RescueFundsForEscrow.taker a)
       (rr_dest rr) (rr_mint rr) (RescueFundsForEscrow.token_program a) rescue_amount seeds L)))"

definition rescue_funds_for_order ::
  "runtime \<Rightarrow> exec \<Rightarrow> RescueFundsForOrder \<Rightarrow> pubkey \<Rightarrow> pubkey \<Rightarrow> OrderArgs \<Rightarrow> u64 \<Rightarrow> ledger \<Rightarrow> ledger res" where
  "rescue_funds_for_order rt x a who token args rescue_amount L =
     bindE (check_entry src_ID x) (\<lambda>_.
     bindE (RescueFundsForOrder_accounts rt x a who token args L) (\<lambda>rr.
     bindE (order_rescue_start L (RescueFundsForOrder.order a)) (\<lambda>start.
     let seeds = order_seeds (get_order_hash rt who token args) @ [[rr_bump rr]] in
     rescue_funds rt x (RescueFundsForOrder.order a) start (rr_ata rr) (RescueFundsForOrder.resolver a)
       (rr_dest rr) (rr_mint rr) (RescueFundsForOrder.token_program a) rescue_amount seeds L)))"

section \<open>Effects\<close>

lemma escrow_rescue_start_open:
  assumes "escrow_rescue_start L k = Inr start" "start = None \<or> the start \<le> t"
  shows "no_data L k \<or> (\<exists>e. prog L k = Some (EscrowSrcAcc e)
    \<and> unat (deployed_at (U256 (es_timelocks e))) + unat RESCUE_DELAY \<le> unat t)"
  using assms by (auto simp: escrow_rescue_start_def bindE_Inr_iff rescue_start_Inr_iff word_le_nat_alt
      split: if_splits option.splits ProgramData.splits)

lemma order_rescue_start_open:
  assumes "order_rescue_start L k = Inr start" "start = None \<or> the start \<le> t"
  shows "no_data L k \<or> (\<exists>ord. prog L k = Some (OrderAcc ord)
    \<and> unat (deployed_at (U256 (o_timelocks ord))) + unat RESCUE_DELAY \<le> unat t)"
  using assms by (auto simp: order_rescue_start_def bindE_Inr_iff rescue_start_Inr_iff word_le_nat_alt
      split: if_splits option.splits ProgramData.splits)

lemma rescue_funds_for_escrow_rescues:
  assumes "runtime_ok rt" "rescue_funds_for_escrow rt x a order_hash hashlock amount rescue_amount L = Inr L'"
    and "RescueFundsForEscrow.escrow a \<notin> set (signers x)"
  shows "RescueFundsForEscrow.taker a \<in> set (signers x)
    \<and> fst (find_program_address rt (escrow_seeds order_hash hashlock (RescueFundsForEscrow.taker a) amount) src_ID)
        = RescueFundsForEscrow.escrow a
    \<and> (no_data L (RescueFundsForEscrow.escrow a)
       \<or> (\<exists>e. prog L (RescueFundsForEscrow.escrow a) = Some (EscrowSrcAcc e)
            \<and> unat (deployed_at (U256 (es_timelocks e))) + unat RESCUE_DELAY \<le> unat (now x)))
    \<and> rescued L L' (RescueFundsForEscrow.escrow_ata a) (RescueFundsForEscrow.taker_ata a)
        (RescueFundsForEscrow.taker a) (unat rescue_amount)"
proof -
  let ?e = "RescueFundsForEscrow.escrow a" and ?t = "RescueFundsForEscrow.taker a"
  from assms(2) obtain rr start where
    ac: "RescueFundsForEscrow_accounts rt x a order_hash hashlock amount L = Inr rr" and
    st: "escrow_rescue_start L ?e = Inr start" and
    r: "rescue_funds rt x ?e start (rr_ata rr) ?t (rr_dest rr) (rr_mint rr) (RescueFundsForEscrow.token_program a)
       rescue_amount (escrow_seeds order_hash hashlock ?t amount @ [[rr_bump rr]]) L = Inr L'"
    by (auto simp: rescue_funds_for_escrow_def Let_def bindE_Inr_iff)
  from ac have l: "?t \<in> set (signers x)"
      "find_program_address rt (escrow_seeds order_hash hashlock ?t amount) src_ID = (?e, rr_bump rr)"
      "fst (rr_ata rr) = RescueFundsForEscrow.escrow_ata a" "tok L (fst (rr_ata rr)) = Some (snd (rr_ata rr))"
      "ta_owner (snd (rr_ata rr)) = ?e"
      "fst (rr_dest rr) = RescueFundsForEscrow.taker_ata a" "tok L (fst (rr_dest rr)) = Some (snd (rr_dest rr))"
      "ta_owner (snd (rr_dest rr)) = ?t"
    by (auto simp: RescueFundsForEscrow_accounts_def res_simps)
  have "?e \<noteq> ?t" using l(1) assms(3) by auto
  with l have ne: "fst (rr_ata rr) \<noteq> fst (rr_dest rr)" by auto
  note e = rescue_funds_rescued [OF assms(1) r l(4) ne]
  show ?thesis using l e(1) escrow_rescue_start_open [OF st e(2)] by simp
qed

text \<open>C37: \<open>rescue_funds_for_escrow\<close>: the taker, by its signature, moves any amount out of the
  token account of an escrow address derived from its own key, and closes the account by
  taking all of it.  While the escrow is open this needs the rescue delay to have passed
  since its deployment, but neither the secret nor a cancellation.  The escrow itself stays.\<close>

theorem rescue_funds_for_escrow_correct:
  assumes "runtime_ok rt" "rescue_funds_for_escrow rt x a order_hash hashlock amount rescue_amount L = Inr L'"
    and "RescueFundsForEscrow.escrow a \<notin> set (signers x)"
  shows "RescueFundsForEscrow.taker a \<in> set (signers x)
    \<and> fst (find_program_address rt (escrow_seeds order_hash hashlock (RescueFundsForEscrow.taker a) amount) src_ID)
        = RescueFundsForEscrow.escrow a
    \<and> (no_data L (RescueFundsForEscrow.escrow a)
       \<or> (\<exists>e. prog L (RescueFundsForEscrow.escrow a) = Some (EscrowSrcAcc e)
            \<and> unat (deployed_at (U256 (es_timelocks e))) + unat RESCUE_DELAY \<le> unat (now x)))
    \<and> rescued L L' (RescueFundsForEscrow.escrow_ata a) (RescueFundsForEscrow.taker_ata a)
        (RescueFundsForEscrow.taker a) (unat rescue_amount)"
  using assms by (rule rescue_funds_for_escrow_rescues)

lemma rescue_funds_for_order_rescues:
  assumes "runtime_ok rt" "rescue_funds_for_order rt x a who token args rescue_amount L = Inr L'"
    and "RescueFundsForOrder.order a \<notin> set (signers x)"
  shows "RescueFundsForOrder.resolver a \<in> set (signers x)
    \<and> has_access rt L src_ID (RescueFundsForOrder.resolver a) (RescueFundsForOrder.resolver_access a)
    \<and> fst (find_program_address rt (order_seeds (get_order_hash rt who token args)) src_ID)
        = RescueFundsForOrder.order a
    \<and> (no_data L (RescueFundsForOrder.order a)
       \<or> (\<exists>ord. prog L (RescueFundsForOrder.order a) = Some (OrderAcc ord)
            \<and> unat (deployed_at (U256 (o_timelocks ord))) + unat RESCUE_DELAY \<le> unat (now x)))
    \<and> rescued L L' (RescueFundsForOrder.order_ata a) (RescueFundsForOrder.resolver_ata a)
        (RescueFundsForOrder.resolver a) (unat rescue_amount)"
proof -
  let ?o = "RescueFundsForOrder.order a" and ?t = "RescueFundsForOrder.resolver a"
  from assms(2) obtain rr start where
    ac: "RescueFundsForOrder_accounts rt x a who token args L = Inr rr" and
    st: "order_rescue_start L ?o = Inr start" and
    r: "rescue_funds rt x ?o start (rr_ata rr) ?t (rr_dest rr) (rr_mint rr) (RescueFundsForOrder.token_program a)
       rescue_amount (order_seeds (get_order_hash rt who token args) @ [[rr_bump rr]]) L = Inr L'"
    by (auto simp: rescue_funds_for_order_def Let_def bindE_Inr_iff)
  from ac have l: "?t \<in> set (signers x)"
      "has_access rt L src_ID ?t (RescueFundsForOrder.resolver_access a)"
      "find_program_address rt (order_seeds (get_order_hash rt who token args)) src_ID = (?o, rr_bump rr)"
      "fst (rr_ata rr) = RescueFundsForOrder.order_ata a" "tok L (fst (rr_ata rr)) = Some (snd (rr_ata rr))"
      "ta_owner (snd (rr_ata rr)) = ?o"
      "fst (rr_dest rr) = RescueFundsForOrder.resolver_ata a" "tok L (fst (rr_dest rr)) = Some (snd (rr_dest rr))"
      "ta_owner (snd (rr_dest rr)) = ?t"
    by (auto simp: RescueFundsForOrder_accounts_def res_simps has_access_def)
  have "?o \<noteq> ?t" using l(1) assms(3) by auto
  with l have ne: "fst (rr_ata rr) \<noteq> fst (rr_dest rr)" by auto
  note e = rescue_funds_rescued [OF assms(1) r l(5) ne]
  show ?thesis using l e(1) order_rescue_start_open [OF st e(2)] by simp
qed

text \<open>C38: \<open>rescue_funds_for_order\<close>: the same for the token account of an order, by a whitelisted
  resolver who names all parameters of the order.\<close>

theorem rescue_funds_for_order_correct:
  assumes "runtime_ok rt" "rescue_funds_for_order rt x a who token args rescue_amount L = Inr L'"
    and "RescueFundsForOrder.order a \<notin> set (signers x)"
  shows "RescueFundsForOrder.resolver a \<in> set (signers x)
    \<and> has_access rt L src_ID (RescueFundsForOrder.resolver a) (RescueFundsForOrder.resolver_access a)
    \<and> fst (find_program_address rt (order_seeds (get_order_hash rt who token args)) src_ID)
        = RescueFundsForOrder.order a
    \<and> (no_data L (RescueFundsForOrder.order a)
       \<or> (\<exists>ord. prog L (RescueFundsForOrder.order a) = Some (OrderAcc ord)
            \<and> unat (deployed_at (U256 (o_timelocks ord))) + unat RESCUE_DELAY \<le> unat (now x)))
    \<and> rescued L L' (RescueFundsForOrder.order_ata a) (RescueFundsForOrder.resolver_ata a)
        (RescueFundsForOrder.resolver a) (unat rescue_amount)"
  using assms by (rule rescue_funds_for_order_rescues)

section \<open>Examples\<close>

definition demo_rescue :: RescueFundsForEscrow where
  "demo_rescue = \<lparr>RescueFundsForEscrow.taker = [12], RescueFundsForEscrow.mint = [6],
     RescueFundsForEscrow.escrow = demo_escrow_key, RescueFundsForEscrow.escrow_ata = 200 # demo_escrow_key @ [6],
     RescueFundsForEscrow.taker_ata = [200, 12, 6], RescueFundsForEscrow.token_program = [2],
     RescueFundsForEscrow.system_program = [0]\<rparr>"

lemma demo_rescue_start:
  "rescue_start (Timelocks (U256 demo_timelocks)) RESCUE_DELAY = Inr 692200"
  by (simp add: rescue_start_Inr_iff RESCUE_DELAY_def demo_timelocks_def deployed_at_U256 drop_bit_eq_div del: U256.simps)

lemma demo_rescue_runs:
  "\<exists>L'. rescue_funds_for_escrow demo_runtime (demo_exec 692200) demo_rescue [31] [41] 100 100
    (demo_ledger demo_escrow) = Inr L'"
  by (simp add: rescue_funds_for_escrow_def RescueFundsForEscrow_accounts_def escrow_rescue_start_def find_pda_def
      demo_rescue_def rescue_funds_def demo_rescue_start demo_run_simps)

theorem rescue_funds_for_escrow_correct_witness:
  "\<exists>L'. rescue_funds_for_escrow demo_runtime (demo_exec 692200) demo_rescue [31] [41] 100 100
      (demo_ledger demo_escrow) = Inr L'
    \<and> rescued (demo_ledger demo_escrow) L' (200 # demo_escrow_key @ [6]) [200, 12, 6] [12] 100"
proof -
  obtain L' where r: "rescue_funds_for_escrow demo_runtime (demo_exec 692200) demo_rescue [31] [41] 100 100
      (demo_ledger demo_escrow) = Inr L'" using demo_rescue_runs by blast
  have s: "RescueFundsForEscrow.escrow demo_rescue \<notin> set (signers (demo_exec 692200))"
    by (simp add: demo_rescue_def demo_exec_sel demo_keys)
  from rescue_funds_for_escrow_correct [OF demo_runtime_ok r s] r show ?thesis
    by (intro exI [where x = L']) (simp add: demo_rescue_def)
qed

definition demo_lost_key :: pubkey where
  "demo_lost_key = concat (order_seeds (get_order_hash demo_runtime [11] [6] sample_args))"

definition demo_order_rescue :: RescueFundsForOrder where
  "demo_order_rescue = \<lparr>RescueFundsForOrder.resolver = [13], RescueFundsForOrder.resolver_access = demo_resolver_key,
     RescueFundsForOrder.mint = [6], RescueFundsForOrder.order = demo_lost_key,
     RescueFundsForOrder.order_ata = 200 # demo_lost_key @ [6], RescueFundsForOrder.resolver_ata = [200, 13, 6],
     RescueFundsForOrder.token_program = [2], RescueFundsForOrder.system_program = [0]\<rparr>"

text \<open>Tokens sent to the address of an order that is already closed.\<close>

definition demo_lost_ledger :: ledger where
  "demo_lost_ledger = \<lparr>lam = (\<lambda>k. 1000),
     tok = [200 # demo_lost_key @ [6] \<mapsto> demo_order_account demo_lost_key 100,
            [200, 13, 6] \<mapsto> demo_order_account [13] 5],
     mints = [[6] \<mapsto> \<lparr>m_decimals = 9, m_program = [2]\<rparr>],
     prog = [demo_resolver_key \<mapsto> ResolverAcc \<lparr>ra_bump = 255\<rparr>]\<rparr>"

lemma demo_lost_key_Cons: "demo_lost_key = 111 # 114 # 100 # 101 # 114 # get_order_hash demo_runtime [11] [6] sample_args"
  by (simp add: demo_lost_key_def demo_order_seeds)

lemma demo_order_rescue_runs:
  "\<exists>L'. rescue_funds_for_order demo_runtime (demo_order_exec 500) demo_order_rescue [11] [6] sample_args 60
    demo_lost_ledger = Inr L'"
  by (simp add: rescue_funds_for_order_def RescueFundsForOrder_accounts_def order_rescue_start_def
      demo_order_rescue_def rescue_funds_def demo_lost_ledger_def demo_lost_key_Cons demo_order_simps)

theorem rescue_funds_for_order_correct_witness:
  "\<exists>L'. rescue_funds_for_order demo_runtime (demo_order_exec 500) demo_order_rescue [11] [6] sample_args 60
      demo_lost_ledger = Inr L'
    \<and> rescued demo_lost_ledger L' (200 # demo_lost_key @ [6]) [200, 13, 6] [13] 60"
proof -
  obtain L' where r: "rescue_funds_for_order demo_runtime (demo_order_exec 500) demo_order_rescue [11] [6] sample_args 60
      demo_lost_ledger = Inr L'" using demo_order_rescue_runs by blast
  have s: "RescueFundsForOrder.order demo_order_rescue \<notin> set (signers (demo_order_exec 500))"
    by (simp add: demo_order_rescue_def demo_order_exec_sel demo_lost_key_Cons)
  from rescue_funds_for_order_correct [OF demo_runtime_ok r s] r show ?thesis
    by (intro exI [where x = L']) (simp add: demo_order_rescue_def)
qed

end
