(* ===== verification/DstClaims.thy ===== *)
theory DstClaims
  imports CommonEscrow Interfaces OrderHash
begin

text \<open>
  The life of an escrow of the destination program after its creation
  (\<open>programs/cross-chain-escrow-dst/src/lib.rs\<close> and \<open>utils.rs\<close>): \<open>withdraw\<close>,
  \<open>public_withdraw\<close> and \<open>cancel\<close>.  A withdrawal pays the recipient and may
  first open its token account; a cancellation gives everything back to the creator.
\<close>

section \<open>\<open>utils.rs\<close>\<close>

definition dst_signer_seeds :: "EscrowDst \<Rightarrow> u8 \<Rightarrow> bytes list" where
  "dst_signer_seeds e bump =
     escrow_seeds (ed_order_hash e) (ed_hashlock e) (ed_creator e) (ed_amount e) @ [[bump]]"

definition dst_utils_withdraw ::
  "runtime \<Rightarrow> exec \<Rightarrow> pubkey \<times> EscrowDst \<Rightarrow> u8 \<Rightarrow> token_ref \<Rightarrow> pubkey \<Rightarrow> token_ref option \<Rightarrow> mint_ref \<Rightarrow> pubkey
    \<Rightarrow> pubkey \<Rightarrow> pubkey \<Rightarrow> bytes \<Rightarrow> ledger \<Rightarrow> ledger res" where
  "dst_utils_withdraw rt x escrow escrow_bump escrow_ata recipient recipient_ata mint token_program
      rent_recipient safety_deposit_recipient secret L =
     require (keccak rt secret = ed_hashlock (snd escrow)) (Escrow InvalidSecret)
     (let seeds = dst_signer_seeds (snd escrow) escrow_bump in
      bindE (process_payout rt x mint (ed_asset_is_native (snd escrow)) (ed_amount (snd escrow)) (fst escrow)
        escrow_ata recipient recipient_ata rent_recipient seeds token_program L) (\<lambda>L1.
      pay_safety_deposit rt (fst escrow) rent_recipient safety_deposit_recipient
        (ed_safety_deposit (snd escrow)) L1))"

section \<open>Accounts\<close>

record DstWithdraw =
  creator :: pubkey
  recipient :: pubkey
  mint :: pubkey
  escrow :: pubkey
  escrow_ata :: pubkey
  recipient_ata :: "pubkey option"
  associated_token_program :: pubkey
  token_program :: pubkey
  system_program :: pubkey

record DstPublicWithdraw =
  creator :: pubkey
  recipient :: pubkey
  payer :: pubkey
  resolver_access :: pubkey
  mint :: pubkey
  escrow :: pubkey
  escrow_ata :: pubkey
  recipient_ata :: "pubkey option"
  associated_token_program :: pubkey
  token_program :: pubkey
  system_program :: pubkey

record DstCancel =
  creator :: pubkey
  mint :: pubkey
  escrow :: pubkey
  escrow_ata :: pubkey
  creator_ata :: "pubkey option"
  token_program :: pubkey
  system_program :: pubkey

definition DstWithdraw_accounts ::
  "runtime \<Rightarrow> exec \<Rightarrow> DstWithdraw \<Rightarrow> ledger \<Rightarrow> (ledger \<times> EscrowDst loaded) res" where
  "DstWithdraw_accounts rt x a L =
     bindE (check_signer x (DstWithdraw.creator a)) (\<lambda>_.
     bindE (load_mint L (DstWithdraw.mint a)) (\<lambda>m.
     bindE (load_EscrowDst L (DstWithdraw.escrow a)) (\<lambda>e.
     bindE (load_token L (DstWithdraw.escrow_ata a)) (\<lambda>ea.
     bindE (check_associated_token_program rt (DstWithdraw.associated_token_program a)) (\<lambda>_.
     bindE (check_token_program rt (DstWithdraw.token_program a)) (\<lambda>_.
     bindE (check_system_program rt (DstWithdraw.system_program a)) (\<lambda>_.
     bindE (init_if_needed_ata_opt rt x (DstWithdraw.recipient_ata a) (DstWithdraw.creator a)
       (DstWithdraw.mint a) (DstWithdraw.recipient a) (DstWithdraw.token_program a) L) (\<lambda>(L1, ra).
     bindE (check_key (DstWithdraw.creator a = ed_creator e) (Escrow InvalidAccount)) (\<lambda>_.
     bindE (check_key (DstWithdraw.recipient a = ed_recipient e) (Escrow InvalidAccount)) (\<lambda>_.
     bindE (check_key (DstWithdraw.mint a = ed_token e) (Escrow InvalidMint)) (\<lambda>_.
     bindE (check_pda rt (escrow_seeds (ed_order_hash e) (ed_hashlock e) (ed_creator e) (ed_amount e))
       (ed_bump e) dst_ID (DstWithdraw.escrow a)) (\<lambda>_.
     bindE (check_key (DstWithdraw.escrow a \<noteq> DstWithdraw.creator a) (Anchor ConstraintClose)) (\<lambda>_.
     bindE (check_ata rt ea (DstWithdraw.mint a) (DstWithdraw.escrow a) (DstWithdraw.token_program a)) (\<lambda>_.
     Inr (L1, \<lparr>ld_state = e, ld_mint = m, ld_ata = ea, ld_dest = ra\<rparr>)))))))))))))))"

definition DstPublicWithdraw_accounts ::
  "runtime \<Rightarrow> exec \<Rightarrow> DstPublicWithdraw \<Rightarrow> ledger \<Rightarrow> (ledger \<times> EscrowDst loaded) res" where
  "DstPublicWithdraw_accounts rt x a L =
     bindE (check_signer x (DstPublicWithdraw.payer a)) (\<lambda>_.
     bindE (load_ResolverAccess L (DstPublicWithdraw.resolver_access a)) (\<lambda>acc.
     bindE (load_mint L (DstPublicWithdraw.mint a)) (\<lambda>m.
     bindE (load_EscrowDst L (DstPublicWithdraw.escrow a)) (\<lambda>e.
     bindE (load_token L (DstPublicWithdraw.escrow_ata a)) (\<lambda>ea.
     bindE (check_associated_token_program rt (DstPublicWithdraw.associated_token_program a)) (\<lambda>_.
     bindE (check_token_program rt (DstPublicWithdraw.token_program a)) (\<lambda>_.
     bindE (check_system_program rt (DstPublicWithdraw.system_program a)) (\<lambda>_.
     bindE (init_if_needed_ata_opt rt x (DstPublicWithdraw.recipient_ata a) (DstPublicWithdraw.payer a)
       (DstPublicWithdraw.mint a) (DstPublicWithdraw.recipient a) (DstPublicWithdraw.token_program a) L) (\<lambda>(L1, ra).
     bindE (check_key (DstPublicWithdraw.creator a = ed_creator e) (Escrow InvalidAccount)) (\<lambda>_.
     bindE (check_key (DstPublicWithdraw.recipient a = ed_recipient e) (Escrow InvalidAccount)) (\<lambda>_.
     bindE (check_pda rt (resolver_seeds dst_ID (DstPublicWithdraw.payer a)) (ra_bump acc) whitelist_ID
       (DstPublicWithdraw.resolver_access a)) (\<lambda>_.
     bindE (check_key (DstPublicWithdraw.mint a = ed_token e) (Escrow InvalidMint)) (\<lambda>_.
     bindE (check_pda rt (escrow_seeds (ed_order_hash e) (ed_hashlock e) (ed_creator e) (ed_amount e))
       (ed_bump e) dst_ID (DstPublicWithdraw.escrow a)) (\<lambda>_.
     bindE (check_key (DstPublicWithdraw.escrow a \<noteq> DstPublicWithdraw.creator a) (Anchor ConstraintClose)) (\<lambda>_.
     bindE (check_ata rt ea (DstPublicWithdraw.mint a) (DstPublicWithdraw.escrow a)
       (DstPublicWithdraw.token_program a)) (\<lambda>_.
     Inr (L1, \<lparr>ld_state = e, ld_mint = m, ld_ata = ea, ld_dest = ra\<rparr>)))))))))))))))))"

definition DstCancel_accounts :: "runtime \<Rightarrow> exec \<Rightarrow> DstCancel \<Rightarrow> ledger \<Rightarrow> EscrowDst loaded res" where
  "DstCancel_accounts rt x a L =
     bindE (check_signer x (DstCancel.creator a)) (\<lambda>_.
     bindE (load_mint L (DstCancel.mint a)) (\<lambda>m.
     bindE (load_EscrowDst L (DstCancel.escrow a)) (\<lambda>e.
     bindE (load_token L (DstCancel.escrow_ata a)) (\<lambda>ea.
     bindE (load_token_opt L (DstCancel.creator_ata a)) (\<lambda>ca.
     bindE (check_token_program rt (DstCancel.token_program a)) (\<lambda>_.
     bindE (check_system_program rt (DstCancel.system_program a)) (\<lambda>_.
     bindE (check_key (DstCancel.creator a = ed_creator e) (Escrow InvalidAccount)) (\<lambda>_.
     bindE (check_key (DstCancel.mint a = ed_token e) (Escrow InvalidMint)) (\<lambda>_.
     bindE (check_pda rt (escrow_seeds (ed_order_hash e) (ed_hashlock e) (ed_creator e) (ed_amount e))
       (ed_bump e) dst_ID (DstCancel.escrow a)) (\<lambda>_.
     bindE (check_key (DstCancel.escrow a \<noteq> DstCancel.creator a) (Anchor ConstraintClose)) (\<lambda>_.
     bindE (check_ata rt ea (DstCancel.mint a) (DstCancel.escrow a) (DstCancel.token_program a)) (\<lambda>_.
     bindE (check_ata_opt rt ca (DstCancel.mint a) (DstCancel.creator a) (DstCancel.token_program a)) (\<lambda>_.
     Inr \<lparr>ld_state = e, ld_mint = m, ld_ata = ea, ld_dest = ca\<rparr>)))))))))))))"

section \<open>Instructions\<close>

definition dst_withdraw :: "runtime \<Rightarrow> exec \<Rightarrow> DstWithdraw \<Rightarrow> bytes \<Rightarrow> ledger \<Rightarrow> ledger res" where
  "dst_withdraw rt x a secret L =
     bindE (check_entry dst_ID x) (\<lambda>_.
     bindE (DstWithdraw_accounts rt x a L) (\<lambda>(L1, ld).
     let e = ld_state ld in
     bindE (in_window (now x) (Timelocks (U256 (ed_timelocks e))) DstWithdrawal DstCancellation) (\<lambda>ok.
     require ok (Escrow InvalidTime)
     (bindE (dst_utils_withdraw rt x (DstWithdraw.escrow a, e) (ed_bump e) (ld_ata ld) (DstWithdraw.recipient a)
       (ld_dest ld) (ld_mint ld) (DstWithdraw.token_program a) (DstWithdraw.creator a) (DstWithdraw.creator a)
       secret L1) (\<lambda>L2.
     close_program_account rt (DstWithdraw.escrow a) (DstWithdraw.creator a) L2)))))"

definition dst_public_withdraw :: "runtime \<Rightarrow> exec \<Rightarrow> DstPublicWithdraw \<Rightarrow> bytes \<Rightarrow> ledger \<Rightarrow> ledger res" where
  "dst_public_withdraw rt x a secret L =
     bindE (check_entry dst_ID x) (\<lambda>_.
     bindE (DstPublicWithdraw_accounts rt x a L) (\<lambda>(L1, ld).
     let e = ld_state ld in
     bindE (in_window (now x) (Timelocks (U256 (ed_timelocks e))) DstPublicWithdrawal DstCancellation) (\<lambda>ok.
     require ok (Escrow InvalidTime)
     (bindE (dst_utils_withdraw rt x (DstPublicWithdraw.escrow a, e) (ed_bump e) (ld_ata ld)
       (DstPublicWithdraw.recipient a) (ld_dest ld) (ld_mint ld) (DstPublicWithdraw.token_program a)
       (DstPublicWithdraw.creator a) (DstPublicWithdraw.payer a) secret L1) (\<lambda>L2.
     close_program_account rt (DstPublicWithdraw.escrow a) (DstPublicWithdraw.creator a) L2)))))"

definition dst_cancel :: "runtime \<Rightarrow> exec \<Rightarrow> DstCancel \<Rightarrow> ledger \<Rightarrow> ledger res" where
  "dst_cancel rt x a L =
     bindE (check_entry dst_ID x) (\<lambda>_.
     bindE (DstCancel_accounts rt x a L) (\<lambda>ld.
     let e = ld_state ld in
     bindE (get (Timelocks (U256 (ed_timelocks e))) DstCancellation) (\<lambda>start.
     require (now x \<ge> start) (Escrow InvalidTime)
     (bindE (process_payout rt x (ld_mint ld) (ed_asset_is_native e) (ed_amount e) (DstCancel.escrow a) (ld_ata ld)
       (DstCancel.creator a) (ld_dest ld) (DstCancel.creator a) (dst_signer_seeds e (ed_bump e))
       (DstCancel.token_program a) L) (\<lambda>L1.
     close_program_account rt (DstCancel.escrow a) (DstCancel.creator a) L1)))))"

section \<open>Inversion\<close>

lemma dst_utils_withdraw_close:
  "bindE (dst_utils_withdraw rt x (es, e) b ea who ra m p rr sdr secret L) (\<lambda>L1. close_program_account rt es rr L1)
    = require (keccak rt secret = ed_hashlock e) (Escrow InvalidSecret)
        (payout_and_close rt x m (ed_asset_is_native e) (ed_amount e) es ea who ra rr (dst_signer_seeds e b) p sdr
          (ed_safety_deposit e) L)"
  by (cases "keccak rt secret = ed_hashlock e")
    (simp_all add: dst_utils_withdraw_def payout_and_close_def Let_def bindE_assoc)

lemma process_payout_close:
  "bindE (process_payout rt x m n amt es ea who ra rr s p L) (\<lambda>L1. close_program_account rt es rr L1)
    = payout_and_close rt x m n amt es ea who ra rr s p rr sd L"
  by (simp add: payout_and_close_def pay_safety_deposit_def)

lemma dst_withdraw_Inr:
  assumes "dst_withdraw rt x a secret L = Inr L'" and ok: "runtime_ok rt"
  obtains L1 e m ea ra where
    "prog L (DstWithdraw.escrow a) = Some (EscrowDstAcc e)"
    "DstWithdraw.creator a = ed_creator e" "DstWithdraw.recipient a = ed_recipient e"
    "DstWithdraw.creator a \<in> set (signers x)" "DstWithdraw.escrow a \<noteq> DstWithdraw.creator a"
    "fst ea = DstWithdraw.escrow_ata a" "tok L (DstWithdraw.escrow_ata a) = Some (snd ea)"
    "ta_owner (snd ea) = DstWithdraw.escrow a"
    "opened (DstWithdraw.creator a) (DstWithdraw.recipient_ata a) L L1"
    "DstWithdraw.recipient_ata a = map_option fst ra"
    "\<forall>ta. ra = Some ta \<longrightarrow> tok L1 (fst ta) = Some (snd ta) \<and> ta_owner (snd ta) = DstWithdraw.recipient a"
    "in_window (now x) (Timelocks (U256 (ed_timelocks e))) DstWithdrawal DstCancellation = Inr True"
    "keccak rt secret = ed_hashlock e"
    "payout_and_close rt x m (ed_asset_is_native e) (ed_amount e) (DstWithdraw.escrow a) ea
      (DstWithdraw.recipient a) ra (DstWithdraw.creator a) (dst_signer_seeds e (ed_bump e))
      (DstWithdraw.token_program a) (DstWithdraw.creator a) (ed_safety_deposit e) L1 = Inr L'"
proof -
  from assms(1) obtain L1 ld b where
    ld: "DstWithdraw_accounts rt x a L = Inr (L1, ld)" and
    w: "in_window (now x) (Timelocks (U256 (ed_timelocks (ld_state ld)))) DstWithdrawal DstCancellation = Inr b" "b" and
    r: "bindE (dst_utils_withdraw rt x (DstWithdraw.escrow a, ld_state ld) (ed_bump (ld_state ld)) (ld_ata ld)
       (DstWithdraw.recipient a) (ld_dest ld) (ld_mint ld) (DstWithdraw.token_program a) (DstWithdraw.creator a)
       (DstWithdraw.creator a) secret L1)
       (\<lambda>L2. close_program_account rt (DstWithdraw.escrow a) (DstWithdraw.creator a) L2) = Inr L'"
    by (auto simp: dst_withdraw_def Let_def bindE_Inr_iff require_Inr_iff split: prod.splits)
  from ld have i: "init_if_needed_ata_opt rt x (DstWithdraw.recipient_ata a) (DstWithdraw.creator a)
       (DstWithdraw.mint a) (DstWithdraw.recipient a) (DstWithdraw.token_program a) L = Inr (L1, ld_dest ld)"
    and l: "prog L (DstWithdraw.escrow a) = Some (EscrowDstAcc (ld_state ld))"
      "DstWithdraw.creator a = ed_creator (ld_state ld)" "DstWithdraw.recipient a = ed_recipient (ld_state ld)"
      "DstWithdraw.creator a \<in> set (signers x)" "DstWithdraw.escrow a \<noteq> DstWithdraw.creator a"
      "fst (ld_ata ld) = DstWithdraw.escrow_ata a" "tok L (DstWithdraw.escrow_ata a) = Some (snd (ld_ata ld))"
      "ta_owner (snd (ld_ata ld)) = DstWithdraw.escrow a"
    by (auto simp: DstWithdraw_accounts_def res_simps)
  note o = init_if_needed_ata_opt_effect [OF ok i]
  note p = r [unfolded dst_utils_withdraw_close require_Inr_iff]
  show ?thesis using w by (intro that [OF l o _ conjunct1 [OF p] conjunct2 [OF p]]) simp
qed

lemma dst_public_withdraw_Inr:
  assumes "dst_public_withdraw rt x a secret L = Inr L'" and ok: "runtime_ok rt"
  obtains L1 e m ea ra where
    "prog L (DstPublicWithdraw.escrow a) = Some (EscrowDstAcc e)"
    "DstPublicWithdraw.creator a = ed_creator e" "DstPublicWithdraw.recipient a = ed_recipient e"
    "DstPublicWithdraw.payer a \<in> set (signers x)" "DstPublicWithdraw.escrow a \<noteq> DstPublicWithdraw.creator a"
    "has_access rt L dst_ID (DstPublicWithdraw.payer a) (DstPublicWithdraw.resolver_access a)"
    "fst ea = DstPublicWithdraw.escrow_ata a" "tok L (DstPublicWithdraw.escrow_ata a) = Some (snd ea)"
    "ta_owner (snd ea) = DstPublicWithdraw.escrow a"
    "opened (DstPublicWithdraw.payer a) (DstPublicWithdraw.recipient_ata a) L L1"
    "DstPublicWithdraw.recipient_ata a = map_option fst ra"
    "\<forall>ta. ra = Some ta \<longrightarrow> tok L1 (fst ta) = Some (snd ta) \<and> ta_owner (snd ta) = DstPublicWithdraw.recipient a"
    "in_window (now x) (Timelocks (U256 (ed_timelocks e))) DstPublicWithdrawal DstCancellation = Inr True"
    "keccak rt secret = ed_hashlock e"
    "payout_and_close rt x m (ed_asset_is_native e) (ed_amount e) (DstPublicWithdraw.escrow a) ea
      (DstPublicWithdraw.recipient a) ra (DstPublicWithdraw.creator a) (dst_signer_seeds e (ed_bump e))
      (DstPublicWithdraw.token_program a) (DstPublicWithdraw.payer a) (ed_safety_deposit e) L1 = Inr L'"
proof -
  from assms(1) obtain L1 ld b where
    ld: "DstPublicWithdraw_accounts rt x a L = Inr (L1, ld)" and
    w: "in_window (now x) (Timelocks (U256 (ed_timelocks (ld_state ld)))) DstPublicWithdrawal DstCancellation = Inr b" "b" and
    r: "bindE (dst_utils_withdraw rt x (DstPublicWithdraw.escrow a, ld_state ld) (ed_bump (ld_state ld)) (ld_ata ld)
       (DstPublicWithdraw.recipient a) (ld_dest ld) (ld_mint ld) (DstPublicWithdraw.token_program a)
       (DstPublicWithdraw.creator a) (DstPublicWithdraw.payer a) secret L1)
       (\<lambda>L2. close_program_account rt (DstPublicWithdraw.escrow a) (DstPublicWithdraw.creator a) L2) = Inr L'"
    by (auto simp: dst_public_withdraw_def Let_def bindE_Inr_iff require_Inr_iff split: prod.splits)
  from ld have i: "init_if_needed_ata_opt rt x (DstPublicWithdraw.recipient_ata a) (DstPublicWithdraw.payer a)
       (DstPublicWithdraw.mint a) (DstPublicWithdraw.recipient a) (DstPublicWithdraw.token_program a) L = Inr (L1, ld_dest ld)"
    and l: "prog L (DstPublicWithdraw.escrow a) = Some (EscrowDstAcc (ld_state ld))"
      "DstPublicWithdraw.creator a = ed_creator (ld_state ld)" "DstPublicWithdraw.recipient a = ed_recipient (ld_state ld)"
      "DstPublicWithdraw.payer a \<in> set (signers x)" "DstPublicWithdraw.escrow a \<noteq> DstPublicWithdraw.creator a"
      "has_access rt L dst_ID (DstPublicWithdraw.payer a) (DstPublicWithdraw.resolver_access a)"
      "fst (ld_ata ld) = DstPublicWithdraw.escrow_ata a"
      "tok L (DstPublicWithdraw.escrow_ata a) = Some (snd (ld_ata ld))"
      "ta_owner (snd (ld_ata ld)) = DstPublicWithdraw.escrow a"
    by (auto simp: DstPublicWithdraw_accounts_def res_simps has_access_def)
  note o = init_if_needed_ata_opt_effect [OF ok i]
  note p = r [unfolded dst_utils_withdraw_close require_Inr_iff]
  show ?thesis using w by (intro that [OF l o _ conjunct1 [OF p] conjunct2 [OF p]]) simp
qed

lemma dst_cancel_Inr:
  assumes "dst_cancel rt x a L = Inr L'"
  obtains e m ea ca start where
    "prog L (DstCancel.escrow a) = Some (EscrowDstAcc e)" "DstCancel.creator a = ed_creator e"
    "DstCancel.creator a \<in> set (signers x)" "DstCancel.escrow a \<noteq> DstCancel.creator a"
    "fst ea = DstCancel.escrow_ata a" "tok L (DstCancel.escrow_ata a) = Some (snd ea)"
    "ta_owner (snd ea) = DstCancel.escrow a"
    "DstCancel.creator_ata a = map_option fst ca"
    "\<forall>ta. ca = Some ta \<longrightarrow> tok L (fst ta) = Some (snd ta) \<and> ta_owner (snd ta) = DstCancel.creator a"
    "get (Timelocks (U256 (ed_timelocks e))) DstCancellation = Inr start" "start \<le> now x"
    "payout_and_close rt x m (ed_asset_is_native e) (ed_amount e) (DstCancel.escrow a) ea
      (DstCancel.creator a) ca (DstCancel.creator a) (dst_signer_seeds e (ed_bump e))
      (DstCancel.token_program a) (DstCancel.creator a) 0 L = Inr L'"
proof -
  from assms obtain ld start where
    ld: "DstCancel_accounts rt x a L = Inr ld" and
    w: "get (Timelocks (U256 (ed_timelocks (ld_state ld)))) DstCancellation = Inr start" "start \<le> now x" and
    r: "bindE (process_payout rt x (ld_mint ld) (ed_asset_is_native (ld_state ld)) (ed_amount (ld_state ld))
       (DstCancel.escrow a) (ld_ata ld) (DstCancel.creator a) (ld_dest ld) (DstCancel.creator a)
       (dst_signer_seeds (ld_state ld) (ed_bump (ld_state ld))) (DstCancel.token_program a) L)
       (\<lambda>L1. close_program_account rt (DstCancel.escrow a) (DstCancel.creator a) L1) = Inr L'"
    by (auto simp: dst_cancel_def Let_def bindE_Inr_iff require_Inr_iff)
  from ld have l: "prog L (DstCancel.escrow a) = Some (EscrowDstAcc (ld_state ld))"
      "DstCancel.creator a = ed_creator (ld_state ld)"
      "DstCancel.creator a \<in> set (signers x)" "DstCancel.escrow a \<noteq> DstCancel.creator a"
      "fst (ld_ata ld) = DstCancel.escrow_ata a" "tok L (DstCancel.escrow_ata a) = Some (snd (ld_ata ld))"
      "ta_owner (snd (ld_ata ld)) = DstCancel.escrow a"
      "DstCancel.creator_ata a = map_option fst (ld_dest ld)"
      "\<forall>ta. ld_dest ld = Some ta \<longrightarrow> tok L (fst ta) = Some (snd ta) \<and> ta_owner (snd ta) = DstCancel.creator a"
    by (auto simp: DstCancel_accounts_def res_simps)
  show ?thesis by (rule that [OF l w r [unfolded process_payout_close [where sd = 0]]])
qed

section \<open>Who is paid\<close>

text \<open>C18: \<open>withdraw\<close> on the destination chain: it succeeds only for the creator, inside the
  private withdrawal window and with the preimage of the hashlock.  The recipient's token
  account is opened first if needed; then the recipient gets the escrowed asset (native assets
  as lamports, the exact amount), and the creator the rent of both closed accounts together
  with the safety deposit.\<close>

theorem dst_withdraw_correct:
  assumes "runtime_ok rt" "wf_ledger L" "dst_withdraw rt x a secret L = Inr L'"
    and "DstWithdraw.recipient a \<noteq> DstWithdraw.escrow a"
  shows "\<exists>e L1. prog L (DstWithdraw.escrow a) = Some (EscrowDstAcc e)
    \<and> DstWithdraw.creator a = ed_creator e \<and> DstWithdraw.recipient a = ed_recipient e
    \<and> DstWithdraw.creator a \<in> set (signers x) \<and> keccak rt secret = ed_hashlock e
    \<and> in_window (now x) (Timelocks (U256 (ed_timelocks e))) DstWithdrawal DstCancellation = Inr True
    \<and> (ed_asset_is_native e \<or> DstWithdraw.recipient_ata a \<noteq> None)
    \<and> opened (DstWithdraw.creator a) (DstWithdraw.recipient_ata a) L L1
    \<and> tok L1 (DstWithdraw.escrow_ata a) = tok L (DstWithdraw.escrow_ata a)
    \<and> settled L1 L' (DstWithdraw.escrow a) (DstWithdraw.escrow_ata a)
        (pay_tokens (ed_asset_is_native e) (ed_recipient e) (DstWithdraw.recipient_ata a) L1 (DstWithdraw.escrow_ata a))
        [(pay_key (ed_asset_is_native e) (ed_recipient e) (DstWithdraw.recipient_ata a),
            pay_lamports (ed_asset_is_native e) (ed_amount e) L1 (DstWithdraw.escrow_ata a)),
         (DstWithdraw.creator a, lamports L1 (DstWithdraw.escrow a) + lamports L1 (DstWithdraw.escrow_ata a)
            - pay_lamports (ed_asset_is_native e) (ed_amount e) L1 (DstWithdraw.escrow_ata a))]"
  using assms(3,1)
proof (rule dst_withdraw_Inr)
  fix L1 e m ea ra
  assume i: "prog L (DstWithdraw.escrow a) = Some (EscrowDstAcc e)"
    "DstWithdraw.creator a = ed_creator e" "DstWithdraw.recipient a = ed_recipient e"
    "DstWithdraw.creator a \<in> set (signers x)" "DstWithdraw.escrow a \<noteq> DstWithdraw.creator a"
    and ea: "fst ea = DstWithdraw.escrow_ata a" "tok L (DstWithdraw.escrow_ata a) = Some (snd ea)"
    "ta_owner (snd ea) = DstWithdraw.escrow a"
    and o: "opened (DstWithdraw.creator a) (DstWithdraw.recipient_ata a) L L1"
    and ra: "DstWithdraw.recipient_ata a = map_option fst ra"
    "\<forall>ta. ra = Some ta \<longrightarrow> tok L1 (fst ta) = Some (snd ta) \<and> ta_owner (snd ta) = DstWithdraw.recipient a"
    and g: "in_window (now x) (Timelocks (U256 (ed_timelocks e))) DstWithdrawal DstCancellation = Inr True"
    "keccak rt secret = ed_hashlock e"
    and p: "payout_and_close rt x m (ed_asset_is_native e) (ed_amount e) (DstWithdraw.escrow a) ea
      (DstWithdraw.recipient a) ra (DstWithdraw.creator a) (dst_signer_seeds e (ed_bump e))
      (DstWithdraw.token_program a) (DstWithdraw.creator a) (ed_safety_deposit e) L1 = Inr L'"
  have t: "tok L1 (fst ea) = Some (snd ea)" "prog L1 (DstWithdraw.escrow a) \<noteq> None"
    using opened_tok [OF o] o ea i by (simp_all add: opened_def)
  note s = payout_to_settled [OF assms(1) opened_wf [OF o assms(2)] p t ea(3) ra(2) assms(4) i(5)]
  show ?thesis using s i g ea ra o t by (intro exI [where x = e] exI [where x = L1]) simp
qed

text \<open>C19: \<open>public_withdraw\<close> on the destination chain: a whitelisted resolver may complete the swap
  inside the public withdrawal window; the recipient is paid the same, and the resolver gets
  the safety deposit out of the creator's share.\<close>

theorem dst_public_withdraw_correct:
  assumes "runtime_ok rt" "wf_ledger L" "dst_public_withdraw rt x a secret L = Inr L'"
    and "DstPublicWithdraw.recipient a \<noteq> DstPublicWithdraw.escrow a"
    and "DstPublicWithdraw.escrow a \<notin> set (signers x)"
  shows "\<exists>e L1. prog L (DstPublicWithdraw.escrow a) = Some (EscrowDstAcc e)
    \<and> DstPublicWithdraw.creator a = ed_creator e \<and> DstPublicWithdraw.recipient a = ed_recipient e
    \<and> DstPublicWithdraw.payer a \<in> set (signers x)
    \<and> has_access rt L dst_ID (DstPublicWithdraw.payer a) (DstPublicWithdraw.resolver_access a)
    \<and> keccak rt secret = ed_hashlock e
    \<and> in_window (now x) (Timelocks (U256 (ed_timelocks e))) DstPublicWithdrawal DstCancellation = Inr True
    \<and> (ed_asset_is_native e \<or> DstPublicWithdraw.recipient_ata a \<noteq> None)
    \<and> opened (DstPublicWithdraw.payer a) (DstPublicWithdraw.recipient_ata a) L L1
    \<and> tok L1 (DstPublicWithdraw.escrow_ata a) = tok L (DstPublicWithdraw.escrow_ata a)
    \<and> settled L1 L' (DstPublicWithdraw.escrow a) (DstPublicWithdraw.escrow_ata a)
        (pay_tokens (ed_asset_is_native e) (ed_recipient e) (DstPublicWithdraw.recipient_ata a) L1
          (DstPublicWithdraw.escrow_ata a))
        [(pay_key (ed_asset_is_native e) (ed_recipient e) (DstPublicWithdraw.recipient_ata a),
            pay_lamports (ed_asset_is_native e) (ed_amount e) L1 (DstPublicWithdraw.escrow_ata a)),
         (DstPublicWithdraw.payer a, deposit_due (DstPublicWithdraw.creator a) (DstPublicWithdraw.payer a) (ed_safety_deposit e)),
         (DstPublicWithdraw.creator a, lamports L1 (DstPublicWithdraw.escrow a)
            + lamports L1 (DstPublicWithdraw.escrow_ata a)
            - pay_lamports (ed_asset_is_native e) (ed_amount e) L1 (DstPublicWithdraw.escrow_ata a)
            - deposit_due (DstPublicWithdraw.creator a) (DstPublicWithdraw.payer a) (ed_safety_deposit e))]"
  using assms(3,1)
proof (rule dst_public_withdraw_Inr)
  fix L1 e m ea ra
  assume i: "prog L (DstPublicWithdraw.escrow a) = Some (EscrowDstAcc e)"
    "DstPublicWithdraw.creator a = ed_creator e" "DstPublicWithdraw.recipient a = ed_recipient e"
    "DstPublicWithdraw.payer a \<in> set (signers x)" "DstPublicWithdraw.escrow a \<noteq> DstPublicWithdraw.creator a"
    and acc: "has_access rt L dst_ID (DstPublicWithdraw.payer a) (DstPublicWithdraw.resolver_access a)"
    and ea: "fst ea = DstPublicWithdraw.escrow_ata a" "tok L (DstPublicWithdraw.escrow_ata a) = Some (snd ea)"
    "ta_owner (snd ea) = DstPublicWithdraw.escrow a"
    and o: "opened (DstPublicWithdraw.payer a) (DstPublicWithdraw.recipient_ata a) L L1"
    and ra: "DstPublicWithdraw.recipient_ata a = map_option fst ra"
    "\<forall>ta. ra = Some ta \<longrightarrow> tok L1 (fst ta) = Some (snd ta) \<and> ta_owner (snd ta) = DstPublicWithdraw.recipient a"
    and g: "in_window (now x) (Timelocks (U256 (ed_timelocks e))) DstPublicWithdrawal DstCancellation = Inr True"
    "keccak rt secret = ed_hashlock e"
    and p: "payout_and_close rt x m (ed_asset_is_native e) (ed_amount e) (DstPublicWithdraw.escrow a) ea
      (DstPublicWithdraw.recipient a) ra (DstPublicWithdraw.creator a) (dst_signer_seeds e (ed_bump e))
      (DstPublicWithdraw.token_program a) (DstPublicWithdraw.payer a) (ed_safety_deposit e) L1 = Inr L'"
  have t: "tok L1 (fst ea) = Some (snd ea)" "prog L1 (DstPublicWithdraw.escrow a) \<noteq> None"
    using opened_tok [OF o] o ea i by (simp_all add: opened_def)
  have n: "DstPublicWithdraw.escrow a \<noteq> DstPublicWithdraw.payer a" using assms(5) i(4) by auto
  note s = payout_to_settled [OF assms(1) opened_wf [OF o assms(2)] p t ea(3) ra(2) assms(4) n]
  show ?thesis using s i g ea ra o t acc by (intro exI [where x = e] exI [where x = L1]) simp
qed

text \<open>C20: \<open>cancel\<close> on the destination chain: only the creator, with its signature, and only once the
  cancellation time is reached, takes the whole escrow back.\<close>

theorem dst_cancel_correct:
  assumes "runtime_ok rt" "wf_ledger L" "dst_cancel rt x a L = Inr L'"
  shows "\<exists>e start. prog L (DstCancel.escrow a) = Some (EscrowDstAcc e) \<and> DstCancel.creator a = ed_creator e
    \<and> DstCancel.creator a \<in> set (signers x)
    \<and> get (Timelocks (U256 (ed_timelocks e))) DstCancellation = Inr start \<and> start \<le> now x
    \<and> (ed_asset_is_native e \<or> DstCancel.creator_ata a \<noteq> None)
    \<and> settled L L' (DstCancel.escrow a) (DstCancel.escrow_ata a)
        (pay_tokens (ed_asset_is_native e) (ed_creator e) (DstCancel.creator_ata a) L (DstCancel.escrow_ata a))
        [(pay_key (ed_asset_is_native e) (ed_creator e) (DstCancel.creator_ata a),
            pay_lamports (ed_asset_is_native e) (ed_amount e) L (DstCancel.escrow_ata a)),
         (DstCancel.creator a, lamports L (DstCancel.escrow a) + lamports L (DstCancel.escrow_ata a)
            - pay_lamports (ed_asset_is_native e) (ed_amount e) L (DstCancel.escrow_ata a))]"
  using assms(3)
proof (rule dst_cancel_Inr)
  fix e m ea ca start
  assume i: "prog L (DstCancel.escrow a) = Some (EscrowDstAcc e)" "DstCancel.creator a = ed_creator e"
    "DstCancel.creator a \<in> set (signers x)" "DstCancel.escrow a \<noteq> DstCancel.creator a"
    and ea: "fst ea = DstCancel.escrow_ata a" "tok L (DstCancel.escrow_ata a) = Some (snd ea)"
    "ta_owner (snd ea) = DstCancel.escrow a"
    and ca: "DstCancel.creator_ata a = map_option fst ca"
    "\<forall>ta. ca = Some ta \<longrightarrow> tok L (fst ta) = Some (snd ta) \<and> ta_owner (snd ta) = DstCancel.creator a"
    and g: "get (Timelocks (U256 (ed_timelocks e))) DstCancellation = Inr start" "start \<le> now x"
    and p: "payout_and_close rt x m (ed_asset_is_native e) (ed_amount e) (DstCancel.escrow a) ea
      (DstCancel.creator a) ca (DstCancel.creator a) (dst_signer_seeds e (ed_bump e))
      (DstCancel.token_program a) (DstCancel.creator a) 0 L = Inr L'"
  have t: "tok L (fst ea) = Some (snd ea)" "prog L (DstCancel.escrow a) \<noteq> None" using ea i by simp_all
  note s = payout_to_settled [OF assms(1,2) p t ea(3) ca(2) i(4) [symmetric] i(4)]
  show ?thesis using s i g ea ca by (intro exI [where x = e] exI [where x = start]) simp
qed

section \<open>Times of claims and refunds\<close>

definition dst_can_claim :: "EscrowDst \<Rightarrow> u32 \<Rightarrow> bool" where
  "dst_can_claim e t \<longleftrightarrow>
     in_window t (Timelocks (U256 (ed_timelocks e))) DstWithdrawal DstCancellation = Inr True
     \<or> in_window t (Timelocks (U256 (ed_timelocks e))) DstPublicWithdrawal DstCancellation = Inr True"

definition dst_can_refund :: "EscrowDst \<Rightarrow> u32 \<Rightarrow> bool" where
  "dst_can_refund e t \<longleftrightarrow>
     (case get (Timelocks (U256 (ed_timelocks e))) DstCancellation of Inr s \<Rightarrow> s \<le> t | Inl _ \<Rightarrow> False)"

interpretation dst_window: htlc_window dst_can_claim dst_can_refund
proof unfold_locales
  fix e t t'
  assume "dst_can_claim e t" "dst_can_refund e t'"
  then show "t < t'"
    by (auto simp: dst_can_claim_def dst_can_refund_def in_window_Inr_iff get_Inr_iff word_less_nat_alt
        word_le_nat_alt split: sum.splits)
next
  fix e :: EscrowDst and t t' :: u32
  assume "dst_can_refund e t" "t \<le> t'"
  then show "dst_can_refund e t'" by (auto simp: dst_can_refund_def split: sum.splits)
qed

text \<open>A claim publishes the secret.\<close>

definition dst_claims :: "runtime \<Rightarrow> exec \<Rightarrow> pubkey \<Rightarrow> bytes \<Rightarrow> ledger \<Rightarrow> ledger \<Rightarrow> bool" where
  "dst_claims rt x k secret L L' \<longleftrightarrow>
     (\<exists>a. dst_withdraw rt x a secret L = Inr L' \<and> DstWithdraw.escrow a = k)
     \<or> (\<exists>a. dst_public_withdraw rt x a secret L = Inr L' \<and> DstPublicWithdraw.escrow a = k)"

definition dst_cancels :: "runtime \<Rightarrow> exec \<Rightarrow> pubkey \<Rightarrow> ledger \<Rightarrow> ledger \<Rightarrow> bool" where
  "dst_cancels rt x k L L' \<longleftrightarrow> (\<exists>a. dst_cancel rt x a L = Inr L' \<and> DstCancel.escrow a = k)"

lemma dst_claimsD:
  assumes "runtime_ok rt" "dst_claims rt x k secret L L'"
  shows "\<exists>e. prog L k = Some (EscrowDstAcc e) \<and> dst_can_claim e (now x) \<and> keccak rt secret = ed_hashlock e"
  using assms(2) unfolding dst_claims_def dst_can_claim_def
  by (elim disjE exE conjE; elim dst_withdraw_Inr [OF _ assms(1)] dst_public_withdraw_Inr [OF _ assms(1)]) blast+

lemma dst_can_claim_less:
  "dst_can_claim e t \<Longrightarrow>
    unat t < unat (deployed_at (U256 (ed_timelocks e))) + unat (delta (U256 (ed_timelocks e)) DstCancellation)"
  by (auto simp: dst_can_claim_def in_window_Inr_iff)

lemma dst_cancelsD:
  "dst_cancels rt x k L L' \<Longrightarrow> \<exists>e. prog L k = Some (EscrowDstAcc e) \<and> dst_can_refund e (now x)"
  unfolding dst_cancels_def dst_can_refund_def by (elim exE conjE; elim dst_cancel_Inr) auto

section \<open>Examples\<close>

text \<open>An escrow of the resolver \<open>[21]\<close> for the recipient \<open>[22]\<close>, deployed at time 1000: withdrawal
  from 1010, public withdrawal from 1020, cancellation from 1030.\<close>

definition demo_dst_timelocks :: u64x4 where
  "demo_dst_timelocks = (0, 0, 85899345930, 4294967296030)"

definition demo_dst_escrow :: EscrowDst where
  "demo_dst_escrow = \<lparr>ed_order_hash = [31], ed_hashlock = [41], ed_creator = [21], ed_recipient = [22],
     ed_token = [6], ed_asset_is_native = False, ed_amount = 100, ed_safety_deposit = 7,
     ed_timelocks = demo_dst_timelocks, ed_bump = 255\<rparr>"

definition demo_dst_key :: pubkey where
  "demo_dst_key = [101, 115, 99, 114, 111, 119, 31, 41, 21, 0, 0, 0, 0, 0, 0, 0, 100]"

definition demo_dst_account :: "pubkey \<Rightarrow> u64 \<Rightarrow> TokenAccount" where
  "demo_dst_account owner amount =
     \<lparr>ta_mint = [6], ta_owner = owner, ta_amount = amount, ta_native = None, ta_program = [2]\<rparr>"

definition demo_dst_access_key :: pubkey where
  "demo_dst_access_key = dst_ID @ [23]"

text \<open>The recipient has no token account yet; the resolvers \<open>[21]\<close> and \<open>[23]\<close> sign.\<close>

definition demo_dst_ledger :: ledger where
  "demo_dst_ledger = \<lparr>lam = (\<lambda>k. if k = [200, 22, 6] then 0 else 1000),
     tok = [200 # demo_dst_key @ [6] \<mapsto> demo_dst_account demo_dst_key 100,
            [200, 21, 6] \<mapsto> demo_dst_account [21] 300],
     mints = [[6] \<mapsto> \<lparr>m_decimals = 9, m_program = [2]\<rparr>],
     prog = [demo_dst_key \<mapsto> EscrowDstAcc demo_dst_escrow, demo_dst_access_key \<mapsto> ResolverAcc \<lparr>ra_bump = 255\<rparr>]\<rparr>"

definition demo_dst_exec :: "64 word \<Rightarrow> exec" where
  "demo_dst_exec t = \<lparr>program_id = dst_ID, signers = [[21], [23]], unix_timestamp = t\<rparr>"

definition demo_dst_withdraw :: DstWithdraw where
  "demo_dst_withdraw = \<lparr>DstWithdraw.creator = [21], DstWithdraw.recipient = [22], DstWithdraw.mint = [6],
     DstWithdraw.escrow = demo_dst_key, DstWithdraw.escrow_ata = 200 # demo_dst_key @ [6],
     DstWithdraw.recipient_ata = Some [200, 22, 6], DstWithdraw.associated_token_program = [1],
     DstWithdraw.token_program = [2], DstWithdraw.system_program = [0]\<rparr>"

definition demo_dst_public_withdraw :: DstPublicWithdraw where
  "demo_dst_public_withdraw = \<lparr>DstPublicWithdraw.creator = [21], DstPublicWithdraw.recipient = [22],
     DstPublicWithdraw.payer = [23], DstPublicWithdraw.resolver_access = demo_dst_access_key,
     DstPublicWithdraw.mint = [6],
     DstPublicWithdraw.escrow = demo_dst_key, DstPublicWithdraw.escrow_ata = 200 # demo_dst_key @ [6],
     DstPublicWithdraw.recipient_ata = Some [200, 22, 6], DstPublicWithdraw.associated_token_program = [1],
     DstPublicWithdraw.token_program = [2], DstPublicWithdraw.system_program = [0]\<rparr>"

definition demo_dst_cancel :: DstCancel where
  "demo_dst_cancel = \<lparr>DstCancel.creator = [21], DstCancel.mint = [6], DstCancel.escrow = demo_dst_key,
     DstCancel.escrow_ata = 200 # demo_dst_key @ [6], DstCancel.creator_ata = Some [200, 21, 6],
     DstCancel.token_program = [2], DstCancel.system_program = [0]\<rparr>"

lemma demo_dst_seeds:
  "concat (escrow_seeds [31] [41] [21] 100) = demo_dst_key"
  "concat (resolver_seeds dst_ID [23]) = demo_dst_access_key"
  by (simp_all add: escrow_seeds_def demo_dst_key_def ESCROW_SEED_def ascii_def to_be_bytes_def
      to_le_bytes_def upt_rec drop_bit_eq_div resolver_seeds_def demo_dst_access_key_def)

lemma demo_dst_get:
  "get (Timelocks (U256 demo_dst_timelocks)) DstWithdrawal = Inr 1010"
  "get (Timelocks (U256 demo_dst_timelocks)) DstPublicWithdrawal = Inr 1020"
  "get (Timelocks (U256 demo_dst_timelocks)) DstCancellation = Inr 1030"
  by (simp_all add: get_Inr_iff demo_dst_timelocks_def deployed_at_U256 delta_U256 drop_bit_eq_div del: U256.simps)

lemma demo_dst_exec_sel:
  "program_id (demo_dst_exec t) = dst_ID" "signers (demo_dst_exec t) = [[21], [23]]"
  "now (demo_dst_exec t) = ucast t"
  by (simp_all add: demo_dst_exec_def now_def get_current_timestamp_def)

lemma demo_dst_keys:
  "demo_dst_key \<noteq> demo_dst_access_key" "demo_dst_key \<noteq> [k]" "demo_dst_key \<noteq> 200 # ks"
  "demo_dst_access_key \<noteq> 200 # ks" "demo_dst_access_key \<noteq> [k]" "demo_dst_key @ [k] \<noteq> [k', k'']"
  by (simp_all add: demo_dst_key_def demo_dst_access_key_def dst_ID_def)

lemma demo_dst_sel:
  "ed_order_hash demo_dst_escrow = [31]" "ed_hashlock demo_dst_escrow = [41]" "ed_creator demo_dst_escrow = [21]"
  "ed_recipient demo_dst_escrow = [22]" "ed_token demo_dst_escrow = [6]" "ed_asset_is_native demo_dst_escrow = False"
  "ed_amount demo_dst_escrow = 100" "ed_safety_deposit demo_dst_escrow = 7" "ed_timelocks demo_dst_escrow = demo_dst_timelocks"
  by (simp_all add: demo_dst_escrow_def)

lemmas demo_dst_simps = check_entry_def check_signer_def check_key_def check_pda_def check_ata_def check_ata_opt_def
  check_token_program_def check_system_program_def check_associated_token_program_def check_rent_def find_pda_def
  load_EscrowDst_def load_ResolverAccess_def load_mint_def load_token_def load_token_opt_def in_window_def Let_def
  process_payout_def withdraw_and_close_token_ata_def pay_safety_deposit_def dst_signer_seeds_def cpi_signers_def
  native_part_def dst_utils_withdraw_def init_if_needed_ata_def init_if_needed_ata_opt_def map_filter_simps
  effect_defs demo_dst_exec_sel demo_dst_seeds demo_dst_get demo_dst_keys demo_dst_keys [symmetric] demo_dst_sel
  demo_dst_account_def

lemma demo_dst_withdraw_runs:
  "\<exists>L'. dst_withdraw demo_runtime (demo_dst_exec 1015) demo_dst_withdraw [41] demo_dst_ledger = Inr L'"
  by (simp add: dst_withdraw_def DstWithdraw_accounts_def demo_dst_withdraw_def demo_dst_ledger_def demo_dst_simps)

lemma demo_dst_public_withdraw_runs:
  "\<exists>L'. dst_public_withdraw demo_runtime (demo_dst_exec 1025) demo_dst_public_withdraw [41] demo_dst_ledger = Inr L'"
  by (simp add: dst_public_withdraw_def DstPublicWithdraw_accounts_def demo_dst_public_withdraw_def
      demo_dst_ledger_def demo_dst_simps)

lemma demo_dst_cancel_runs:
  "\<exists>L'. dst_cancel demo_runtime (demo_dst_exec 1030) demo_dst_cancel demo_dst_ledger = Inr L'"
  by (simp add: dst_cancel_def DstCancel_accounts_def demo_dst_cancel_def demo_dst_ledger_def demo_dst_simps)

lemma demo_dst_wf: "wf_ledger demo_dst_ledger"
  by (simp add: wf_ledger_def demo_dst_ledger_def demo_dst_keys demo_dst_keys [symmetric])

lemma demo_dst_facts:
  "prog demo_dst_ledger demo_dst_key = Some (EscrowDstAcc demo_dst_escrow)"
  "tok demo_dst_ledger (200 # demo_dst_key @ [6]) = Some (demo_dst_account demo_dst_key 100)"
  "lamports demo_dst_ledger demo_dst_key = 1000" "lamports demo_dst_ledger (200 # demo_dst_key @ [6]) = 1000"
  "tok demo_dst_ledger [200, 22, 6] = None"
  by (simp_all add: demo_dst_ledger_def lamports_def demo_dst_keys demo_dst_keys [symmetric])

lemma demo_dst_balances:
  assumes "tok L (200 # demo_dst_key @ [6]) = tok demo_dst_ledger (200 # demo_dst_key @ [6])"
  shows "tokens L (200 # demo_dst_key @ [6]) = 100" "backing L (200 # demo_dst_key @ [6]) = 0"
  using assms by (simp_all add: demo_dst_facts tokens_def backing_def demo_dst_account_def native_part_def)

lemmas demo_pay_simps = pay_tokens_def pay_key_def pay_lamports_def demo_dst_sel demo_dst_balances deposit_due_def

theorem dst_withdraw_correct_witness:
  "\<exists>L'. dst_withdraw demo_runtime (demo_dst_exec 1015) demo_dst_withdraw [41] demo_dst_ledger = Inr L'
    \<and> prog L' demo_dst_key = None \<and> 100 \<le> tokens L' [200, 22, 6]"
proof -
  obtain L' where r: "dst_withdraw demo_runtime (demo_dst_exec 1015) demo_dst_withdraw [41] demo_dst_ledger = Inr L'"
    using demo_dst_withdraw_runs by blast
  have s: "DstWithdraw.recipient demo_dst_withdraw \<noteq> DstWithdraw.escrow demo_dst_withdraw"
    by (simp add: demo_dst_withdraw_def demo_dst_keys demo_dst_keys [symmetric])
  from dst_withdraw_correct [OF demo_runtime_ok demo_dst_wf r s]
  obtain L1 where "tok L1 (200 # demo_dst_key @ [6]) = tok demo_dst_ledger (200 # demo_dst_key @ [6])"
    "settled L1 L' demo_dst_key (200 # demo_dst_key @ [6])
      (pay_tokens False [22] (Some [200, 22, 6]) L1 (200 # demo_dst_key @ [6]))
      [([200, 22, 6], pay_lamports False 100 L1 (200 # demo_dst_key @ [6])),
       ([21], lamports L1 demo_dst_key + lamports L1 (200 # demo_dst_key @ [6])
          - pay_lamports False 100 L1 (200 # demo_dst_key @ [6]))]"
    by (auto simp: demo_dst_withdraw_def demo_dst_facts demo_dst_sel pay_key_def)
  with r show ?thesis
    by (intro exI [where x = L']) (simp add: settled_def settle_def demo_pay_simps demo_dst_keys)
qed

theorem dst_public_withdraw_correct_witness:
  "\<exists>L'. dst_public_withdraw demo_runtime (demo_dst_exec 1025) demo_dst_public_withdraw [41] demo_dst_ledger = Inr L'
    \<and> prog L' demo_dst_key = None \<and> 100 \<le> tokens L' [200, 22, 6]"
proof -
  obtain L' where r: "dst_public_withdraw demo_runtime (demo_dst_exec 1025) demo_dst_public_withdraw [41]
      demo_dst_ledger = Inr L'" using demo_dst_public_withdraw_runs by blast
  have s: "DstPublicWithdraw.recipient demo_dst_public_withdraw \<noteq> DstPublicWithdraw.escrow demo_dst_public_withdraw"
    "DstPublicWithdraw.escrow demo_dst_public_withdraw \<notin> set (signers (demo_dst_exec 1025))"
    by (simp_all add: demo_dst_public_withdraw_def demo_dst_exec_sel demo_dst_keys demo_dst_keys [symmetric])
  from dst_public_withdraw_correct [OF demo_runtime_ok demo_dst_wf r s]
  obtain L1 lm where "tok L1 (200 # demo_dst_key @ [6]) = tok demo_dst_ledger (200 # demo_dst_key @ [6])"
    "settled L1 L' demo_dst_key (200 # demo_dst_key @ [6])
      (pay_tokens False [22] (Some [200, 22, 6]) L1 (200 # demo_dst_key @ [6])) lm"
    by (auto simp: demo_dst_public_withdraw_def demo_dst_facts demo_dst_sel pay_key_def)
  with r show ?thesis
    by (intro exI [where x = L']) (simp add: settled_def settle_def demo_pay_simps demo_dst_keys)
qed

theorem dst_cancel_correct_witness:
  "\<exists>L'. dst_cancel demo_runtime (demo_dst_exec 1030) demo_dst_cancel demo_dst_ledger = Inr L'
    \<and> settled demo_dst_ledger L' demo_dst_key (200 # demo_dst_key @ [6])
        [([200, 21, 6], 100)] [([200, 21, 6], 0), ([21], 2000)]"
proof -
  obtain L' where r: "dst_cancel demo_runtime (demo_dst_exec 1030) demo_dst_cancel demo_dst_ledger = Inr L'"
    using demo_dst_cancel_runs by blast
  from dst_cancel_correct [OF demo_runtime_ok demo_dst_wf r] r show ?thesis
    by (intro exI [where x = L']) (auto simp: demo_dst_cancel_def demo_dst_facts demo_pay_simps)
qed

text \<open>The example claimed and cancelled.\<close>

lemma demo_dst_ended:
  "\<exists>L'. dst_claims demo_runtime (demo_dst_exec 1015) demo_dst_key [41] demo_dst_ledger L'"
  "\<exists>L'. dst_cancels demo_runtime (demo_dst_exec 1030) demo_dst_key demo_dst_ledger L'"
proof -
  have k: "DstWithdraw.escrow demo_dst_withdraw = demo_dst_key" "DstCancel.escrow demo_dst_cancel = demo_dst_key"
    by (simp_all add: demo_dst_withdraw_def demo_dst_cancel_def)
  show "\<exists>L'. dst_claims demo_runtime (demo_dst_exec 1015) demo_dst_key [41] demo_dst_ledger L'"
    using demo_dst_withdraw_runs k unfolding dst_claims_def by blast
  show "\<exists>L'. dst_cancels demo_runtime (demo_dst_exec 1030) demo_dst_key demo_dst_ledger L'"
    using demo_dst_cancel_runs k unfolding dst_cancels_def by blast
qed

end
