(* ===== verification/DstOpening.thy ===== *)
theory DstOpening
  imports DstClaims
begin

text \<open>
  Opening and rescuing an escrow of the destination program
  (\<open>programs/cross-chain-escrow-dst/src/lib.rs\<close>, \<open>create\<close> and \<open>rescue_funds\<close>).  The creator, a
  resolver, locks the recipient's asset; the destination cancellation must not be later than
  the cancellation time of the source escrow that the creator passes in.
\<close>

section \<open>Accounts\<close>

record DstCreate =
  creator :: pubkey
  mint :: pubkey
  creator_ata :: "pubkey option"
  escrow :: pubkey
  escrow_ata :: pubkey
  associated_token_program :: pubkey
  token_program :: pubkey
  rent :: pubkey
  system_program :: pubkey

record DstRescueFunds =
  creator :: pubkey
  recipient :: pubkey
  mint :: pubkey
  escrow :: pubkey
  escrow_ata :: pubkey
  creator_ata :: pubkey
  token_program :: pubkey
  system_program :: pubkey

text \<open>The parameters of \<open>create\<close>.\<close>

record DstArgs =
  da_order_hash :: bytes
  da_hashlock :: bytes
  da_amount :: u64
  da_safety_deposit :: u64
  da_recipient :: pubkey
  da_timelocks :: u64x4
  da_src_cancellation_timestamp :: u32
  da_asset_is_native :: bool

definition zero_EscrowDst :: EscrowDst where
  "zero_EscrowDst = \<lparr>ed_order_hash = zero_key, ed_hashlock = zero_key, ed_creator = zero_key,
     ed_recipient = zero_key, ed_token = zero_key, ed_asset_is_native = False, ed_amount = 0,
     ed_safety_deposit = 0, ed_timelocks = (0, 0, 0, 0), ed_bump = 0\<rparr>"

definition DstCreate_accounts ::
  "runtime \<Rightarrow> exec \<Rightarrow> DstCreate \<Rightarrow> DstArgs \<Rightarrow> ledger
    \<Rightarrow> (ledger \<times> mint_ref \<times> token_ref option \<times> token_ref \<times> u8) res" where
  "DstCreate_accounts rt x a args L =
     bindE (check_signer x (DstCreate.creator a)) (\<lambda>_.
     bindE (load_mint L (DstCreate.mint a)) (\<lambda>m.
     bindE (load_token_opt L (DstCreate.creator_ata a)) (\<lambda>ca.
     bindE (check_associated_token_program rt (DstCreate.associated_token_program a)) (\<lambda>_.
     bindE (check_token_program rt (DstCreate.token_program a)) (\<lambda>_.
     bindE (check_rent rt (DstCreate.rent a)) (\<lambda>_.
     bindE (check_system_program rt (DstCreate.system_program a)) (\<lambda>_.
     bindE (find_pda rt (escrow_seeds (da_order_hash args) (da_hashlock args) (DstCreate.creator a) (da_amount args))
       dst_ID (DstCreate.escrow a)) (\<lambda>bump.
     bindE (init_data rt x (DstCreate.creator a) (DstCreate.escrow a) (DISCRIMINATOR_BYTES + EscrowDst_INIT_SPACE)
       dst_ID (EscrowDstAcc zero_EscrowDst) L) (\<lambda>L1.
     bindE (init_if_needed_ata rt x (DstCreate.escrow_ata a) (DstCreate.creator a) (DstCreate.mint a)
       (DstCreate.escrow a) (DstCreate.token_program a) L1) (\<lambda>(L2, ea).
     bindE (check_ata_opt rt ca (DstCreate.mint a) (DstCreate.creator a) (DstCreate.token_program a)) (\<lambda>_.
     Inr (L2, m, ca, ea, bump))))))))))))"

definition DstRescueFunds_accounts ::
  "runtime \<Rightarrow> exec \<Rightarrow> DstRescueFunds \<Rightarrow> bytes \<Rightarrow> bytes \<Rightarrow> u64 \<Rightarrow> ledger
    \<Rightarrow> (mint_ref \<times> token_ref \<times> token_ref \<times> u8) res" where
  "DstRescueFunds_accounts rt x a order_hash hashlock escrow_amount L =
     bindE (check_signer x (DstRescueFunds.creator a)) (\<lambda>_.
     bindE (load_mint L (DstRescueFunds.mint a)) (\<lambda>m.
     bindE (load_token L (DstRescueFunds.escrow_ata a)) (\<lambda>ea.
     bindE (load_token L (DstRescueFunds.creator_ata a)) (\<lambda>ca.
     bindE (check_token_program rt (DstRescueFunds.token_program a)) (\<lambda>_.
     bindE (check_system_program rt (DstRescueFunds.system_program a)) (\<lambda>_.
     bindE (find_pda rt (escrow_seeds order_hash hashlock (DstRescueFunds.creator a) escrow_amount) dst_ID
       (DstRescueFunds.escrow a)) (\<lambda>bump.
     bindE (check_ata rt ea (DstRescueFunds.mint a) (DstRescueFunds.escrow a) (DstRescueFunds.token_program a)) (\<lambda>_.
     bindE (check_ata rt ca (DstRescueFunds.mint a) (DstRescueFunds.creator a) (DstRescueFunds.token_program a)) (\<lambda>_.
     Inr (m, ea, ca, bump))))))))))"

section \<open>Instructions\<close>

text \<open>Native assets stay lamports of the escrow's token account, without a synchronisation.\<close>

definition dst_deposit ::
  "runtime \<Rightarrow> exec \<Rightarrow> DstCreate \<Rightarrow> bool \<Rightarrow> u64 \<Rightarrow> mint_ref \<Rightarrow> token_ref option \<Rightarrow> ledger \<Rightarrow> ledger res" where
  "dst_deposit rt x a native amt m ca L =
     (if native then
        uni_transfer rt x
          (NativeTransfer (DstCreate.creator a) (DstCreate.escrow_ata a) amt (DstCreate.system_program a)) None L
      else
        bindE (ok_or ca (Escrow MissingCreatorAta)) (\<lambda>from_ata.
        uni_transfer rt x
          (TokenTransfer (fst from_ata) (DstCreate.creator a) (DstCreate.escrow_ata a) m amt
             (DstCreate.token_program a)) None L))"

definition new_dst_escrow :: "pubkey \<Rightarrow> pubkey \<Rightarrow> DstArgs \<Rightarrow> Timelocks \<Rightarrow> u8 \<Rightarrow> EscrowDst" where
  "new_dst_escrow who token args updated_timelocks bump =
     \<lparr>ed_order_hash = da_order_hash args, ed_hashlock = da_hashlock args, ed_creator = who,
      ed_recipient = da_recipient args, ed_token = token, ed_asset_is_native = da_asset_is_native args,
      ed_amount = da_amount args, ed_safety_deposit = da_safety_deposit args,
      ed_timelocks = get_timelocks updated_timelocks, ed_bump = bump\<rparr>"

definition dst_create :: "runtime \<Rightarrow> exec \<Rightarrow> DstCreate \<Rightarrow> DstArgs \<Rightarrow> ledger \<Rightarrow> ledger res" where
  "dst_create rt x a args L =
     bindE (check_entry dst_ID x) (\<lambda>_.
     bindE (DstCreate_accounts rt x a args L) (\<lambda>(L1, m, ca, ea, bump).
     let updated_timelocks = set_deployed_at (Timelocks (U256 (da_timelocks args))) (now x) in
     bindE (get updated_timelocks DstCancellation) (\<lambda>cancellation_start.
     require (cancellation_start \<le> da_src_cancellation_timestamp args) (Escrow InvalidCreationTime)
     (require (da_amount args \<noteq> 0 \<and> da_safety_deposit args \<noteq> 0) (Escrow ZeroAmountOrDeposit)
     (require (da_safety_deposit args \<le> minimum_balance rt (EscrowDst_INIT_SPACE + DISCRIMINATOR_BYTES))
       (Escrow SafetyDepositTooLarge)
     (require (DstCreate.mint a = native_mint rt \<or> \<not> da_asset_is_native args) (Escrow InconsistentNativeTrait)
     (bindE (dst_deposit rt x a (da_asset_is_native args) (da_amount args) m ca L1) (\<lambda>L2.
     Inr (set_data (DstCreate.escrow a)
       (EscrowDstAcc (new_dst_escrow (DstCreate.creator a) (DstCreate.mint a) args updated_timelocks bump)) L2)))))))))"

definition dst_rescue_start :: "ledger \<Rightarrow> pubkey \<Rightarrow> u32 option res" where
  "dst_rescue_start L k =
     (if no_data L k then Inr None
      else (case prog L k of
          Some (EscrowDstAcc e) \<Rightarrow>
            bindE (rescue_start (Timelocks (U256 (ed_timelocks e))) RESCUE_DELAY) (\<lambda>s. Inr (Some s))
        | _ \<Rightarrow> Inl (Anchor AccountDiscriminatorMismatch)))"

definition dst_rescue_funds ::
  "runtime \<Rightarrow> exec \<Rightarrow> DstRescueFunds \<Rightarrow> bytes \<Rightarrow> bytes \<Rightarrow> u64 \<Rightarrow> u64 \<Rightarrow> ledger \<Rightarrow> ledger res" where
  "dst_rescue_funds rt x a order_hash hashlock escrow_amount rescue_amount L =
     bindE (check_entry dst_ID x) (\<lambda>_.
     bindE (DstRescueFunds_accounts rt x a order_hash hashlock escrow_amount L) (\<lambda>(m, ea, ca, bump).
     bindE (dst_rescue_start L (DstRescueFunds.escrow a)) (\<lambda>start.
     let seeds = escrow_seeds order_hash hashlock (DstRescueFunds.creator a) escrow_amount @ [[bump]] in
     rescue_funds rt x (DstRescueFunds.escrow a) start ea (DstRescueFunds.creator a) ca m
       (DstRescueFunds.token_program a) rescue_amount seeds L)))"

section \<open>Effects\<close>

definition dst_create_touches :: "DstCreate \<Rightarrow> pubkey set" where
  "dst_create_touches a =
     {DstCreate.creator a, DstCreate.escrow a, DstCreate.escrow_ata a} \<union> set_option (DstCreate.creator_ata a)"

lemma dst_deposit_effect:
  assumes ok: "runtime_ok rt" and r: "dst_deposit rt x a native amt m ca L = Inr L'"
    and ca: "\<forall>t. ca = Some t \<longrightarrow> tok L (fst t) = Some (snd t)"
  shows "prog L' = prog L" "mints L' = mints L" "statics L' = statics L" "native \<or> ca \<noteq> None"
    and "native \<Longrightarrow> tok L' = tok L"
    and "native \<Longrightarrow> shifted (DstCreate.creator a) (DstCreate.escrow_ata a) (unat amt) (lamports L) (lamports L')"
    and "\<not> native \<Longrightarrow> shifted (fst (the ca)) (DstCreate.escrow_ata a) (unat amt) (tokens L) (tokens L')"
    and "\<not> native \<Longrightarrow> \<exists>b. shifted (fst (the ca)) (DstCreate.escrow_ata a) b (lamports L) (lamports L')"
    and "\<not> native \<Longrightarrow> amt \<noteq> 0 \<Longrightarrow> tok L (DstCreate.escrow_ata a) \<noteq> None"
proof -
  let ?ea = "DstCreate.escrow_ata a" and ?c = "DstCreate.creator a"
  have "prog L' = prog L \<and> mints L' = mints L \<and> statics L' = statics L \<and> (native \<or> ca \<noteq> None)
    \<and> (native \<longrightarrow> tok L' = tok L) \<and> (native \<longrightarrow> shifted ?c ?ea (unat amt) (lamports L) (lamports L'))
    \<and> (\<not> native \<longrightarrow> shifted (fst (the ca)) ?ea (unat amt) (tokens L) (tokens L'))
    \<and> (\<not> native \<longrightarrow> (\<exists>b. shifted (fst (the ca)) ?ea b (lamports L) (lamports L')))
    \<and> (\<not> native \<longrightarrow> amt \<noteq> 0 \<longrightarrow> tok L ?ea \<noteq> None)"
  proof (cases native)
    case True
    with r have u: "uni_transfer rt x (NativeTransfer ?c ?ea amt (DstCreate.system_program a)) None L = Inr L'"
      by (simp add: dst_deposit_def del: uni_transfer.simps)
    note e = native_transfer_effect [OF ok u]
    show ?thesis using True e(1-4) statics_cong [OF e(2)] by simp
  next
    case False
    with r obtain t where t: "ca = Some t" and
      u: "uni_transfer rt x (TokenTransfer (fst t) ?c ?ea m amt (DstCreate.token_program a)) None L = Inr L'"
      by (auto simp: dst_deposit_def res_simps simp del: uni_transfer.simps)
    note e = token_transfer_effect [OF ok u]
    have "tok L (fst t) = Some (snd t)" using ca t by simp
    from e(7) [OF this] have "\<exists>b. shifted (fst (the ca)) ?ea b (lamports L) (lamports L')" using t by auto
    then show ?thesis using False e(1-4,6) t by simp
  qed
  then show "prog L' = prog L" "mints L' = mints L" "statics L' = statics L" "native \<or> ca \<noteq> None"
    "native \<Longrightarrow> tok L' = tok L" "native \<Longrightarrow> shifted ?c ?ea (unat amt) (lamports L) (lamports L')"
    "\<not> native \<Longrightarrow> shifted (fst (the ca)) ?ea (unat amt) (tokens L) (tokens L')"
    "\<not> native \<Longrightarrow> \<exists>b. shifted (fst (the ca)) ?ea b (lamports L) (lamports L')"
    "\<not> native \<Longrightarrow> amt \<noteq> 0 \<Longrightarrow> tok L ?ea \<noteq> None" by blast+
qed

text \<open>The conditions under which an escrow may be opened at a time; the result is the moment from
  which the creator can take it back.\<close>

definition dst_args_ok :: "runtime \<Rightarrow> pubkey \<Rightarrow> DstArgs \<Rightarrow> u32 \<Rightarrow> u32 \<Rightarrow> bool" where
  "dst_args_ok rt token args t cancellation_start \<longleftrightarrow>
     get (set_deployed_at (Timelocks (U256 (da_timelocks args))) t) DstCancellation = Inr cancellation_start
     \<and> cancellation_start \<le> da_src_cancellation_timestamp args
     \<and> da_amount args \<noteq> 0 \<and> da_safety_deposit args \<noteq> 0
     \<and> da_safety_deposit args \<le> minimum_balance rt (EscrowDst_INIT_SPACE + DISCRIMINATOR_BYTES)
     \<and> (da_asset_is_native args \<longrightarrow> token = native_mint rt)"

definition opened_dst_escrow :: "exec \<Rightarrow> DstCreate \<Rightarrow> DstArgs \<Rightarrow> u8 \<Rightarrow> EscrowDst" where
  "opened_dst_escrow x a args bump = new_dst_escrow (DstCreate.creator a) (DstCreate.mint a) args
     (set_deployed_at (Timelocks (U256 (da_timelocks args))) (now x)) bump"

lemma dst_create_Inr:
  assumes "dst_create rt x a args L = Inr L'"
  obtains L1 m ca ea bump start L2 where
    "DstCreate_accounts rt x a args L = Inr (L1, m, ca, ea, bump)"
    "dst_args_ok rt (DstCreate.mint a) args (now x) start"
    "dst_deposit rt x a (da_asset_is_native args) (da_amount args) m ca L1 = Inr L2"
    "L' = set_data (DstCreate.escrow a) (EscrowDstAcc (opened_dst_escrow x a args bump)) L2"
  using assms
  by (auto simp: dst_create_def dst_args_ok_def opened_dst_escrow_def Let_def bindE_Inr_iff require_Inr_iff
      split: prod.splits)

text \<open>The ledger after the accounts of \<open>create\<close> are set up.\<close>

lemma DstCreate_accounts_effect:
  assumes ok: "runtime_ok rt" and r: "DstCreate_accounts rt x a args L = Inr (L1, m, ca, ea, bump)"
    and ns: "DstCreate.escrow a \<notin> set (signers x)" "DstCreate.escrow_ata a \<notin> set (signers x)"
  shows "DstCreate.creator a \<in> set (signers x)"
    and "find_program_address rt
      (escrow_seeds (da_order_hash args) (da_hashlock args) (DstCreate.creator a) (da_amount args)) dst_ID
      = (DstCreate.escrow a, bump)"
    and "DstCreate.creator_ata a = map_option fst ca" "\<forall>t. ca = Some t \<longrightarrow> tok L1 (fst t) = Some (snd t)"
    and "\<And>t. ca = Some t \<Longrightarrow> fst t \<noteq> DstCreate.escrow_ata a \<and> fst t \<noteq> DstCreate.escrow a"
    and "no_data L (DstCreate.escrow a)" "prog L1 = (prog L)(DstCreate.escrow a \<mapsto> EscrowDstAcc zero_EscrowDst)"
    and "DstCreate.escrow_ata a \<noteq> DstCreate.escrow a"
    and "tokens L (DstCreate.escrow_ata a) \<le> tokens L1 (DstCreate.escrow_ata a)"
    and "DstCreate.mint a \<noteq> native_mint rt \<Longrightarrow> tokens L1 = tokens L"
    and "unat (minimum_balance rt (DISCRIMINATOR_BYTES + EscrowDst_INIT_SPACE)) \<le> lamports L1 (DstCreate.escrow a)"
    and "conserved (dst_create_touches a) (lamports L) (lamports L1)"
    and "lamports L (DstCreate.escrow_ata a) \<le> lamports L1 (DstCreate.escrow_ata a)"
    and "wf_ledger L \<Longrightarrow> wf_ledger L1"
proof -
  let ?c = "DstCreate.creator a" and ?e = "DstCreate.escrow a" and ?ea = "DstCreate.escrow_ata a"
  from r obtain K1 where cs: "?c \<in> set (signers x)" and
    lc: "load_token_opt L (DstCreate.creator_ata a) = Inr ca" and
    f: "find_program_address rt (escrow_seeds (da_order_hash args) (da_hashlock args) ?c (da_amount args)) dst_ID
      = (?e, bump)" and
    i: "init_data rt x ?c ?e (DISCRIMINATOR_BYTES + EscrowDst_INIT_SPACE) dst_ID (EscrowDstAcc zero_EscrowDst) L = Inr K1" and
    n: "init_if_needed_ata rt x ?ea ?c (DstCreate.mint a) ?e (DstCreate.token_program a) K1 = Inr (L1, ea)" and
    co: "check_ata_opt rt ca (DstCreate.mint a) ?c (DstCreate.token_program a) = Inr ()"
    by (auto simp: DstCreate_accounts_def bindE_Inr_iff check_Inr_iff find_pda_Inr_iff)
  have ne: "?c \<noteq> ?e" "?c \<noteq> ?ea" using cs ns by auto
  note e = init_pair_effect [OF ok i n]
  show "?c \<in> set (signers x)" by (rule cs)
  show "find_program_address rt (escrow_seeds (da_order_hash args) (da_hashlock args) ?c (da_amount args)) dst_ID
      = (?e, bump)" by (rule f)
  show "DstCreate.creator_ata a = map_option fst ca" using lc by (simp add: load_token_opt_Inr_iff)
  show ca: "\<forall>t. ca = Some t \<longrightarrow> tok L1 (fst t) = Some (snd t)" using lc e(9) by (simp add: load_token_opt_Inr_iff)
  show "fst t \<noteq> ?ea \<and> fst t \<noteq> ?e" if "ca = Some t" for t
  proof -
    have "ta_owner (snd t) = ?c" "tok L (fst t) \<noteq> None"
      using lc co that by (simp_all add: load_token_opt_Inr_iff check_ata_opt_Inr_iff)
    with ca that e(1,5,7) ne show ?thesis by (auto simp: no_data_def)
  qed
  show "no_data L ?e" "prog L1 = (prog L)(?e \<mapsto> EscrowDstAcc zero_EscrowDst)" "?ea \<noteq> ?e"
    "tokens L ?ea \<le> tokens L1 ?ea" "DstCreate.mint a \<noteq> native_mint rt \<Longrightarrow> tokens L1 = tokens L"
    "unat (minimum_balance rt (DISCRIMINATOR_BYTES + EscrowDst_INIT_SPACE)) \<le> lamports L1 ?e"
    "lamports L ?ea \<le> lamports L1 ?ea" "wf_ledger L \<Longrightarrow> wf_ledger L1" using e ne by blast+
  show "conserved (dst_create_touches a) (lamports L) (lamports L1)"
    by (rule e(15)) (simp_all add: dst_create_touches_def)
qed

text \<open>The deposit comes from the creator or its token account, never from the escrow's account.\<close>

lemma dst_deposit_lamports:
  assumes ok: "runtime_ok rt" and ac: "DstCreate_accounts rt x a args L = Inr (L1, m, ca, ea, bump)"
    and ns: "DstCreate.escrow a \<notin> set (signers x)" "DstCreate.escrow_ata a \<notin> set (signers x)"
    and r: "dst_deposit rt x a native amt m ca L1 = Inr L2"
  shows "conserved (dst_create_touches a) (lamports L1) (lamports L2)"
    and "lamports L2 (DstCreate.escrow a) = lamports L1 (DstCreate.escrow a)"
proof -
  let ?e = "DstCreate.escrow a" and ?ea = "DstCreate.escrow_ata a"
  note e = DstCreate_accounts_effect [OF ok ac ns]
  note d = dst_deposit_effect [OF ok r e(4)]
  have "\<exists>f b. f \<noteq> ?e \<and> f \<in> dst_create_touches a \<and> shifted f ?ea b (lamports L1) (lamports L2)"
  proof (cases native)
    case True
    have "DstCreate.creator a \<noteq> ?e" using e(1) ns(1) by auto
    then show ?thesis
      by (intro exI [where x = "DstCreate.creator a"] exI [where x = "unat amt"])
        (use d(6) True in \<open>simp add: dst_create_touches_def\<close>)
  next
    case False
    with d(4) obtain t where t: "ca = Some t" by auto
    from d(8) [OF False] obtain b where b: "shifted (fst t) ?ea b (lamports L1) (lamports L2)" using t by auto
    have "fst t \<in> dst_create_touches a" using t e(3) by (simp add: dst_create_touches_def)
    with b e(5) [OF t] show ?thesis by blast
  qed
  then obtain f b where s: "f \<noteq> ?e" "f \<in> dst_create_touches a" "shifted f ?ea b (lamports L1) (lamports L2)" by blast
  show "conserved (dst_create_touches a) (lamports L1) (lamports L2)"
    by (rule shifted_conserved [OF s(3)]) (use s(2) in \<open>simp_all add: dst_create_touches_def\<close>)
  show "lamports L2 ?e = lamports L1 ?e" by (rule shifted_other [OF s(3)]) (use s(1) e(8) in auto)
qed

lemma dst_create_effect:
  assumes ok: "runtime_ok rt" and r: "dst_create rt x a args L = Inr L'"
    and ns: "DstCreate.escrow a \<notin> set (signers x)" "DstCreate.escrow_ata a \<notin> set (signers x)"
  obtains bump start where
    "DstCreate.creator a \<in> set (signers x)" "no_data L (DstCreate.escrow a)"
    "dst_args_ok rt (DstCreate.mint a) args (now x) start"
    "find_program_address rt
      (escrow_seeds (da_order_hash args) (da_hashlock args) (DstCreate.creator a) (da_amount args)) dst_ID
      = (DstCreate.escrow a, bump)"
    "prog L' = (prog L)(DstCreate.escrow a \<mapsto> EscrowDstAcc (opened_dst_escrow x a args bump))"
    "da_asset_is_native args \<Longrightarrow>
      lamports L (DstCreate.escrow_ata a) + unat (da_amount args) \<le> lamports L' (DstCreate.escrow_ata a)"
    "\<not> da_asset_is_native args \<Longrightarrow> DstCreate.creator_ata a \<noteq> None
      \<and> tokens L (DstCreate.escrow_ata a) + unat (da_amount args) \<le> tokens L' (DstCreate.escrow_ata a)"
    "DstCreate.mint a \<noteq> native_mint rt \<Longrightarrow> shifted (the (DstCreate.creator_ata a)) (DstCreate.escrow_ata a)
      (unat (da_amount args)) (tokens L) (tokens L')"
    "unat (da_safety_deposit args) \<le> lamports L' (DstCreate.escrow a)"
    "conserved (dst_create_touches a) (lamports L) (lamports L')"
    "wf_ledger L \<Longrightarrow> wf_ledger L'"
proof -
  let ?c = "DstCreate.creator a" and ?e = "DstCreate.escrow a" and ?ea = "DstCreate.escrow_ata a"
  obtain L1 m ca ea bump start L2 where
    ac: "DstCreate_accounts rt x a args L = Inr (L1, m, ca, ea, bump)" and
    g: "dst_args_ok rt (DstCreate.mint a) args (now x) start" and
    dp: "dst_deposit rt x a (da_asset_is_native args) (da_amount args) m ca L1 = Inr L2" and
    L': "L' = set_data ?e (EscrowDstAcc (opened_dst_escrow x a args bump)) L2" by (rule dst_create_Inr [OF r])
  note e = DstCreate_accounts_effect [OF ok ac ns]
  note d = dst_deposit_effect [OF ok dp e(4)]
  note dl = dst_deposit_lamports [OF ok ac ns dp]
  have l: "lamports L' = lamports L2" "tokens L' = tokens L2"
    by (simp_all add: L' lamports_def tokens_def fun_eq_iff)
  have P: "prog L' = (prog L)(?e \<mapsto> EscrowDstAcc (opened_dst_escrow x a args bump))"
    using d(1) e(7) by (simp add: L')
  have N: "lamports L ?ea + unat (da_amount args) \<le> lamports L' ?ea" if "da_asset_is_native args"
    using d(6) [OF that] e(1,13) ns l by (auto simp: shifted_def)
  have T: "DstCreate.creator_ata a \<noteq> None \<and> tokens L ?ea + unat (da_amount args) \<le> tokens L' ?ea"
    if nat: "\<not> da_asset_is_native args"
  proof -
    from d(4) nat obtain t where t: "ca = Some t" by auto
    from d(7) [OF nat] e(5) [OF t] e(3,9) l t show ?thesis by (auto simp: shifted_def)
  qed
  have S: "shifted (the (DstCreate.creator_ata a)) ?ea (unat (da_amount args)) (tokens L) (tokens L')"
    if "DstCreate.mint a \<noteq> native_mint rt"
  proof -
    have nat: "\<not> da_asset_is_native args" using g that by (auto simp: dst_args_ok_def)
    from d(4) nat obtain t where "ca = Some t" by auto
    with d(7) [OF nat] e(3) e(10) [OF that] l show ?thesis by simp
  qed
  have C: "conserved (dst_create_touches a) (lamports L) (lamports L')" using conserved_trans [OF e(12) dl(1)] l by simp
  have "unat (da_safety_deposit args) \<le> unat (minimum_balance rt (DISCRIMINATOR_BYTES + EscrowDst_INIT_SPACE))"
    using g by (simp add: dst_args_ok_def word_le_nat_alt add.commute)
  then have R: "unat (da_safety_deposit args) \<le> lamports L' ?e" using e(11) dl(2) l by simp
  have W: "wf_ledger L'" if "wf_ledger L"
  proof -
    have p: "dom (prog L') = dom (prog L1)" using e(7) by (auto simp: P)
    show ?thesis by (rule wf_ledger_sub [OF e(14) [OF that]]) (use statics_dom [OF d(3)] p d(2) in \<open>simp_all add: L'\<close>)
  qed
  show ?thesis by (rule that [OF e(1,6) g e(2) P N T S R C W])
qed

text \<open>C17: \<open>create\<close> on the destination chain: the creator signs, the escrow's address is the one its
  parameters derive and was unused, and the recorded escrow can be cancelled no later than the
  cancellation time of the source escrow that the creator passed in.  The escrowed asset is in
  place: native assets as lamports of the escrow's token account, other assets as tokens of the
  creator; the rent of the escrow account covers the safety deposit; lamports only moved
  among the creator, its token account and the two new accounts.\<close>

theorem dst_create_correct:
  assumes "runtime_ok rt" "dst_create rt x a args L = Inr L'"
    and "DstCreate.escrow a \<notin> set (signers x)" "DstCreate.escrow_ata a \<notin> set (signers x)"
  shows "DstCreate.creator a \<in> set (signers x) \<and> no_data L (DstCreate.escrow a)
    \<and> (\<exists>start. dst_args_ok rt (DstCreate.mint a) args (now x) start)
    \<and> (\<exists>bump. find_program_address rt
          (escrow_seeds (da_order_hash args) (da_hashlock args) (DstCreate.creator a) (da_amount args)) dst_ID
          = (DstCreate.escrow a, bump)
        \<and> prog L' = (prog L)(DstCreate.escrow a \<mapsto> EscrowDstAcc (opened_dst_escrow x a args bump)))
    \<and> (if da_asset_is_native args
        then lamports L (DstCreate.escrow_ata a) + unat (da_amount args) \<le> lamports L' (DstCreate.escrow_ata a)
        else DstCreate.creator_ata a \<noteq> None
          \<and> tokens L (DstCreate.escrow_ata a) + unat (da_amount args) \<le> tokens L' (DstCreate.escrow_ata a))
    \<and> (DstCreate.mint a \<noteq> native_mint rt \<longrightarrow>
        shifted (the (DstCreate.creator_ata a)) (DstCreate.escrow_ata a) (unat (da_amount args)) (tokens L) (tokens L'))
    \<and> unat (da_safety_deposit args) \<le> lamports L' (DstCreate.escrow a)
    \<and> conserved (dst_create_touches a) (lamports L) (lamports L')"
  using assms by (elim dst_create_effect) (assumption | simp | blast)+

lemma dst_rescue_start_open:
  assumes "dst_rescue_start L k = Inr start" "start = None \<or> the start \<le> t"
  shows "no_data L k \<or> (\<exists>e. prog L k = Some (EscrowDstAcc e)
    \<and> unat (deployed_at (U256 (ed_timelocks e))) + unat RESCUE_DELAY \<le> unat t)"
  using assms by (auto simp: dst_rescue_start_def bindE_Inr_iff rescue_start_Inr_iff word_le_nat_alt
      split: if_splits option.splits ProgramData.splits)

lemma dst_rescue_funds_rescues:
  assumes "runtime_ok rt" "dst_rescue_funds rt x a order_hash hashlock escrow_amount rescue_amount L = Inr L'"
    and "DstRescueFunds.escrow a \<notin> set (signers x)"
  shows "DstRescueFunds.creator a \<in> set (signers x)
    \<and> fst (find_program_address rt (escrow_seeds order_hash hashlock (DstRescueFunds.creator a) escrow_amount) dst_ID)
        = DstRescueFunds.escrow a
    \<and> (no_data L (DstRescueFunds.escrow a)
       \<or> (\<exists>e. prog L (DstRescueFunds.escrow a) = Some (EscrowDstAcc e)
            \<and> unat (deployed_at (U256 (ed_timelocks e))) + unat RESCUE_DELAY \<le> unat (now x)))
    \<and> rescued L L' (DstRescueFunds.escrow_ata a) (DstRescueFunds.creator_ata a) (DstRescueFunds.creator a)
        (unat rescue_amount)"
proof -
  let ?e = "DstRescueFunds.escrow a" and ?c = "DstRescueFunds.creator a"
  from assms(2) obtain m ea ca bump start where
    ac: "DstRescueFunds_accounts rt x a order_hash hashlock escrow_amount L = Inr (m, ea, ca, bump)" and
    st: "dst_rescue_start L ?e = Inr start" and
    r: "rescue_funds rt x ?e start ea ?c ca m (DstRescueFunds.token_program a)
       rescue_amount (escrow_seeds order_hash hashlock ?c escrow_amount @ [[bump]]) L = Inr L'"
    by (auto simp: dst_rescue_funds_def Let_def bindE_Inr_iff split: prod.splits)
  from ac have l: "?c \<in> set (signers x)"
      "find_program_address rt (escrow_seeds order_hash hashlock ?c escrow_amount) dst_ID = (?e, bump)"
      "fst ea = DstRescueFunds.escrow_ata a" "tok L (fst ea) = Some (snd ea)" "ta_owner (snd ea) = ?e"
      "fst ca = DstRescueFunds.creator_ata a" "tok L (fst ca) = Some (snd ca)" "ta_owner (snd ca) = ?c"
    by (auto simp: DstRescueFunds_accounts_def res_simps)
  have "?e \<noteq> ?c" using l(1) assms(3) by auto
  with l have ne: "fst ea \<noteq> fst ca" by auto
  note e = rescue_funds_rescued [OF assms(1) r l(4) ne]
  show ?thesis using l e(1) dst_rescue_start_open [OF st e(2)] by simp
qed

text \<open>C39: \<open>rescue_funds\<close> of the destination program: the creator, by its signature, moves any
  amount out of a token account of an escrow address derived from its own key, once the escrow
  is closed or the rescue delay has passed; taking the whole balance closes the account.\<close>

theorem dst_rescue_funds_correct:
  assumes "runtime_ok rt" "dst_rescue_funds rt x a order_hash hashlock escrow_amount rescue_amount L = Inr L'"
    and "DstRescueFunds.escrow a \<notin> set (signers x)"
  shows "DstRescueFunds.creator a \<in> set (signers x)
    \<and> fst (find_program_address rt (escrow_seeds order_hash hashlock (DstRescueFunds.creator a) escrow_amount) dst_ID)
        = DstRescueFunds.escrow a
    \<and> (no_data L (DstRescueFunds.escrow a)
       \<or> (\<exists>e. prog L (DstRescueFunds.escrow a) = Some (EscrowDstAcc e)
            \<and> unat (deployed_at (U256 (ed_timelocks e))) + unat RESCUE_DELAY \<le> unat (now x)))
    \<and> rescued L L' (DstRescueFunds.escrow_ata a) (DstRescueFunds.creator_ata a) (DstRescueFunds.creator a)
        (unat rescue_amount)"
  using assms by (rule dst_rescue_funds_rescues)

section \<open>Examples\<close>

definition demo_dst_args :: DstArgs where
  "demo_dst_args = \<lparr>da_order_hash = [31], da_hashlock = [41], da_amount = 100, da_safety_deposit = 7,
     da_recipient = [22], da_timelocks = (0, 0, 85899345930, 30), da_src_cancellation_timestamp = 1030,
     da_asset_is_native = False\<rparr>"

definition demo_dst_create :: DstCreate where
  "demo_dst_create = \<lparr>DstCreate.creator = [21], DstCreate.mint = [6], DstCreate.creator_ata = Some [200, 21, 6],
     DstCreate.escrow = demo_dst_key, DstCreate.escrow_ata = 200 # demo_dst_key @ [6],
     DstCreate.associated_token_program = [1], DstCreate.token_program = [2], DstCreate.rent = [4],
     DstCreate.system_program = [0]\<rparr>"

definition demo_dst_maker_ledger :: ledger where
  "demo_dst_maker_ledger = \<lparr>lam = (\<lambda>k. 1000), tok = [[200, 21, 6] \<mapsto> demo_dst_account [21] 300],
     mints = [[6] \<mapsto> \<lparr>m_decimals = 9, m_program = [2]\<rparr>], prog = (\<lambda>k. None)\<rparr>"

definition demo_dst_rescue :: DstRescueFunds where
  "demo_dst_rescue = \<lparr>DstRescueFunds.creator = [21], DstRescueFunds.recipient = [22], DstRescueFunds.mint = [6],
     DstRescueFunds.escrow = demo_dst_key, DstRescueFunds.escrow_ata = 200 # demo_dst_key @ [6],
     DstRescueFunds.creator_ata = [200, 21, 6], DstRescueFunds.token_program = [2],
     DstRescueFunds.system_program = [0]\<rparr>"

lemma demo_dst_create_get:
  "get (set_deployed_at (Timelocks (U256 (0, 0, 85899345930, 30))) 1000) DstCancellation = Inr 1030"
  by (simp add: get_set_deployed_at delta_U256 del: U256.simps)

lemma demo_dst_create_runs:
  "\<exists>L'. dst_create demo_runtime (demo_dst_exec 1000) demo_dst_create demo_dst_args demo_dst_maker_ledger = Inr L'"
  by (simp add: dst_create_def DstCreate_accounts_def dst_deposit_def init_data_def demo_dst_create_def demo_dst_args_def
      demo_dst_maker_ledger_def demo_dst_create_get demo_dst_simps del: U256.simps)

lemma demo_dst_rescue_start:
  "rescue_start (Timelocks (U256 demo_dst_timelocks)) RESCUE_DELAY = Inr 692200"
  by (simp add: rescue_start_Inr_iff RESCUE_DELAY_def demo_dst_timelocks_def deployed_at_U256 drop_bit_eq_div del: U256.simps)

lemma demo_dst_rescue_runs:
  "\<exists>L'. dst_rescue_funds demo_runtime (demo_dst_exec 692200) demo_dst_rescue [31] [41] 100 100 demo_dst_ledger = Inr L'"
  by (simp add: dst_rescue_funds_def DstRescueFunds_accounts_def dst_rescue_start_def rescue_funds_def
      demo_dst_rescue_def demo_dst_ledger_def demo_dst_rescue_start demo_dst_simps)

theorem dst_create_correct_witness:
  "\<exists>L'. dst_create demo_runtime (demo_dst_exec 1000) demo_dst_create demo_dst_args demo_dst_maker_ledger = Inr L'
    \<and> 100 \<le> tokens L' (200 # demo_dst_key @ [6]) \<and> tokens L' [200, 21, 6] = 200"
proof -
  obtain L' where r: "dst_create demo_runtime (demo_dst_exec 1000) demo_dst_create demo_dst_args
      demo_dst_maker_ledger = Inr L'" using demo_dst_create_runs by blast
  have k: "DstCreate.escrow demo_dst_create = demo_dst_key" "DstCreate.mint demo_dst_create = [6]"
    "DstCreate.escrow_ata demo_dst_create = 200 # demo_dst_key @ [6]" "DstCreate.creator_ata demo_dst_create = Some [200, 21, 6]"
    "da_amount demo_dst_args = 100" "da_asset_is_native demo_dst_args = False"
    by (simp_all add: demo_dst_create_def demo_dst_args_def)
  have s: "DstCreate.escrow demo_dst_create \<notin> set (signers (demo_dst_exec 1000))"
    "DstCreate.escrow_ata demo_dst_create \<notin> set (signers (demo_dst_exec 1000))"
    by (simp_all add: k demo_dst_exec_sel demo_dst_keys)
  have "tokens demo_dst_maker_ledger [200, 21, 6] = 300"
    by (simp add: tokens_def demo_dst_maker_ledger_def demo_dst_account_def)
  with dst_create_correct [OF demo_runtime_ok r s] r show ?thesis
    by (intro exI [where x = L']) (simp add: k shifted_def demo_dst_keys demo_dst_keys [symmetric])
qed

theorem dst_rescue_funds_correct_witness:
  "\<exists>L'. dst_rescue_funds demo_runtime (demo_dst_exec 692200) demo_dst_rescue [31] [41] 100 100 demo_dst_ledger = Inr L'
    \<and> rescued demo_dst_ledger L' (200 # demo_dst_key @ [6]) [200, 21, 6] [21] 100"
proof -
  obtain L' where r: "dst_rescue_funds demo_runtime (demo_dst_exec 692200) demo_dst_rescue [31] [41] 100 100
      demo_dst_ledger = Inr L'" using demo_dst_rescue_runs by blast
  have s: "DstRescueFunds.escrow demo_dst_rescue \<notin> set (signers (demo_dst_exec 692200))"
    by (simp add: demo_dst_rescue_def demo_dst_exec_sel demo_dst_keys)
  from dst_rescue_funds_correct [OF demo_runtime_ok r s] r show ?thesis
    by (intro exI [where x = L']) (simp add: demo_dst_rescue_def)
qed

end
