(* ===== verification/Exclusion.thy ===== *)
theory Exclusion
  imports SrcRescue DstOpening
begin

text \<open>
  When the claims of an escrow precede the other ways its assets can leave it: a cancellation, a
  public cancellation and a rescue of the open escrow.  Only \<open>cancel_escrow\<close> and \<open>cancel\<close> wait for
  the end of the claim window by themselves.  A public cancellation has a delay of its own, and a
  rescue looks at the rescue delay alone; no instruction that stores the delays compares them with
  one another.  So an escrow whose delays are out of order can lose its assets while it can still be
  claimed, and the theorems name these two cases.
\<close>

lemma rescue_funds_start:
  "rescue_funds rt x es start ea rcp ra m p amt seeds L = Inr L' \<Longrightarrow> start = None \<or> the start \<le> now x"
  by (cases start) (auto simp: rescue_funds_def require_Inr_iff)

section \<open>The source chain\<close>

text \<open>A rescue by \<open>rescue_funds_for_escrow\<close>; it pays the taker.\<close>

definition src_rescues :: "runtime \<Rightarrow> exec \<Rightarrow> pubkey \<Rightarrow> ledger \<Rightarrow> ledger \<Rightarrow> bool" where
  "src_rescues rt x k L L' \<longleftrightarrow>
     (\<exists>a order_hash hashlock amount rescue_amount.
        rescue_funds_for_escrow rt x a order_hash hashlock amount rescue_amount L = Inr L'
        \<and> RescueFundsForEscrow.escrow a = k)"

definition src_rescue_early :: "EscrowSrc \<Rightarrow> bool" where
  "src_rescue_early e \<longleftrightarrow> RESCUE_DELAY < delta (U256 (es_timelocks e)) SrcCancellation"

text \<open>The ways out of a source escrow other than a claim.\<close>

definition src_exits :: "runtime \<Rightarrow> exec \<Rightarrow> pubkey \<Rightarrow> ledger \<Rightarrow> ledger \<Rightarrow> bool" where
  "src_exits rt x k L L' \<longleftrightarrow> src_cancels rt x k L L' \<or> src_public_cancels rt x k L L' \<or> src_rescues rt x k L L'"

lemma src_rescuesD:
  assumes "src_rescues rt x k L L'" "prog L k = Some (EscrowSrcAcc e)"
  shows "unat (deployed_at (U256 (es_timelocks e))) + unat RESCUE_DELAY \<le> unat (now x)"
proof -
  from assms(1) obtain start where st: "escrow_rescue_start L k = Inr start" "start = None \<or> the start \<le> now x"
    by (auto simp: src_rescues_def rescue_funds_for_escrow_def Let_def bindE_Inr_iff dest!: rescue_funds_start)
  from escrow_rescue_start_open [OF st] assms(2) show ?thesis by (auto simp: no_data_def)
qed

text \<open>No exit before the escrow's cancellation time, but for the two exceptions.\<close>

lemma src_exit_time:
  assumes "src_exits rt y k M M'" "prog M k = Some (EscrowSrcAcc e)"
  shows "unat (deployed_at (U256 (es_timelocks e))) + unat (delta (U256 (es_timelocks e)) SrcCancellation) \<le> unat (now y)
    \<or> public_early e \<and> src_public_cancels rt y k M M' \<or> src_rescue_early e \<and> src_rescues rt y k M M'"
proof -
  from assms(1) consider "src_cancels rt y k M M'" | "src_public_cancels rt y k M M'" | "src_rescues rt y k M M'"
    by (auto simp: src_exits_def)
  then show ?thesis
  proof cases
    case 1
    from src_can_refund_le [OF src_cancelsD [OF 1 assms(2)]] show ?thesis by simp
  next
    case 2
    from src_public_cancelsD [OF 2 assms(2)] 2 show ?thesis by (auto simp: public_early_def word_less_nat_alt)
  next
    case 3
    from src_rescuesD [OF 3 assms(2)] 3 show ?thesis by (auto simp: src_rescue_early_def word_less_nat_alt)
  qed
qed

text \<open>C6: Whenever one transaction claims a source escrow and another takes the assets out of it by
  \<open>cancel_escrow\<close>, \<open>public_cancel_escrow\<close> or a rescue, the claim is the earlier one, with exactly two
  exceptions that the program does not exclude: a public cancellation of an escrow whose public
  cancellation starts before its cancellation, and a rescue of an escrow whose cancellation starts
  later than the rescue delay.  A cancellation by the taker is never an exception.\<close>

theorem src_claim_before_refund:
  assumes "src_claims rt x k L L'" "src_exits rt y k M M'"
    and "prog L k = Some (EscrowSrcAcc e)" "prog M k = Some (EscrowSrcAcc e)"
  shows "now x < now y \<or> public_early e \<and> src_public_cancels rt y k M M' \<or> src_rescue_early e \<and> src_rescues rt y k M M'"
proof -
  have "src_can_claim e (now x)" using src_claimsD [OF assms(1)] assms(3) by simp
  from src_can_claim_less [OF this] src_exit_time [OF assms(2,4)] show ?thesis by (auto simp: word_less_nat_alt)
qed

section \<open>The destination chain\<close>

text \<open>A rescue by \<open>rescue_funds\<close>; it pays the creator, like a cancellation.\<close>

definition dst_rescues :: "runtime \<Rightarrow> exec \<Rightarrow> pubkey \<Rightarrow> ledger \<Rightarrow> ledger \<Rightarrow> bool" where
  "dst_rescues rt x k L L' \<longleftrightarrow>
     (\<exists>a order_hash hashlock amount rescue_amount.
        dst_rescue_funds rt x a order_hash hashlock amount rescue_amount L = Inr L' \<and> DstRescueFunds.escrow a = k)"

definition dst_rescue_early :: "EscrowDst \<Rightarrow> bool" where
  "dst_rescue_early e \<longleftrightarrow> RESCUE_DELAY < delta (U256 (ed_timelocks e)) DstCancellation"

definition dst_exits :: "runtime \<Rightarrow> exec \<Rightarrow> pubkey \<Rightarrow> ledger \<Rightarrow> ledger \<Rightarrow> bool" where
  "dst_exits rt x k L L' \<longleftrightarrow> dst_cancels rt x k L L' \<or> dst_rescues rt x k L L'"

lemma dst_rescuesD:
  assumes "dst_rescues rt x k L L'" "prog L k = Some (EscrowDstAcc e)"
  shows "unat (deployed_at (U256 (ed_timelocks e))) + unat RESCUE_DELAY \<le> unat (now x)"
proof -
  from assms(1) obtain start where st: "dst_rescue_start L k = Inr start" "start = None \<or> the start \<le> now x"
    by (auto simp: dst_rescues_def dst_rescue_funds_def Let_def bindE_Inr_iff dest!: rescue_funds_start
        split: prod.splits)
  from dst_rescue_start_open [OF st] assms(2) show ?thesis by (auto simp: no_data_def)
qed

text \<open>C21: Whenever one transaction claims a destination escrow and another returns its assets to the
  creator by \<open>cancel\<close> or by \<open>rescue_funds\<close>, the claim is the earlier one, with one exception that the
  program does not exclude: a rescue of an escrow whose cancellation starts later than the rescue
  delay.  A cancellation is never an exception, whatever the timelocks.\<close>

theorem dst_claim_before_refund:
  assumes "runtime_ok rt" "dst_claims rt x k secret L L'" "dst_exits rt y k M M'"
    and "prog L k = Some (EscrowDstAcc e)" "prog M k = Some (EscrowDstAcc e)"
  shows "now x < now y \<or> dst_rescue_early e \<and> dst_rescues rt y k M M'"
proof -
  have c: "dst_can_claim e (now x)" using dst_claimsD [OF assms(1,2)] assms(4) by simp
  from assms(3) consider "dst_cancels rt y k M M'" | "dst_rescues rt y k M M'" by (auto simp: dst_exits_def)
  then show ?thesis
  proof cases
    case 1
    with dst_cancelsD [OF 1] assms(5) have "dst_can_refund e (now y)" by simp
    with c have "now x < now y" by (rule dst_window.claim_before_refund)
    then show ?thesis ..
  next
    case 2
    from dst_can_claim_less [OF c] dst_rescuesD [OF 2 assms(5)] 2 show ?thesis
      by (auto simp: dst_rescue_early_def word_less_nat_alt)
  qed
qed

section \<open>Examples\<close>

lemma demo_not_rescue_early: "\<not> src_rescue_early demo_escrow"
  by (simp add: src_rescue_early_def RESCUE_DELAY_def demo_escrow_def demo_timelocks_def delta_U256 drop_bit_eq_div
      del: U256.simps)

lemma demo_dst_not_rescue_early: "\<not> dst_rescue_early demo_dst_escrow"
  by (simp add: dst_rescue_early_def RESCUE_DELAY_def demo_dst_escrow_def demo_dst_timelocks_def delta_U256
      drop_bit_eq_div del: U256.simps)

theorem src_claim_before_refund_witness: "now (demo_exec 1015) < now (demo_exec 1030)"
proof -
  obtain L' M' where "src_claims demo_runtime (demo_exec 1015) demo_escrow_key (demo_ledger demo_escrow) L'"
    "src_exits demo_runtime (demo_exec 1030) demo_escrow_key (demo_ledger demo_escrow) M'"
    using demo_claimed demo_cancelled unfolding src_exits_def by blast
  from src_claim_before_refund [OF this demo_balances(4) demo_balances(4)] show ?thesis
    using demo_not_public_early demo_not_rescue_early by simp
qed

theorem dst_claim_before_refund_witness: "now (demo_dst_exec 1015) < now (demo_dst_exec 1030)"
proof -
  obtain L' M' where "dst_claims demo_runtime (demo_dst_exec 1015) demo_dst_key [41] demo_dst_ledger L'"
    "dst_exits demo_runtime (demo_dst_exec 1030) demo_dst_key demo_dst_ledger M'"
    using demo_dst_ended unfolding dst_exits_def by blast
  from dst_claim_before_refund [OF demo_runtime_ok this demo_dst_facts(1) demo_dst_facts(1)] show ?thesis
    using demo_dst_not_rescue_early by simp
qed

end
