(* ===== verification/Swap.thy ===== *)
theory Swap
  imports Exclusion
begin

text \<open>
  A swap spans two escrows, one of each program, under one hashlock.  The only link between
  them in the code is the timestamp the resolver passes to \<open>create\<close> of the destination
  program.  The theorem here is what makes the swap safe for the resolver: as long as that
  timestamp is not later than the cancellation time of the source escrow, the secret becomes
  public on the destination chain before that time.  Whether the source escrow is still there
  then depends on the order of its delays (\<open>Exclusion\<close>).  Both chains are assumed to read the
  same clock.
\<close>

lemma opened_dst_timelocks:
  "Timelocks (U256 (ed_timelocks (opened_dst_escrow x a args bump)))
    = set_deployed_at (Timelocks (U256 (da_timelocks args))) (now x)"
  by (cases "set_deployed_at (Timelocks (U256 (da_timelocks args))) (now x)")
    (simp add: opened_dst_escrow_def new_dst_escrow_def)

lemma dst_can_claim_before:
  assumes "dst_can_claim e t" "get (Timelocks (U256 (ed_timelocks e))) DstCancellation = Inr start"
  shows "t < start"
  using assms by (auto simp: dst_can_claim_def in_window_Inr_iff get_Inr_iff word_less_nat_alt)

text \<open>A destination escrow is claimed before the source cancellation time it was opened with.\<close>

lemma dst_claim_timely:
  assumes ok: "runtime_ok rt" and cr: "dst_create rt w a args L = Inr L1"
    and ns: "DstCreate.escrow a \<notin> set (signers w)" "DstCreate.escrow_ata a \<notin> set (signers w)"
    and cl: "dst_claims rt x (DstCreate.escrow a) secret M M'"
    and M: "prog M (DstCreate.escrow a) = prog L1 (DstCreate.escrow a)"
  shows "keccak rt secret = da_hashlock args \<and> now x < da_src_cancellation_timestamp args"
proof -
  from ok cr ns obtain bump start where
    g: "dst_args_ok rt (DstCreate.mint a) args (now w) start" and
    p: "prog L1 (DstCreate.escrow a) = Some (EscrowDstAcc (opened_dst_escrow w a args bump))"
    by (rule dst_create_effect) simp
  let ?d = "opened_dst_escrow w a args bump"
  from dst_claimsD [OF ok cl] M p have c: "dst_can_claim ?d (now x)" "keccak rt secret = ed_hashlock ?d" by simp_all
  have "get (Timelocks (U256 (ed_timelocks ?d))) DstCancellation = Inr start"
    "start \<le> da_src_cancellation_timestamp args"
    using g by (auto simp: dst_args_ok_def opened_dst_timelocks)
  with dst_can_claim_before [OF c(1)] c(2) show ?thesis by (auto simp: opened_dst_escrow_def new_dst_escrow_def)
qed

text \<open>C1: A claim on the destination chain reveals a secret that opens the source escrow, and
  happens before the source cancellation time \<open>s\<close>, if the destination escrow was opened with the
  source escrow's hashlock and with a source cancellation time of at most \<open>s\<close>.  So it precedes
  every cancellation by the taker and every other way out of the source escrow than a claim, with
  two exceptions that the source program does not exclude: a public cancellation where it starts
  before the cancellation, and a rescue where the cancellation starts after the rescue delay.\<close>

theorem destination_claim_precedes_source_refund:
  assumes ok: "runtime_ok rt" and cr: "dst_create rt w a args L = Inr L1"
    and ns: "DstCreate.escrow a \<notin> set (signers w)" "DstCreate.escrow_ata a \<notin> set (signers w)"
    and cl: "dst_claims rt x (DstCreate.escrow a) secret M M'"
    and M: "prog M (DstCreate.escrow a) = prog L1 (DstCreate.escrow a)"
    and rf: "src_exits rt y j N N'" and N: "prog N j = Some (EscrowSrcAcc e)"
    and h: "es_hashlock e = da_hashlock args"
    and s: "get (Timelocks (U256 (es_timelocks e))) SrcCancellation = Inr s" "da_src_cancellation_timestamp args \<le> s"
  shows "keccak rt secret = es_hashlock e \<and> now x < s
    \<and> (now x < now y \<or> public_early e \<and> src_public_cancels rt y j N N' \<or> src_rescue_early e \<and> src_rescues rt y j N N')"
proof -
  from dst_claim_timely [OF ok cr ns cl M] s(2)
  have c: "keccak rt secret = da_hashlock args" "now x < s" by auto
  have "s \<le> now y \<or> public_early e \<and> src_public_cancels rt y j N N' \<or> src_rescue_early e \<and> src_rescues rt y j N N'"
    using src_exit_time [OF rf N] s(1) by (simp add: get_Inr_iff word_le_nat_alt)
  with c h show ?thesis by auto
qed

lemma demo_opened:
  "opened_dst_escrow (demo_dst_exec 1000) demo_dst_create demo_dst_args 255 = demo_dst_escrow"
proof -
  have "with_deployed_at (U256 (0, 0, 85899345930, 30)) 1000 = U256 demo_dst_timelocks"
    by (simp add: with_deployed_at_U256 demo_dst_timelocks_def del: U256.simps)
  then show ?thesis
    by (simp add: opened_dst_escrow_def new_dst_escrow_def demo_dst_create_def demo_dst_args_def demo_dst_exec_sel
        set_deployed_at_eq demo_dst_escrow_def del: U256.simps)
qed

lemma demo_dst_withdraw_key: "DstWithdraw.escrow demo_dst_withdraw = demo_dst_key"
  by (simp add: demo_dst_withdraw_def)

lemma demo_dst_signers:
  "DstCreate.escrow demo_dst_create \<notin> set (signers (demo_dst_exec 1000))"
  "DstCreate.escrow_ata demo_dst_create \<notin> set (signers (demo_dst_exec 1000))"
  by (simp_all add: demo_dst_create_def demo_dst_exec_sel demo_dst_keys)

text \<open>The destination escrow of the example: opened at 1000, claimed at 1015.\<close>

lemma demo_dst_claimed:
  obtains L1 M' where
    "dst_create demo_runtime (demo_dst_exec 1000) demo_dst_create demo_dst_args demo_dst_maker_ledger = Inr L1"
    "prog demo_dst_ledger (DstCreate.escrow demo_dst_create) = prog L1 (DstCreate.escrow demo_dst_create)"
    "dst_claims demo_runtime (demo_dst_exec 1015) (DstCreate.escrow demo_dst_create) [41] demo_dst_ledger M'"
proof -
  obtain L1 where cr: "dst_create demo_runtime (demo_dst_exec 1000) demo_dst_create demo_dst_args
      demo_dst_maker_ledger = Inr L1" using demo_dst_create_runs by blast
  have k: "DstCreate.escrow demo_dst_create = demo_dst_key" by (simp add: demo_dst_create_def)
  from demo_runtime_ok cr demo_dst_signers obtain bump where
    f: "find_program_address demo_runtime (escrow_seeds (da_order_hash demo_dst_args) (da_hashlock demo_dst_args)
      (DstCreate.creator demo_dst_create) (da_amount demo_dst_args)) dst_ID = (demo_dst_key, bump)" and
    p: "prog L1 demo_dst_key
      = Some (EscrowDstAcc (opened_dst_escrow (demo_dst_exec 1000) demo_dst_create demo_dst_args bump))"
    by (rule dst_create_effect) (simp add: k)
  have M: "prog demo_dst_ledger (DstCreate.escrow demo_dst_create) = prog L1 (DstCreate.escrow demo_dst_create)"
    using f p by (simp add: k demo_dst_facts demo_opened)
  obtain M' where "dst_claims demo_runtime (demo_dst_exec 1015) (DstCreate.escrow demo_dst_create) [41] demo_dst_ledger M'"
    using demo_dst_withdraw_runs k demo_dst_withdraw_key unfolding dst_claims_def by metis
  from that [OF cr M this] show thesis .
qed

theorem destination_claim_precedes_source_refund_witness:
  "keccak demo_runtime [41] = es_hashlock demo_escrow \<and> now (demo_dst_exec 1015) < 1030
    \<and> now (demo_dst_exec 1015) < now (demo_exec 1030)"
proof -
  obtain L1 M' where cr: "dst_create demo_runtime (demo_dst_exec 1000) demo_dst_create demo_dst_args
      demo_dst_maker_ledger = Inr L1" and
    M: "prog demo_dst_ledger (DstCreate.escrow demo_dst_create) = prog L1 (DstCreate.escrow demo_dst_create)" and
    cl: "dst_claims demo_runtime (demo_dst_exec 1015) (DstCreate.escrow demo_dst_create) [41] demo_dst_ledger M'"
    by (rule demo_dst_claimed)
  obtain N' where rf: "src_exits demo_runtime (demo_exec 1030) demo_escrow_key (demo_ledger demo_escrow) N'"
    using demo_cancelled unfolding src_exits_def by blast
  have h: "es_hashlock demo_escrow = da_hashlock demo_dst_args"
    and s: "get (Timelocks (U256 (es_timelocks demo_escrow))) SrcCancellation = Inr 1030"
    "da_src_cancellation_timestamp demo_dst_args \<le> 1030"
    by (simp_all add: demo_escrow_def demo_dst_args_def demo_get)
  from destination_claim_precedes_source_refund [OF demo_runtime_ok cr demo_dst_signers cl M rf demo_balances(4) h s]
  show ?thesis using demo_not_public_early demo_not_rescue_early by simp
qed

end
