(* ===== verification/Books.thy ===== *)
theory Books
  imports SrcFills
begin

text \<open>
  The books of the protocol: which orders and escrows exist and with which terms, without
  tokens and lamports.  An event is one entry in the books; \<open>book_ok\<close> says when it may be made
  and \<open>book_apply\<close> what it does.  This is the specification the instructions of the three
  programs implement (theory \<open>System\<close>); here it is shown that no order is ever overfilled and
  that the secrets of an order are used in increasing order.
\<close>

section \<open>Events\<close>

type_synonym books = "pubkey \<rightharpoonup> ProgramData"

text \<open>\<open>Filled k j e i\<close>: the order at \<open>k\<close> is filled by the escrow \<open>e\<close> at \<open>j\<close> with the secret \<open>i\<close>.\<close>

datatype event =
    Placed pubkey Order
  | Filled pubkey pubkey EscrowSrc u64
  | OrderGone pubkey
  | EscrowGone pubkey
  | DstOpened pubkey EscrowDst
  | DstGone pubkey
  | Authorized pubkey WhitelistState
  | Admitted pubkey ResolverAccess
  | Dismissed pubkey
  | Unchanged

definition order_fresh :: "Order \<Rightarrow> bool" where
  "order_fresh ord \<longleftrightarrow> o_remaining_amount ord = o_amount ord \<and> o_amount ord \<noteq> 0 \<and> o_safety_deposit ord \<noteq> 0
     \<and> (o_allow_multiple_fills ord \<longrightarrow> 1 < parts_amount (o_hashlock ord))"

definition order_parts :: "Order \<Rightarrow> u64" where
  "order_parts ord = ucast (parts_amount (o_hashlock ord))"

definition fill_allowed :: "Order \<Rightarrow> u64 \<Rightarrow> u64 \<Rightarrow> bool" where
  "fill_allowed ord amount i \<longleftrightarrow>
     (if o_allow_multiple_fills ord
      then amount \<le> o_remaining_amount ord
        \<and> is_valid_partial_fill amount (o_remaining_amount ord) (o_amount ord) (order_parts ord) i = Inr True
      else amount = o_amount ord)"

definition escrow_of :: "Order \<Rightarrow> EscrowSrc \<Rightarrow> bool" where
  "escrow_of ord e \<longleftrightarrow> es_order_hash e = o_order_hash ord \<and> es_maker e = o_creator ord \<and> es_token e = o_token ord
     \<and> es_safety_deposit e = o_safety_deposit ord \<and> es_asset_is_native e = o_asset_is_native ord
     \<and> (o_allow_multiple_fills ord \<or> es_hashlock e = o_hashlock ord)"

definition dst_fresh :: "EscrowDst \<Rightarrow> bool" where
  "dst_fresh e \<longleftrightarrow> ed_amount e \<noteq> 0 \<and> ed_safety_deposit e \<noteq> 0"

fun is_whitelist :: "ProgramData option \<Rightarrow> bool" where
  "is_whitelist (Some (WhitelistAcc w)) = True"
| "is_whitelist _ = False"

fun is_access :: "ProgramData option \<Rightarrow> bool" where
  "is_access (Some (ResolverAcc r)) = True"
| "is_access _ = False"

fun is_order :: "ProgramData option \<Rightarrow> bool" where
  "is_order (Some (OrderAcc ord)) = True"
| "is_order _ = False"

fun is_src_escrow :: "ProgramData option \<Rightarrow> bool" where
  "is_src_escrow (Some (EscrowSrcAcc e)) = True"
| "is_src_escrow _ = False"

fun is_dst_escrow :: "ProgramData option \<Rightarrow> bool" where
  "is_dst_escrow (Some (EscrowDstAcc e)) = True"
| "is_dst_escrow _ = False"

fun book_ok :: "event \<Rightarrow> books \<Rightarrow> bool" where
  "book_ok (Placed k ord) B \<longleftrightarrow> B k = None \<and> order_fresh ord"
| "book_ok (Filled k j e i) B \<longleftrightarrow> j \<noteq> k \<and> B j = None
     \<and> (case B k of Some (OrderAcc ord) \<Rightarrow> escrow_of ord e \<and> fill_allowed ord (es_amount e) i | _ \<Rightarrow> False)"
| "book_ok (OrderGone k) B \<longleftrightarrow> is_order (B k)"
| "book_ok (EscrowGone k) B \<longleftrightarrow> is_src_escrow (B k)"
| "book_ok (DstOpened k e) B \<longleftrightarrow> B k = None \<and> dst_fresh e"
| "book_ok (DstGone k) B \<longleftrightarrow> is_dst_escrow (B k)"
| "book_ok (Authorized k w) B \<longleftrightarrow> B k = None \<or> is_whitelist (B k)"
| "book_ok (Admitted k r) B \<longleftrightarrow> B k = None"
| "book_ok (Dismissed k) B \<longleftrightarrow> is_access (B k)"
| "book_ok Unchanged B \<longleftrightarrow> True"

fun book_apply :: "event \<Rightarrow> books \<Rightarrow> books" where
  "book_apply (Placed k ord) B = B(k \<mapsto> OrderAcc ord)"
| "book_apply (Filled k j e i) B =
     (case B k of
        Some (OrderAcc ord) \<Rightarrow> B(j \<mapsto> EscrowSrcAcc e, k := order_after ord (es_amount e))
      | _ \<Rightarrow> B)"
| "book_apply (OrderGone k) B = B(k := None)"
| "book_apply (EscrowGone k) B = B(k := None)"
| "book_apply (DstOpened k e) B = B(k \<mapsto> EscrowDstAcc e)"
| "book_apply (DstGone k) B = B(k := None)"
| "book_apply (Authorized k w) B = B(k \<mapsto> WhitelistAcc w)"
| "book_apply (Admitted k r) B = B(k \<mapsto> ResolverAcc r)"
| "book_apply (Dismissed k) B = B(k := None)"
| "book_apply Unchanged B = B"

fun books_run :: "books \<Rightarrow> event list \<Rightarrow> books \<Rightarrow> bool" where
  "books_run B [] B' \<longleftrightarrow> B' = B"
| "books_run B (ev # evs) B' \<longleftrightarrow> book_ok ev B \<and> books_run (book_apply ev B) evs B'"

lemma books_run_append: "books_run B (evs @ evs') B' \<longleftrightarrow> (\<exists>C. books_run B evs C \<and> books_run C evs' B')"
  by (induction evs arbitrary: B) auto

lemma books_run_snoc: "books_run B (evs @ [ev]) B' \<longleftrightarrow> (\<exists>C. books_run B evs C \<and> book_ok ev C \<and> B' = book_apply ev C)"
  by (simp add: books_run_append)

lemma is_kindE:
  "is_order x \<Longrightarrow> (\<And>ord. x = Some (OrderAcc ord) \<Longrightarrow> P) \<Longrightarrow> P"
  "is_src_escrow x \<Longrightarrow> (\<And>e. x = Some (EscrowSrcAcc e) \<Longrightarrow> P) \<Longrightarrow> P"
  "is_dst_escrow x \<Longrightarrow> (\<And>d. x = Some (EscrowDstAcc d) \<Longrightarrow> P) \<Longrightarrow> P"
  "is_access x \<Longrightarrow> (\<And>r. x = Some (ResolverAcc r) \<Longrightarrow> P) \<Longrightarrow> P"
  "is_whitelist x \<Longrightarrow> (\<And>w. x = Some (WhitelistAcc w) \<Longrightarrow> P) \<Longrightarrow> P"
  by (cases x rule: is_order.cases; simp)+

lemma book_ok_FilledE:
  assumes "book_ok (Filled k j e i) B"
  obtains ord where "B k = Some (OrderAcc ord)" "j \<noteq> k" "B j = None" "escrow_of ord e"
    "fill_allowed ord (es_amount e) i"
    "book_apply (Filled k j e i) B = B(j \<mapsto> EscrowSrcAcc e, k := order_after ord (es_amount e))"
  using assms by (auto split: option.splits ProgramData.splits)

section \<open>What the books keep\<close>

definition order_wf :: "Order \<Rightarrow> bool" where
  "order_wf ord \<longleftrightarrow> o_remaining_amount ord \<noteq> 0 \<and> o_remaining_amount ord \<le> o_amount ord \<and> o_safety_deposit ord \<noteq> 0
     \<and> (\<not> o_allow_multiple_fills ord \<longrightarrow> o_remaining_amount ord = o_amount ord)"

definition src_escrow_wf :: "EscrowSrc \<Rightarrow> bool" where
  "src_escrow_wf e \<longleftrightarrow> es_amount e \<noteq> 0 \<and> es_safety_deposit e \<noteq> 0"

fun data_wf :: "ProgramData \<Rightarrow> bool" where
  "data_wf (OrderAcc ord) = order_wf ord"
| "data_wf (EscrowSrcAcc e) = src_escrow_wf e"
| "data_wf (EscrowDstAcc e) = dst_fresh e"
| "data_wf _ = True"

definition books_wf :: "books \<Rightarrow> bool" where
  "books_wf B \<longleftrightarrow> (\<forall>k d. B k = Some d \<longrightarrow> data_wf d)"

lemma books_wfD: "books_wf B \<Longrightarrow> B k = Some d \<Longrightarrow> data_wf d"
  by (simp add: books_wf_def)

lemma books_wf_upd: "books_wf B \<Longrightarrow> data_wf d \<Longrightarrow> books_wf (B(k \<mapsto> d))"
  by (simp add: books_wf_def)

lemma books_wf_del: "books_wf B \<Longrightarrow> books_wf (B(k := None))"
  by (simp add: books_wf_def)

text \<open>An allowed fill of a well-formed order is positive and fits.\<close>

lemma fill_allowedD:
  assumes "order_wf ord" "fill_allowed ord amount i"
  shows "amount \<noteq> 0" "amount \<le> o_remaining_amount ord"
proof -
  have a: "amount \<le> o_remaining_amount ord"
    using assms by (auto simp: fill_allowed_def order_wf_def split: if_splits)
  show "amount \<le> o_remaining_amount ord" by (rule a)
  show "amount \<noteq> 0"
  proof (cases "o_allow_multiple_fills ord")
    case True
    let ?r = "o_remaining_amount ord"
    have v: "is_valid_partial_fill amount ?r (o_amount ord) (order_parts ord) i = Inr True"
      using assms(2) True by (simp add: fill_allowed_def)
    have r: "unat ?r \<noteq> 0" "unat ?r \<le> unat (o_amount ord)"
      using assms(1) by (simp_all add: order_wf_def word_le_nat_alt unat_eq_0)
    have le: "unat amount \<le> unat ?r" using a by (simp add: word_le_nat_alt)
    from v is_valid_partial_fill_eq [OF le r(2)] have f:
      "fill_fits (unat (o_amount ord)) (unat (order_parts ord)) (unat (o_amount ord) - unat ?r) (unat amount)"
      "fill_ok (unat (o_amount ord)) (unat (order_parts ord)) (unat (o_amount ord) - unat ?r) (unat amount) (unat i)"
      by (auto split: if_splits)
    have "0 < unat amount"
      by (rule fill_ok_pos [OF f(2)]) (use f(1) le r in \<open>auto simp: fill_fits_def\<close>)
    then show ?thesis by auto
  next
    case False
    with assms show ?thesis by (auto simp: fill_allowed_def order_wf_def)
  qed
qed

lemma order_after_wf:
  assumes "order_wf ord" "fill_allowed ord amount i" "order_after ord amount = Some d"
  shows "data_wf d"
proof -
  note f = fill_allowedD [OF assms(1,2)]
  have n: "\<not> order_closes ord amount" and d: "d = OrderAcc (ord\<lparr>o_remaining_amount := o_remaining_amount ord - amount\<rparr>)"
    using assms(3) by (auto simp: order_after_def split: if_splits)
  have "unat (o_remaining_amount ord - amount) = unat (o_remaining_amount ord) - unat amount"
    using f(2) by (intro unat_sub_ok) (simp add: word_le_nat_alt)
  moreover have "unat amount < unat (o_remaining_amount ord)"
    using n f(2) by (auto simp: order_closes_def word_le_nat_alt word_eq_iff_unat)
  ultimately show ?thesis
    using assms(1) n d by (auto simp: order_wf_def order_closes_def word_le_nat_alt word_eq_iff_unat)
qed

lemma books_wf_step:
  assumes wf: "books_wf B" and ok: "book_ok ev B"
  shows "books_wf (book_apply ev B)"
proof (cases ev)
  case (Filled k j e i)
  with ok obtain ord where f: "B k = Some (OrderAcc ord)" "escrow_of ord e" "fill_allowed ord (es_amount e) i"
    "book_apply ev B = B(j \<mapsto> EscrowSrcAcc e, k := order_after ord (es_amount e))"
    by (auto elim: book_ok_FilledE simp del: book_ok.simps book_apply.simps)
  have o: "order_wf ord" using books_wfD [OF wf f(1)] by simp
  have "src_escrow_wf e"
    using fill_allowedD [OF o f(3)] f(2) o by (simp add: src_escrow_wf_def escrow_of_def order_wf_def)
  then have w: "books_wf (B(j \<mapsto> EscrowSrcAcc e))" using books_wf_upd [OF wf] by simp
  show ?thesis
    using w order_after_wf [OF o f(3)] by (cases "order_after ord (es_amount e)") (auto simp: f(4) books_wf_def)
qed (use assms in \<open>auto intro!: books_wf_upd books_wf_del simp: order_fresh_def order_wf_def\<close>)

lemma books_wf_run: "books_wf B \<Longrightarrow> books_run B evs B' \<Longrightarrow> books_wf B'"
  by (induction evs arbitrary: B) (auto dest: books_wf_step)

section \<open>No order is overfilled\<close>

text \<open>The history of an order: the order last placed at a key, and its fills since then.\<close>

type_synonym order_history = "(Order \<times> (u64 \<times> u64) list) option"

fun note_event :: "pubkey \<Rightarrow> event \<Rightarrow> order_history \<Rightarrow> order_history" where
  "note_event k (Placed k' ord) h = (if k' = k then Some (ord, []) else h)"
| "note_event k (Filled k' j e i) h =
     (if k' = k then map_option (\<lambda>(ord, fs). (ord, fs @ [(es_amount e, i)])) h else h)"
| "note_event k _ h = h"

definition history :: "pubkey \<Rightarrow> event list \<Rightarrow> order_history" where
  "history k evs = fold (note_event k) evs None"

definition filled :: "(u64 \<times> u64) list \<Rightarrow> nat" where
  "filled fs = (\<Sum>f\<leftarrow>fs. unat (fst f))"

lemma filled_simps [simp]:
  "filled [] = 0" "filled (f # fs) = unat (fst f) + filled fs" "filled (fs @ gs) = filled fs + filled gs"
  by (simp_all add: filled_def)

text \<open>One more accepted fill.\<close>

lemma accepted_fills_snoc:
  assumes "accepted_fills tot parts remaining fs" "filled fs < unat remaining"
    and "unat r = unat remaining - filled fs" "making \<le> r"
    and "is_valid_partial_fill making r tot parts i = Inr True"
  shows "accepted_fills tot parts remaining (fs @ [(making, i)])"
  using assms
proof (induction fs arbitrary: remaining)
  case Nil
  then have "r = remaining" by (simp add: word_eq_iff_unat)
  with Nil show ?case by simp
next
  case (Cons f fs)
  obtain m j where f: "f = (m, j)" by (cases f)
  have m: "m \<le> remaining" "is_valid_partial_fill m remaining tot parts j = Inr True" "remaining \<noteq> m"
    "accepted_fills tot parts (remaining - m) fs"
    using Cons.prems(1,2) by (auto simp: f split: if_splits)
  have s: "unat (remaining - m) = unat remaining - unat m"
    using m(1) by (intro unat_sub_ok) (simp add: word_le_nat_alt)
  have "accepted_fills tot parts (remaining - m) (fs @ [(making, i)])"
    using m(4) Cons.prems(2-5) s by (intro Cons.IH) (simp_all add: f)
  with m show ?case by (simp add: f)
qed

text \<open>What the history says about the books.\<close>

definition history_ok :: "order_history \<Rightarrow> ProgramData option \<Rightarrow> bool" where
  "history_ok h x \<longleftrightarrow>
     (case h of
        None \<Rightarrow> \<not> is_order x
      | Some (ord, fs) \<Rightarrow> order_fresh ord \<and> filled fs \<le> unat (o_amount ord)
          \<and> (if o_allow_multiple_fills ord
             then accepted_fills (o_amount ord) (order_parts ord) (o_amount ord) fs else fs = [] \<or> (\<exists>i. fs = [(o_amount ord, i)]))
          \<and> (\<forall>cur. x = Some (OrderAcc cur) \<longrightarrow> cur = ord\<lparr>o_remaining_amount := o_remaining_amount cur\<rparr>
              \<and> unat (o_remaining_amount cur) + filled fs = unat (o_amount ord) \<and> o_remaining_amount cur \<noteq> 0))"

lemma history_ok_other: "history_ok h x \<Longrightarrow> \<not> is_order y \<Longrightarrow> history_ok h y"
  by (auto simp: history_ok_def split: option.splits)

lemma history_ok_fill:
  assumes h: "history_ok h (Some (OrderAcc cur))" and f: "fill_allowed cur amount i"
  shows "history_ok (map_option (\<lambda>(ord, fs). (ord, fs @ [(amount, i)])) h) (order_after cur amount)"
proof -
  from h obtain ord fs where e: "h = Some (ord, fs)" "order_fresh ord"
    "if o_allow_multiple_fills ord
     then accepted_fills (o_amount ord) (order_parts ord) (o_amount ord) fs else fs = [] \<or> (\<exists>i. fs = [(o_amount ord, i)])"
    "cur = ord\<lparr>o_remaining_amount := o_remaining_amount cur\<rparr>"
    "unat (o_remaining_amount cur) + filled fs = unat (o_amount ord)" "o_remaining_amount cur \<noteq> 0"
    by (auto simp: history_ok_def split: option.splits)
  obtain r where cur: "cur = ord\<lparr>o_remaining_amount := r\<rparr>" using e(4) by blast
  have r: "unat r + filled fs = unat (o_amount ord)" "unat r \<noteq> 0"
    using e(5,6) by (simp_all add: cur unat_eq_0)
  show ?thesis
  proof (cases "o_allow_multiple_fills ord")
    case True
    have a: "amount \<le> r" "is_valid_partial_fill amount r (o_amount ord) (order_parts ord) i = Inr True"
      using f True by (simp_all add: fill_allowed_def cur order_parts_def)
    have "accepted_fills (o_amount ord) (order_parts ord) (o_amount ord) (fs @ [(amount, i)])"
      using e(3) True r a by (intro accepted_fills_snoc [where r = r]) simp_all
    moreover have "unat amount \<le> unat r" using a(1) by (simp add: word_le_nat_alt)
    moreover have "unat (r - amount) = unat r - unat amount"
      using a(1) by (intro unat_sub_ok) (simp add: word_le_nat_alt)
    ultimately show ?thesis
      using e(1,2) True r
      by (auto simp: history_ok_def order_after_def order_closes_def cur)
  next
    case False
    then have "amount = o_amount ord" using f by (simp add: fill_allowed_def cur)
    moreover have "fs = []" using e(3) False r by auto
    ultimately show ?thesis
      using e(1,2) False by (auto simp: history_ok_def order_after_def order_closes_def cur)
  qed
qed

lemma history_ok_step:
  assumes h: "history_ok h (B k)" and ok: "book_ok ev B"
  shows "history_ok (note_event k ev h) (book_apply ev B k)"
proof (cases ev)
  case (Placed k' ord)
  with h ok show ?thesis by (auto simp: history_ok_def order_fresh_def)
next
  case (Filled k' j e i)
  with ok obtain ord where f: "B k' = Some (OrderAcc ord)" "j \<noteq> k'" "B j = None" "fill_allowed ord (es_amount e) i"
    "book_apply ev B = B(j \<mapsto> EscrowSrcAcc e, k' := order_after ord (es_amount e))"
    by (auto elim: book_ok_FilledE simp del: book_ok.simps book_apply.simps)
  show ?thesis
  proof (cases "k' = k")
    case True
    have "book_apply ev B k = order_after ord (es_amount e)" using True by (simp add: f(5))
    with history_ok_fill [OF h [folded True, unfolded f(1)] f(4)] Filled True show ?thesis
      by (simp del: book_apply.simps)
  next
    case False
    then show ?thesis
      using h history_ok_other [OF h, of "Some (EscrowSrcAcc e)"] f(2) Filled
      by (auto simp: f(5) [unfolded Filled] simp del: book_apply.simps)
  qed
qed (use h history_ok_other [OF h] in auto)

lemma history_ok_run:
  "history_ok h (B k) \<Longrightarrow> books_run B evs B' \<Longrightarrow> history_ok (fold (note_event k) evs h) (B' k)"
proof (induction evs arbitrary: B h)
  case (Cons ev evs)
  then show ?case using history_ok_step [where h = h and B = B and k = k and ev = ev] by simp
qed simp

text \<open>In any run from books without an order at \<open>k\<close>.\<close>

lemma order_accounting:
  assumes "books_run B evs B'" "\<not> is_order (B k)" "history k evs = Some (ord, fs)"
  shows "filled fs \<le> unat (o_amount ord)"
    and "B' k = Some (OrderAcc cur) \<Longrightarrow> cur = ord\<lparr>o_remaining_amount := o_remaining_amount cur\<rparr>
      \<and> unat (o_remaining_amount cur) + filled fs = unat (o_amount ord)"
    and "sorted_wrt (<) (map snd fs)" "\<forall>f \<in> set fs. fst f \<noteq> 0"
proof -
  have "history_ok None (B k)" using assms(2) by (simp add: history_ok_def)
  from history_ok_run [OF this assms(1)] assms(3) have h: "history_ok (Some (ord, fs)) (B' k)"
    by (simp add: history_def)
  then show "filled fs \<le> unat (o_amount ord)"
    "B' k = Some (OrderAcc cur) \<Longrightarrow> cur = ord\<lparr>o_remaining_amount := o_remaining_amount cur\<rparr>
      \<and> unat (o_remaining_amount cur) + filled fs = unat (o_amount ord)"
    by (simp_all add: history_ok_def)
  have "sorted_wrt (<) (map snd fs) \<and> (\<forall>f \<in> set fs. fst f \<noteq> 0)"
  proof (cases "o_allow_multiple_fills ord")
    case True
    with h have "accepted_fills (o_amount ord) (order_parts ord) (o_amount ord) fs" "o_amount ord \<noteq> 0"
      by (simp_all add: history_ok_def order_fresh_def)
    from accepted_fills_sorted [OF this(1) order_refl this(2)] show ?thesis by auto
  next
    case False
    with h show ?thesis by (auto simp: history_ok_def order_fresh_def)
  qed
  then show "sorted_wrt (<) (map snd fs)" "\<forall>f \<in> set fs. fst f \<noteq> 0" by simp_all
qed

end
