(* ===== verification/System.thy ===== *)
theory System
  imports Whitelist SrcRescue Swap Books
begin

text \<open>
  The three programs together: a transaction is an instruction of one of them, dispatched by
  \<open>process\<close>; an instruction that fails leaves the ledger as it was.  Every instruction
  implements one event of the books (theory \<open>Books\<close>), keeps the ledger well-formed and moves
  lamports only among the accounts it names.  Runs interleave instructions with whatever
  other programs do to balances.
\<close>

section \<open>Instructions\<close>

datatype instruction =
    WhitelistIx whitelist_ix
  | CreateIx SrcCreate OrderArgs DstChainParams
  | CreateEscrowIx CreateEscrow u64 "MerkleProof option" AuctionData
  | WithdrawIx SrcWithdraw bytes
  | PublicWithdrawIx SrcPublicWithdraw bytes
  | CancelEscrowIx CancelEscrow
  | PublicCancelEscrowIx PublicCancelEscrow
  | CancelOrderIx CancelOrder
  | CancelOrderByResolverIx CancelOrderbyResolver u64
  | RescueEscrowIx RescueFundsForEscrow bytes bytes u64 u64
  | RescueOrderIx RescueFundsForOrder pubkey pubkey OrderArgs u64
  | DstCreateIx DstCreate DstArgs
  | DstWithdrawIx DstWithdraw bytes
  | DstPublicWithdrawIx DstPublicWithdraw bytes
  | DstCancelIx DstCancel
  | DstRescueIx DstRescueFunds bytes bytes u64 u64

fun process :: "runtime \<Rightarrow> exec \<Rightarrow> instruction \<Rightarrow> ledger \<Rightarrow> ledger res" where
  "process rt x (WhitelistIx ix) L = whitelist_process rt x ix L"
| "process rt x (CreateIx a args dst) L = src_create rt x a args dst L"
| "process rt x (CreateEscrowIx a amount mp auction) L = create_escrow rt x a amount mp auction L"
| "process rt x (WithdrawIx a secret) L = src_withdraw rt x a secret L"
| "process rt x (PublicWithdrawIx a secret) L = src_public_withdraw rt x a secret L"
| "process rt x (CancelEscrowIx a) L = cancel_escrow rt x a L"
| "process rt x (PublicCancelEscrowIx a) L = public_cancel_escrow rt x a L"
| "process rt x (CancelOrderIx a) L = cancel_order rt x a L"
| "process rt x (CancelOrderByResolverIx a reward_limit) L = cancel_order_by_resolver rt x a reward_limit L"
| "process rt x (RescueEscrowIx a order_hash hashlock amount rescue_amount) L =
     rescue_funds_for_escrow rt x a order_hash hashlock amount rescue_amount L"
| "process rt x (RescueOrderIx a who token args rescue_amount) L =
     rescue_funds_for_order rt x a who token args rescue_amount L"
| "process rt x (DstCreateIx a args) L = dst_create rt x a args L"
| "process rt x (DstWithdrawIx a secret) L = dst_withdraw rt x a secret L"
| "process rt x (DstPublicWithdrawIx a secret) L = dst_public_withdraw rt x a secret L"
| "process rt x (DstCancelIx a) L = dst_cancel rt x a L"
| "process rt x (DstRescueIx a order_hash hashlock amount rescue_amount) L =
     dst_rescue_funds rt x a order_hash hashlock amount rescue_amount L"

text \<open>The accounts of the programs an instruction names.  They have no private key, so none of
  them signs a transaction.\<close>

fun program_accounts :: "instruction \<Rightarrow> pubkey set" where
  "program_accounts (CreateIx a args dst) = {SrcCreate.order a}"
| "program_accounts (CreateEscrowIx a amount mp auction) = {CreateEscrow.escrow a}"
| "program_accounts (CancelOrderByResolverIx a reward_limit) = {CancelOrderbyResolver.order a}"
| "program_accounts (RescueEscrowIx a order_hash hashlock amount rescue_amount) = {RescueFundsForEscrow.escrow a}"
| "program_accounts (RescueOrderIx a who token args rescue_amount) = {RescueFundsForOrder.order a}"
| "program_accounts (DstCreateIx a args) = {DstCreate.escrow a, DstCreate.escrow_ata a}"
| "program_accounts (DstRescueIx a order_hash hashlock amount rescue_amount) = {DstRescueFunds.escrow a}"
| "program_accounts _ = {}"

text \<open>The accounts among which an instruction moves lamports.\<close>

fun touched :: "instruction \<Rightarrow> pubkey set" where
  "touched (WhitelistIx (Initialize_ix a)) = {Initialize.authority a, Initialize.whitelist_state a}"
| "touched (WhitelistIx (Register_ix a user client)) = {Register.authority a, Register.resolver_access a}"
| "touched (WhitelistIx (Deregister_ix a user client)) = {Deregister.authority a, Deregister.resolver_access a}"
| "touched (WhitelistIx (SetAuthority_ix a new)) = {}"
| "touched (CreateIx a args dst) = create_touches a"
| "touched (CreateEscrowIx a amount mp auction) = fill_touches a"
| "touched (WithdrawIx a secret) =
     {SrcWithdraw.escrow a, SrcWithdraw.escrow_ata a, SrcWithdraw.taker a, SrcWithdraw.taker_ata a}"
| "touched (PublicWithdrawIx a secret) =
     {SrcPublicWithdraw.escrow a, SrcPublicWithdraw.escrow_ata a, SrcPublicWithdraw.taker a,
      SrcPublicWithdraw.taker_ata a, SrcPublicWithdraw.payer a}"
| "touched (CancelEscrowIx a) =
     {CancelEscrow.escrow a, CancelEscrow.escrow_ata a, CancelEscrow.maker a, CancelEscrow.taker a}
     \<union> set_option (CancelEscrow.maker_ata a)"
| "touched (PublicCancelEscrowIx a) =
     {PublicCancelEscrow.escrow a, PublicCancelEscrow.escrow_ata a, PublicCancelEscrow.maker a,
      PublicCancelEscrow.taker a, PublicCancelEscrow.payer a} \<union> set_option (PublicCancelEscrow.maker_ata a)"
| "touched (CancelOrderIx a) =
     {CancelOrder.order a, CancelOrder.order_ata a, CancelOrder.creator a} \<union> set_option (CancelOrder.creator_ata a)"
| "touched (CancelOrderByResolverIx a reward_limit) =
     {CancelOrderbyResolver.order a, CancelOrderbyResolver.order_ata a, CancelOrderbyResolver.creator a,
      CancelOrderbyResolver.resolver a} \<union> set_option (CancelOrderbyResolver.creator_ata a)"
| "touched (RescueEscrowIx a order_hash hashlock amount rescue_amount) =
     {RescueFundsForEscrow.escrow_ata a, RescueFundsForEscrow.taker_ata a, RescueFundsForEscrow.taker a}"
| "touched (RescueOrderIx a who token args rescue_amount) =
     {RescueFundsForOrder.order_ata a, RescueFundsForOrder.resolver_ata a, RescueFundsForOrder.resolver a}"
| "touched (DstCreateIx a args) = dst_create_touches a"
| "touched (DstWithdrawIx a secret) =
     {DstWithdraw.escrow a, DstWithdraw.escrow_ata a, DstWithdraw.creator a, DstWithdraw.recipient a}
     \<union> set_option (DstWithdraw.recipient_ata a)"
| "touched (DstPublicWithdrawIx a secret) =
     {DstPublicWithdraw.escrow a, DstPublicWithdraw.escrow_ata a, DstPublicWithdraw.creator a,
      DstPublicWithdraw.recipient a, DstPublicWithdraw.payer a} \<union> set_option (DstPublicWithdraw.recipient_ata a)"
| "touched (DstCancelIx a) =
     {DstCancel.escrow a, DstCancel.escrow_ata a, DstCancel.creator a} \<union> set_option (DstCancel.creator_ata a)"
| "touched (DstRescueIx a order_hash hashlock amount rescue_amount) =
     {DstRescueFunds.escrow_ata a, DstRescueFunds.creator_ata a, DstRescueFunds.creator a}"

lemma finite_touched: "finite (touched i)"
  by (cases i rule: touched.cases)
    (auto simp: create_touches_def fill_touches_def dst_create_touches_def)

text \<open>The entry an instruction makes in the books, read off the ledger it leaves.\<close>

definition order_at :: "ledger \<Rightarrow> pubkey \<Rightarrow> Order" where
  "order_at L k = (case prog L k of Some (OrderAcc ord) \<Rightarrow> ord | _ \<Rightarrow> zero_Order)"

definition src_escrow_at :: "ledger \<Rightarrow> pubkey \<Rightarrow> EscrowSrc" where
  "src_escrow_at L k = (case prog L k of Some (EscrowSrcAcc e) \<Rightarrow> e | _ \<Rightarrow> zero_EscrowSrc)"

definition dst_escrow_at :: "ledger \<Rightarrow> pubkey \<Rightarrow> EscrowDst" where
  "dst_escrow_at L k = (case prog L k of Some (EscrowDstAcc e) \<Rightarrow> e | _ \<Rightarrow> zero_EscrowDst)"

fun event_of :: "runtime \<Rightarrow> instruction \<Rightarrow> ledger \<Rightarrow> event" where
  "event_of rt (WhitelistIx (Initialize_ix a)) L' =
     Authorized (whitelist_address rt) \<lparr>WhitelistState.authority = Initialize.authority a\<rparr>"
| "event_of rt (WhitelistIx (Register_ix a user client)) L' =
     Admitted (Register.resolver_access a)
       \<lparr>ra_bump = snd (find_program_address rt (resolver_seeds client user) whitelist_ID)\<rparr>"
| "event_of rt (WhitelistIx (Deregister_ix a user client)) L' = Dismissed (Deregister.resolver_access a)"
| "event_of rt (WhitelistIx (SetAuthority_ix a new)) L' =
     Authorized (whitelist_address rt) \<lparr>WhitelistState.authority = new\<rparr>"
| "event_of rt (CreateIx a args dst) L' = Placed (SrcCreate.order a) (order_at L' (SrcCreate.order a))"
| "event_of rt (CreateEscrowIx a amount mp auction) L' =
     Filled (CreateEscrow.order a) (CreateEscrow.escrow a) (src_escrow_at L' (CreateEscrow.escrow a))
       (case mp of None \<Rightarrow> 0 | Some p \<Rightarrow> index p)"
| "event_of rt (WithdrawIx a secret) L' = EscrowGone (SrcWithdraw.escrow a)"
| "event_of rt (PublicWithdrawIx a secret) L' = EscrowGone (SrcPublicWithdraw.escrow a)"
| "event_of rt (CancelEscrowIx a) L' = EscrowGone (CancelEscrow.escrow a)"
| "event_of rt (PublicCancelEscrowIx a) L' = EscrowGone (PublicCancelEscrow.escrow a)"
| "event_of rt (CancelOrderIx a) L' = OrderGone (CancelOrder.order a)"
| "event_of rt (CancelOrderByResolverIx a reward_limit) L' = OrderGone (CancelOrderbyResolver.order a)"
| "event_of rt (DstCreateIx a args) L' = DstOpened (DstCreate.escrow a) (dst_escrow_at L' (DstCreate.escrow a))"
| "event_of rt (DstWithdrawIx a secret) L' = DstGone (DstWithdraw.escrow a)"
| "event_of rt (DstPublicWithdrawIx a secret) L' = DstGone (DstPublicWithdraw.escrow a)"
| "event_of rt (DstCancelIx a) L' = DstGone (DstCancel.escrow a)"
| "event_of rt _ L' = Unchanged"

definition implements :: "event \<Rightarrow> pubkey set \<Rightarrow> ledger \<Rightarrow> ledger \<Rightarrow> bool" where
  "implements ev K L L' \<longleftrightarrow> book_ok ev (prog L) \<and> prog L' = book_apply ev (prog L) \<and> wf_ledger L'
     \<and> conserved K (lamports L) (lamports L')"

section \<open>Every instruction implements its event\<close>

lemma implementsI:
  assumes "book_ok ev (prog L)" "prog L' = book_apply ev (prog L)" "wf_ledger L'" "conserved K (lamports L) (lamports L')"
  shows "implements ev K L L'"
  using assms by (simp add: implements_def)

text \<open>Instructions that end an escrow.\<close>

lemma payout_implements:
  assumes ok: "runtime_ok rt" and wf: "wf_ledger L"
    and p: "payout_and_close rt x m native amt es ea who ra rr seeds tp sdr sd L = Inr L'"
    and ea: "tok L (fst ea) = Some (snd ea)"
    and ev: "book_ok ev (prog L)" "book_apply ev (prog L) = (prog L)(es := None)"
    and K: "finite K" "{es, fst ea, payout_dest native who ra, rr, sdr} \<subseteq> K"
  shows "implements ev K L L'"
proof -
  note f = payout_and_close_frame [OF ok p ea K]
  have "dom (prog L') \<subseteq> dom (prog L)" using f(1) by auto
  from wf_ledger_sub [OF wf this f(3) f(2)] f ev show ?thesis by (simp add: implements_def)
qed

text \<open>A payout that happened had a destination.\<close>

lemma payout_dest_in:
  assumes "payout_and_close rt x m native amt es ea who ra rr seeds tp sdr sd L = Inr L'"
    and "who \<in> K" "set_option (map_option fst ra) \<subseteq> K"
  shows "payout_dest native who ra \<in> K"
  using assms by (cases native; cases ra)
    (auto simp: payout_dest_def payout_and_close_def process_payout_def)

lemma withdraw_implements:
  assumes ok: "runtime_ok rt" and wf: "wf_ledger L" and r: "src_withdraw rt x a secret L = Inr L'"
  shows "implements (EscrowGone (SrcWithdraw.escrow a)) (touched (WithdrawIx a secret)) L L'"
  using r
proof (rule src_withdraw_Inr)
  fix e m ea ta
  assume i: "prog L (SrcWithdraw.escrow a) = Some (EscrowSrcAcc e)"
    and ea: "fst ea = SrcWithdraw.escrow_ata a" "tok L (SrcWithdraw.escrow_ata a) = Some (snd ea)"
    and ta: "fst ta = SrcWithdraw.taker_ata a"
    and p: "payout_and_close rt x m False (es_amount e) (SrcWithdraw.escrow a) ea (SrcWithdraw.taker a) (Some ta)
      (SrcWithdraw.taker a) (escrow_signer_seeds e (es_bump e)) (SrcWithdraw.token_program a) (SrcWithdraw.taker a)
      (es_safety_deposit e) L = Inr L'"
  show ?thesis
    by (rule payout_implements [OF ok wf p]) (use i ea ta in \<open>auto simp: payout_dest_def\<close>)
qed

lemma public_withdraw_implements:
  assumes ok: "runtime_ok rt" and wf: "wf_ledger L" and r: "src_public_withdraw rt x a secret L = Inr L'"
  shows "implements (EscrowGone (SrcPublicWithdraw.escrow a)) (touched (PublicWithdrawIx a secret)) L L'"
  using r
proof (rule src_public_withdraw_Inr)
  fix e m ea ta
  assume i: "prog L (SrcPublicWithdraw.escrow a) = Some (EscrowSrcAcc e)"
    and ea: "fst ea = SrcPublicWithdraw.escrow_ata a" "tok L (SrcPublicWithdraw.escrow_ata a) = Some (snd ea)"
    and ta: "fst ta = SrcPublicWithdraw.taker_ata a"
    and p: "payout_and_close rt x m False (es_amount e) (SrcPublicWithdraw.escrow a) ea (SrcPublicWithdraw.taker a)
      (Some ta) (SrcPublicWithdraw.taker a) (escrow_signer_seeds e (es_bump e)) (SrcPublicWithdraw.token_program a)
      (SrcPublicWithdraw.payer a) (es_safety_deposit e) L = Inr L'"
  show ?thesis
    by (rule payout_implements [OF ok wf p]) (use i ea ta in \<open>auto simp: payout_dest_def\<close>)
qed

lemma cancel_escrow_implements:
  assumes ok: "runtime_ok rt" and wf: "wf_ledger L" and r: "cancel_escrow rt x a L = Inr L'"
  shows "implements (EscrowGone (CancelEscrow.escrow a)) (touched (CancelEscrowIx a)) L L'"
  using r
proof (rule cancel_escrow_Inr)
  fix e m ea ma
  assume i: "prog L (CancelEscrow.escrow a) = Some (EscrowSrcAcc e)"
    and ea: "fst ea = CancelEscrow.escrow_ata a" "tok L (CancelEscrow.escrow_ata a) = Some (snd ea)"
    and ma: "CancelEscrow.maker_ata a = map_option fst ma"
    and p: "payout_and_close rt x m (es_asset_is_native e) (es_amount e) (CancelEscrow.escrow a) ea
      (CancelEscrow.maker a) ma (CancelEscrow.taker a) (escrow_signer_seeds e (es_bump e))
      (CancelEscrow.token_program a) (CancelEscrow.taker a) (es_safety_deposit e) L = Inr L'"
  have d: "payout_dest (es_asset_is_native e) (CancelEscrow.maker a) ma \<in> touched (CancelEscrowIx a)"
    by (rule payout_dest_in [OF p]) (simp_all add: ma subset_insertI2)
  show ?thesis
    by (rule payout_implements [OF ok wf p]) (use i ea d finite_touched [of "CancelEscrowIx a"] in auto)
qed

lemma public_cancel_escrow_implements:
  assumes ok: "runtime_ok rt" and wf: "wf_ledger L" and r: "public_cancel_escrow rt x a L = Inr L'"
  shows "implements (EscrowGone (PublicCancelEscrow.escrow a)) (touched (PublicCancelEscrowIx a)) L L'"
  using r
proof (rule public_cancel_escrow_Inr)
  fix e m ea ma
  assume i: "prog L (PublicCancelEscrow.escrow a) = Some (EscrowSrcAcc e)"
    and ea: "fst ea = PublicCancelEscrow.escrow_ata a" "tok L (PublicCancelEscrow.escrow_ata a) = Some (snd ea)"
    and ma: "PublicCancelEscrow.maker_ata a = map_option fst ma"
    and p: "payout_and_close rt x m (es_asset_is_native e) (es_amount e) (PublicCancelEscrow.escrow a) ea
      (PublicCancelEscrow.maker a) ma (PublicCancelEscrow.taker a) (escrow_signer_seeds e (es_bump e))
      (PublicCancelEscrow.token_program a) (PublicCancelEscrow.payer a) (es_safety_deposit e) L = Inr L'"
  have d: "payout_dest (es_asset_is_native e) (PublicCancelEscrow.maker a) ma \<in> touched (PublicCancelEscrowIx a)"
    by (rule payout_dest_in [OF p]) (simp_all add: ma subset_insertI2)
  show ?thesis
    by (rule payout_implements [OF ok wf p]) (use i ea d finite_touched [of "PublicCancelEscrowIx a"] in auto)
qed

text \<open>On the destination chain the recipient's account may be opened first.\<close>

lemma opened_then_implements:
  assumes "opened funder ko L L1" "implements ev K L1 L'" "finite K" "funder \<in> K" "set_option ko \<subseteq> K"
  shows "implements ev K L L'"
  using assms(2) conserved_trans [OF opened_conserved [OF assms(1,3,4,5)]] assms(1)
  by (simp add: implements_def opened_def)

lemma dst_withdraw_implements:
  assumes ok: "runtime_ok rt" and wf: "wf_ledger L" and r: "dst_withdraw rt x a secret L = Inr L'"
  shows "implements (DstGone (DstWithdraw.escrow a)) (touched (DstWithdrawIx a secret)) L L'"
  using r ok
proof (rule dst_withdraw_Inr)
  fix L1 e m ea ra
  assume i: "prog L (DstWithdraw.escrow a) = Some (EscrowDstAcc e)"
    and ea: "fst ea = DstWithdraw.escrow_ata a" "tok L (DstWithdraw.escrow_ata a) = Some (snd ea)"
    and o: "opened (DstWithdraw.creator a) (DstWithdraw.recipient_ata a) L L1"
    and ra: "DstWithdraw.recipient_ata a = map_option fst ra"
    and p: "payout_and_close rt x m (ed_asset_is_native e) (ed_amount e) (DstWithdraw.escrow a) ea
      (DstWithdraw.recipient a) ra (DstWithdraw.creator a) (dst_signer_seeds e (ed_bump e))
      (DstWithdraw.token_program a) (DstWithdraw.creator a) (ed_safety_deposit e) L1 = Inr L'"
  have d: "payout_dest (ed_asset_is_native e) (DstWithdraw.recipient a) ra \<in> touched (DstWithdrawIx a secret)"
    by (rule payout_dest_in [OF p]) (simp_all add: ra subset_insertI2)
  have "implements (DstGone (DstWithdraw.escrow a)) (touched (DstWithdrawIx a secret)) L1 L'"
    by (rule payout_implements [OF ok opened_wf [OF o wf] p])
      (use i ea d o opened_tok [OF o] finite_touched [of "DstWithdrawIx a secret"] in \<open>auto simp: opened_def\<close>)
  then show ?thesis by (rule opened_then_implements [OF o]) (use finite_touched [of "DstWithdrawIx a secret"] in auto)
qed

lemma dst_public_withdraw_implements:
  assumes ok: "runtime_ok rt" and wf: "wf_ledger L" and r: "dst_public_withdraw rt x a secret L = Inr L'"
  shows "implements (DstGone (DstPublicWithdraw.escrow a)) (touched (DstPublicWithdrawIx a secret)) L L'"
  using r ok
proof (rule dst_public_withdraw_Inr)
  fix L1 e m ea ra
  assume i: "prog L (DstPublicWithdraw.escrow a) = Some (EscrowDstAcc e)"
    and ea: "fst ea = DstPublicWithdraw.escrow_ata a" "tok L (DstPublicWithdraw.escrow_ata a) = Some (snd ea)"
    and o: "opened (DstPublicWithdraw.payer a) (DstPublicWithdraw.recipient_ata a) L L1"
    and ra: "DstPublicWithdraw.recipient_ata a = map_option fst ra"
    and p: "payout_and_close rt x m (ed_asset_is_native e) (ed_amount e) (DstPublicWithdraw.escrow a) ea
      (DstPublicWithdraw.recipient a) ra (DstPublicWithdraw.creator a) (dst_signer_seeds e (ed_bump e))
      (DstPublicWithdraw.token_program a) (DstPublicWithdraw.payer a) (ed_safety_deposit e) L1 = Inr L'"
  have d: "payout_dest (ed_asset_is_native e) (DstPublicWithdraw.recipient a) ra \<in> touched (DstPublicWithdrawIx a secret)"
    by (rule payout_dest_in [OF p]) (simp_all add: ra subset_insertI2)
  have "implements (DstGone (DstPublicWithdraw.escrow a)) (touched (DstPublicWithdrawIx a secret)) L1 L'"
    by (rule payout_implements [OF ok opened_wf [OF o wf] p])
      (use i ea d o opened_tok [OF o] finite_touched [of "DstPublicWithdrawIx a secret"] in \<open>auto simp: opened_def\<close>)
  then show ?thesis by (rule opened_then_implements [OF o]) (use finite_touched [of "DstPublicWithdrawIx a secret"] in auto)
qed

lemma dst_cancel_implements:
  assumes ok: "runtime_ok rt" and wf: "wf_ledger L" and r: "dst_cancel rt x a L = Inr L'"
  shows "implements (DstGone (DstCancel.escrow a)) (touched (DstCancelIx a)) L L'"
  using r
proof (rule dst_cancel_Inr)
  fix e m ea ca
  assume i: "prog L (DstCancel.escrow a) = Some (EscrowDstAcc e)"
    and ea: "fst ea = DstCancel.escrow_ata a" "tok L (DstCancel.escrow_ata a) = Some (snd ea)"
    and ca: "DstCancel.creator_ata a = map_option fst ca"
    and p: "payout_and_close rt x m (ed_asset_is_native e) (ed_amount e) (DstCancel.escrow a) ea
      (DstCancel.creator a) ca (DstCancel.creator a) (dst_signer_seeds e (ed_bump e))
      (DstCancel.token_program a) (DstCancel.creator a) 0 L = Inr L'"
  have d: "payout_dest (ed_asset_is_native e) (DstCancel.creator a) ca \<in> touched (DstCancelIx a)"
    by (rule payout_dest_in [OF p]) (simp_all add: ca subset_insertI2)
  show ?thesis
    by (rule payout_implements [OF ok wf p]) (use i ea d finite_touched [of "DstCancelIx a"] in auto)
qed

text \<open>Instructions that end an order.\<close>

lemma settled_implements:
  assumes wf: "wf_ledger L" and s: "settled L L' es ea tk lm"
    and ev: "book_ok ev (prog L)" "book_apply ev (prog L) = (prog L)(es := None)"
    and n: "es \<noteq> ea" and K: "finite K" "es \<in> K" "ea \<in> K" "fst ` set lm \<subseteq> K"
  shows "implements ev K L L'"
proof -
  note d = settled_dom [OF s]
  show ?thesis
    using ev wf_ledger_sub [OF wf d] settled_conserved [OF s n K] s by (simp add: implements_def settled_def)
qed

lemma return_key_in:
  assumes "o_asset_is_native ord = (ata = None)" "o_creator ord \<in> K" "set_option ata \<subseteq> K"
  shows "return_key ord ata \<in> K"
  using assms by (cases ata) (auto simp: return_key_def)

lemma cancel_order_implements:
  assumes ok: "runtime_ok rt" and wf: "wf_ledger L" and r: "cancel_order rt x a L = Inr L'"
  shows "implements (OrderGone (CancelOrder.order a)) (touched (CancelOrderIx a)) L L'"
proof -
  let ?K = "touched (CancelOrderIx a)" and ?k = "CancelOrder.order a"
    and ?oa = "CancelOrder.order_ata a" and ?ca = "CancelOrder.creator_ata a"
  from cancel_order_settles [OF ok wf r] obtain ord where
    o: "prog L ?k = Some (OrderAcc ord)" "CancelOrder.creator a = o_creator ord"
      "o_asset_is_native ord = (?ca = None)" and
    s: "settled L L' ?k ?oa (return_tokens ord ?ca L ?oa)
        [(return_key ord ?ca, return_backing ord L ?oa),
         (CancelOrder.creator a, lamports L ?k + lamports L ?oa - return_backing ord L ?oa)]"
    by (elim exE conjE) (rule that)
  have k: "return_key ord ?ca \<in> ?K"
    by (rule return_key_in [OF o(3)]) (simp_all add: o(2) [symmetric] subset_insertI2)
  have "tok L ?oa \<noteq> None" using r by (auto simp: cancel_order_def CancelOrder_accounts_def res_simps)
  then have n: "?k \<noteq> ?oa" using wf_ledger_neq [OF wf] o by simp
  show ?thesis
    by (rule settled_implements [OF wf s _ _ n]) (use o(1) k finite_touched [of "CancelOrderIx a"] in simp_all)
qed

lemma cancel_order_by_resolver_implements:
  assumes ok: "runtime_ok rt" and wf: "wf_ledger L" and r: "cancel_order_by_resolver rt x a reward_limit L = Inr L'"
    and ns: "CancelOrderbyResolver.order a \<notin> set (signers x)"
  shows "implements (OrderGone (CancelOrderbyResolver.order a)) (touched (CancelOrderByResolverIx a reward_limit)) L L'"
proof -
  let ?K = "touched (CancelOrderByResolverIx a reward_limit)" and ?k = "CancelOrderbyResolver.order a"
    and ?oa = "CancelOrderbyResolver.order_ata a" and ?ca = "CancelOrderbyResolver.creator_ata a"
  from cancel_order_by_resolver_settles [OF ok wf r ns] obtain ord pm where
    o: "prog L ?k = Some (OrderAcc ord)" "CancelOrderbyResolver.creator a = o_creator ord"
      "o_asset_is_native ord = (?ca = None)" and
    s: "settled L L' ?k ?oa (return_tokens ord ?ca L ?oa)
        [(return_key ord ?ca, return_backing ord L ?oa), (CancelOrderbyResolver.resolver a, pm),
         (CancelOrderbyResolver.creator a, lamports L ?k + lamports L ?oa - return_backing ord L ?oa - pm)]"
    by (elim exE conjE) (rule that)
  have k: "return_key ord ?ca \<in> ?K"
    by (rule return_key_in [OF o(3)]) (simp_all add: o(2) [symmetric] subset_insertI2)
  have "tok L ?oa \<noteq> None"
    using r by (auto simp: cancel_order_by_resolver_def CancelOrderbyResolver_accounts_def res_simps)
  then have n: "?k \<noteq> ?oa" using wf_ledger_neq [OF wf] o by simp
  show ?thesis
    by (rule settled_implements [OF wf s _ _ n]) (use o(1) k finite_touched [of "CancelOrderByResolverIx a reward_limit"] in simp_all)
qed

text \<open>Rescues leave the books alone.\<close>

lemma rescued_implements:
  assumes wf: "wf_ledger L" and r: "rescued L L' ea dest rcp amt"
  shows "implements Unchanged {ea, dest, rcp} L L'"
proof -
  have "wf_ledger L'" by (rule wf_ledger_sub [OF wf]) (use r rescued_dom [OF r] in \<open>auto simp: rescued_def\<close>)
  with r show ?thesis by (simp add: implements_def rescued_def)
qed

text \<open>Instructions that open an order or an escrow.\<close>

lemma src_create_implements:
  assumes ok: "runtime_ok rt" and wf: "wf_ledger L" and r: "src_create rt x a args dst L = Inr L'"
    and ns: "SrcCreate.order a \<notin> set (signers x)"
  shows "implements (Placed (SrcCreate.order a) (order_at L' (SrcCreate.order a))) (create_touches a) L L'"
  using ok r ns
proof (rule src_create_frame)
  fix bump
  let ?ord = "new_order rt x (SrcCreate.creator a) (SrcCreate.mint a) args bump"
  assume n: "no_data L (SrcCreate.order a)" and g: "order_args_ok rt (SrcCreate.mint a) args (now x)"
    and p: "prog L' = (prog L)(SrcCreate.order a \<mapsto> OrderAcc ?ord)"
    and c: "conserved (create_touches a) (lamports L) (lamports L')" and w: "wf_ledger L \<Longrightarrow> wf_ledger L'"
  have o: "order_at L' (SrcCreate.order a) = ?ord" by (simp add: order_at_def p)
  have "order_fresh ?ord" using g by (simp add: order_fresh_def new_order_def order_args_ok_def)
  with n p c w [OF wf] show ?thesis unfolding o by (simp add: implements_def no_data_def)
qed

lemma create_escrow_implements:
  assumes ok: "runtime_ok rt" and wf: "wf_ledger L" and r: "create_escrow rt x a amount mp auction L = Inr L'"
    and ns: "CreateEscrow.escrow a \<notin> set (signers x)"
  shows "implements (Filled (CreateEscrow.order a) (CreateEscrow.escrow a) (src_escrow_at L' (CreateEscrow.escrow a))
      (case mp of None \<Rightarrow> 0 | Some p \<Rightarrow> index p)) (fill_touches a) L L'"
  using ok wf r ns
proof (rule create_escrow_effect)
  fix ord hashlock dst bump
  let ?o = "CreateEscrow.order a" and ?e = "CreateEscrow.escrow a"
    and ?new = "new_escrow x ord (CreateEscrow.taker a) amount hashlock dst bump"
  assume o: "prog L ?o = Some (OrderAcc ord)" and g: "fill_accepted rt x ord amount mp auction hashlock dst"
    and n: "no_data L ?e" and p: "prog L' = (prog L)(?e \<mapsto> EscrowSrcAcc ?new, ?o := order_after ord amount)"
    and c: "conserved (fill_touches a) (lamports L) (lamports L')" and w: "wf_ledger L'"
  have ne: "?e \<noteq> ?o" using n o by (auto simp: no_data_def)
  have e: "src_escrow_at L' ?e = ?new" using ne by (simp add: src_escrow_at_def p)
  have "escrow_of ord ?new \<and> fill_allowed ord amount (case mp of None \<Rightarrow> 0 | Some p \<Rightarrow> index p)"
    using g by (cases mp)
      (auto simp: escrow_of_def new_escrow_def fill_allowed_def fill_accepted_def fill_hashlock_def order_parts_def
        require_Inr_iff bindE_Inr_iff)
  moreover have "es_amount ?new = amount" by (simp add: new_escrow_def)
  ultimately show ?thesis using o n ne p c w unfolding e by (simp add: implements_def no_data_def)
qed

lemma dst_create_implements:
  assumes ok: "runtime_ok rt" and wf: "wf_ledger L" and r: "dst_create rt x a args L = Inr L'"
    and ns: "DstCreate.escrow a \<notin> set (signers x)" "DstCreate.escrow_ata a \<notin> set (signers x)"
  shows "implements (DstOpened (DstCreate.escrow a) (dst_escrow_at L' (DstCreate.escrow a))) (dst_create_touches a) L L'"
  using ok r ns
proof (rule dst_create_effect)
  fix bump start
  let ?new = "opened_dst_escrow x a args bump"
  assume n: "no_data L (DstCreate.escrow a)" and g: "dst_args_ok rt (DstCreate.mint a) args (now x) start"
    and p: "prog L' = (prog L)(DstCreate.escrow a \<mapsto> EscrowDstAcc ?new)"
    and c: "conserved (dst_create_touches a) (lamports L) (lamports L')" and w: "wf_ledger L \<Longrightarrow> wf_ledger L'"
  have e: "dst_escrow_at L' (DstCreate.escrow a) = ?new" by (simp add: dst_escrow_at_def p)
  have "dst_fresh ?new"
    using g by (simp add: dst_fresh_def dst_args_ok_def opened_dst_escrow_def new_dst_escrow_def)
  with n p c w [OF wf] show ?thesis unfolding e by (simp add: implements_def no_data_def)
qed

lemma whitelist_implements:
  assumes ok: "runtime_ok rt" and wf: "wf_ledger L" and r: "whitelist_process rt x ix L = Inr L'"
  shows "implements (event_of rt (WhitelistIx ix) L') (touched (WhitelistIx ix)) L L'"
proof (cases ix)
  case (Initialize_ix a)
  with r have "initialize rt x a L = Inr L'" by simp
  note e = initialize_effect [OF ok this]
  have "wf_ledger L'" by (rule wf_ledger_new_prog [OF wf e(3)]) (use e in auto)
  with e Initialize_ix show ?thesis by (simp add: implements_def no_data_def)
next
  case (Register_ix a user client)
  with r have "register rt x a user client L = Inr L'" by simp
  note e = register_effect [OF ok this]
  have "wf_ledger L'" by (rule wf_ledger_new_prog [OF wf e(3)]) (use e in auto)
  with e Register_ix show ?thesis by (simp add: implements_def no_data_def)
next
  case (Deregister_ix a user client)
  with r have "deregister rt x a user client L = Inr L'" by simp
  note e = deregister_effect [OF ok this]
  have "wf_ledger L'" by (rule wf_ledger_sub [OF wf]) (use e in auto)
  with e Deregister_ix show ?thesis by (auto simp: implements_def)
next
  case (SetAuthority_ix a new)
  with r have "set_authority rt x a new L = Inr L'" by simp
  note e = set_authority_effect [OF this]
  have "wf_ledger L'" by (rule wf_ledger_sub [OF wf]) (use e in auto)
  moreover have "lamports L' = lamports L" by (rule lamports_cong [OF e(6)])
  ultimately show ?thesis using e SetAuthority_ix by (simp add: implements_def)
qed

lemma rescues_implement:
  assumes ok: "runtime_ok rt" and wf: "wf_ledger L"
  shows "rescue_funds_for_escrow rt x a h l n amt L = Inr L' \<Longrightarrow> RescueFundsForEscrow.escrow a \<notin> set (signers x) \<Longrightarrow>
      implements Unchanged (touched (RescueEscrowIx a h l n amt)) L L'"
    and "rescue_funds_for_order rt x b who token args amt L = Inr L' \<Longrightarrow> RescueFundsForOrder.order b \<notin> set (signers x) \<Longrightarrow>
      implements Unchanged (touched (RescueOrderIx b who token args amt)) L L'"
    and "dst_rescue_funds rt x c h l n amt L = Inr L' \<Longrightarrow> DstRescueFunds.escrow c \<notin> set (signers x) \<Longrightarrow>
      implements Unchanged (touched (DstRescueIx c h l n amt)) L L'"
proof -
  show "rescue_funds_for_escrow rt x a h l n amt L = Inr L' \<Longrightarrow> RescueFundsForEscrow.escrow a \<notin> set (signers x) \<Longrightarrow>
      implements Unchanged (touched (RescueEscrowIx a h l n amt)) L L'"
    by (drule (1) rescue_funds_for_escrow_rescues [OF ok], elim conjE, drule rescued_implements [OF wf]) simp
  show "rescue_funds_for_order rt x b who token args amt L = Inr L' \<Longrightarrow> RescueFundsForOrder.order b \<notin> set (signers x) \<Longrightarrow>
      implements Unchanged (touched (RescueOrderIx b who token args amt)) L L'"
    by (drule (1) rescue_funds_for_order_rescues [OF ok], elim conjE, drule rescued_implements [OF wf]) simp
  show "dst_rescue_funds rt x c h l n amt L = Inr L' \<Longrightarrow> DstRescueFunds.escrow c \<notin> set (signers x) \<Longrightarrow>
      implements Unchanged (touched (DstRescueIx c h l n amt)) L L'"
    by (drule (1) dst_rescue_funds_rescues [OF ok], elim conjE, drule rescued_implements [OF wf]) simp
qed

lemma process_implements:
  assumes ok: "runtime_ok rt" and wf: "wf_ledger L" and r: "process rt x i L = Inr L'"
    and ns: "program_accounts i \<inter> set (signers x) = {}"
  shows "implements (event_of rt i L') (touched i) L L'"
proof (cases i)
  case (WhitelistIx ix)
  with r whitelist_implements [OF ok wf] show ?thesis by simp
qed (use r ns src_create_implements [OF ok wf] create_escrow_implements [OF ok wf] withdraw_implements [OF ok wf]
      public_withdraw_implements [OF ok wf] cancel_escrow_implements [OF ok wf] public_cancel_escrow_implements [OF ok wf]
      cancel_order_implements [OF ok wf] cancel_order_by_resolver_implements [OF ok wf] rescues_implement [OF ok wf]
      dst_create_implements [OF ok wf] dst_withdraw_implements [OF ok wf] dst_public_withdraw_implements [OF ok wf]
      dst_cancel_implements [OF ok wf] in simp_all)

text \<open>C5: Every instruction of the three programs that succeeds implements its event of the books:
  the event was allowed in the books before, and its effect is exactly the change of the
  programs' accounts.  So, for instance, nothing but a fill by \<open>create_escrow\<close> opens a source
  escrow, and nothing but the four claims and cancellations removes one.\<close>

theorem process_refines_books:
  assumes "runtime_ok rt" "wf_ledger L" "process rt x i L = Inr L'" "program_accounts i \<inter> set (signers x) = {}"
  shows "book_ok (event_of rt i L') (prog L) \<and> prog L' = book_apply (event_of rt i L') (prog L)"
  using process_implements [OF assms] by (simp add: implements_def)

section \<open>Conservation\<close>

definition executes :: "runtime \<Rightarrow> instruction \<Rightarrow> ledger \<Rightarrow> ledger \<Rightarrow> bool" where
  "executes rt i L L' \<longleftrightarrow> runtime_ok rt \<and> wf_ledger L
     \<and> (\<exists>x. process rt x i L = Inr L' \<and> program_accounts i \<inter> set (signers x) = {})"

lemma executes_implements: "executes rt i L L' \<Longrightarrow> implements (event_of rt i L') (touched i) L L'"
  by (auto simp: executes_def intro: process_implements)

interpretation transactions: conserving "executes rt" touched for rt
proof unfold_locales
  show "finite (touched i)" for i by (rule finite_touched)
  show "executes rt i L L' \<Longrightarrow> conserved (touched i) (lamports L) (lamports L')" for i L L'
    using executes_implements by (auto simp: implements_def)
qed

text \<open>C25: No instruction creates or destroys lamports, and none changes the balance of an account
  it does not name: rents, deposits, premiums and native assets only change hands.\<close>

theorem lamports_conserved:
  assumes "executes rt i L L'" "finite S" "touched i \<subseteq> S"
  shows "total_lamports S L' = total_lamports S L \<and> (\<forall>k. k \<notin> touched i \<longrightarrow> lamports L' k = lamports L k)"
  using transactions.total_unchanged [OF assms] transactions.untouched_unchanged [OF assms(1)] by blast

section \<open>Examples\<close>

lemma demo_withdraw_executes:
  "\<exists>L'. executes demo_runtime (WithdrawIx demo_withdraw [41]) (demo_ledger demo_escrow) L'
    \<and> process demo_runtime (demo_exec 1015) (WithdrawIx demo_withdraw [41]) (demo_ledger demo_escrow) = Inr L'"
proof -
  obtain L' where "src_withdraw demo_runtime (demo_exec 1015) demo_withdraw [41] (demo_ledger demo_escrow) = Inr L'"
    using demo_withdraw_runs by blast
  then have r: "process demo_runtime (demo_exec 1015) (WithdrawIx demo_withdraw [41]) (demo_ledger demo_escrow) = Inr L'"
    by simp
  moreover have "executes demo_runtime (WithdrawIx demo_withdraw [41]) (demo_ledger demo_escrow) L'"
    unfolding executes_def using r demo_runtime_ok demo_ledger_wf
    by (intro conjI exI [where x = "demo_exec 1015"]) simp_all
  ultimately show ?thesis by blast
qed

lemma demo_withdraw_event:
  "event_of demo_runtime (WithdrawIx demo_withdraw [41]) L' = EscrowGone demo_escrow_key"
  "touched (WithdrawIx demo_withdraw [41]) = {demo_escrow_key, 200 # demo_escrow_key @ [6], [12], [200, 12, 6]}"
  by (simp_all add: demo_withdraw_def)

theorem process_refines_books_witness:
  "\<exists>L'. process demo_runtime (demo_exec 1015) (WithdrawIx demo_withdraw [41]) (demo_ledger demo_escrow) = Inr L'
    \<and> prog L' = (prog (demo_ledger demo_escrow))(demo_escrow_key := None)"
proof -
  obtain L' where r: "process demo_runtime (demo_exec 1015) (WithdrawIx demo_withdraw [41]) (demo_ledger demo_escrow) = Inr L'"
    using demo_withdraw_executes by blast
  have n: "program_accounts (WithdrawIx demo_withdraw [41]) \<inter> set (signers (demo_exec 1015)) = {}" by simp
  from process_refines_books [OF demo_runtime_ok demo_ledger_wf r n] r show ?thesis
    unfolding demo_withdraw_event(1) by (intro exI [where x = L']) simp
qed

theorem lamports_conserved_witness:
  "\<exists>L'. process demo_runtime (demo_exec 1015) (WithdrawIx demo_withdraw [41]) (demo_ledger demo_escrow) = Inr L'
    \<and> total_lamports {demo_escrow_key, 200 # demo_escrow_key @ [6], [12], [200, 12, 6]} L' = 4000"
proof -
  obtain L' where r: "process demo_runtime (demo_exec 1015) (WithdrawIx demo_withdraw [41]) (demo_ledger demo_escrow) = Inr L'"
    and e: "executes demo_runtime (WithdrawIx demo_withdraw [41]) (demo_ledger demo_escrow) L'"
    using demo_withdraw_executes by blast
  have "total_lamports {demo_escrow_key, 200 # demo_escrow_key @ [6], [12], [200, 12, 6]} (demo_ledger demo_escrow) = 4000"
    by (simp add: total_lamports_def demo_balances demo_keys)
  with lamports_conserved [OF e finite_touched order_refl] r show ?thesis
    unfolding demo_withdraw_event(2) by auto
qed

end
