(* ===== verification/Reserves.thy ===== *)
theory Reserves
  imports System
begin

text \<open>
  The lamports of the programs' own accounts.  The safety deposit of an escrow is not a field
  that is paid in: it is part of the rent its account holds.  Here it is shown that no
  instruction takes lamports from an account of the programs that it does not end, so what an
  escrow was opened with stays there until it is paid out; from that, that every open escrow
  can pay its safety deposit.
\<close>

section \<open>Sparing reserved accounts\<close>

definition reserved :: "ledger \<Rightarrow> pubkey \<Rightarrow> bool" where
  "reserved L k \<longleftrightarrow> prog L k \<noteq> None \<and> tok L k = None"

text \<open>\<open>spares D L L'\<close>: outside \<open>D\<close>, the accounts of the programs stay and lose no lamports.\<close>

definition spares :: "pubkey set \<Rightarrow> ledger \<Rightarrow> ledger \<Rightarrow> bool" where
  "spares D L L' \<longleftrightarrow> (\<forall>k. reserved L k \<and> k \<notin> D \<longrightarrow> reserved L' k \<and> lamports L k \<le> lamports L' k)"

lemma spares_refl [simp]: "spares D L L"
  by (simp add: spares_def)

lemma spares_trans [trans]: "spares D L L1 \<Longrightarrow> spares D L1 L2 \<Longrightarrow> spares D L L2"
  unfolding spares_def by (meson le_trans)

lemma spares_mono: "spares D L L' \<Longrightarrow> D \<subseteq> D' \<Longrightarrow> spares D' L L'"
  unfolding spares_def by blast

lemma sparesD: "spares D L L' \<Longrightarrow> reserved L k \<Longrightarrow> k \<notin> D \<Longrightarrow> lamports L k \<le> lamports L' k"
  by (simp add: spares_def)

text \<open>Lamports that leave an account which is not reserved, or which is being ended.\<close>

lemma spares_shifted:
  assumes "shifted f t a (lamports L) (lamports L')" "\<not> reserved L f \<or> f \<in> D"
    and "\<And>k. reserved L k \<Longrightarrow> k \<notin> D \<Longrightarrow> reserved L' k"
  shows "spares D L L'"
  using assms unfolding spares_def shifted_def by (auto split: if_splits)

lemma reserved_cong: "prog L' = prog L \<Longrightarrow> statics L' = statics L \<Longrightarrow> reserved L' k = reserved L k"
  by (simp add: reserved_def flip: statics_None_iff)

lemma spares_same: "prog L' = prog L \<Longrightarrow> statics L' = statics L \<Longrightarrow> lamports L' = lamports L \<Longrightarrow> spares D L L'"
  using reserved_cong [of L' L] unfolding spares_def by (metis order_refl)

lemma spares_set_data [simp]: "spares D L (set_data k d L)"
  by (auto simp: spares_def reserved_def lamports_def)

section \<open>Calls\<close>

lemma spares_system_transfer:
  assumes ok: "runtime_ok rt" and r: "system_transfer rt sg f t a L = Inr L'"
  shows "spares D L L'"
proof -
  note e = system_transfer_effect [OF runtime_okD(1) [OF ok r]]
  show ?thesis by (rule spares_shifted [OF e(3)]) (use e in \<open>auto simp: reserved_def no_data_def\<close>)
qed

lemma spares_transfer_checked:
  assumes ok: "runtime_ok rt" and r: "transfer_checked rt sg p f m t au a d L = Inr L'"
  shows "spares D L L'"
proof -
  note e = transfer_checked_effect [OF runtime_okD(2) [OF ok r]]
  from e(6) obtain tf where tf: "tok L f = Some tf" and
    l: "if ta_native tf = None then lamports L' = lamports L else shifted f t (unat a) (lamports L) (lamports L')"
    by blast
  from l have s: "shifted f t (if ta_native tf = None then 0 else unat a) (lamports L) (lamports L')"
    by (simp split: if_splits)
  show ?thesis
    by (rule spares_shifted [OF s]) (use tf reserved_cong [OF e(5,3)] in \<open>auto simp: reserved_def\<close>)
qed

lemma spares_uni_transfer: "runtime_ok rt \<Longrightarrow> uni_transfer rt x q s L = Inr L' \<Longrightarrow> spares D L L'"
  by (cases q) (auto split: if_splits intro: spares_system_transfer spares_transfer_checked)

lemma spares_close_token:
  assumes ok: "runtime_ok rt" and r: "close_token_account rt sg p k d au L = Inr L'"
  shows "spares D L L'"
proof -
  note e = close_token_account_effect [OF runtime_okD(3) [OF ok r]]
  show ?thesis by (rule spares_shifted [OF e(4)]) (use e in \<open>auto simp: reserved_def\<close>)
qed

lemma spares_sync:
  assumes ok: "runtime_ok rt" and r: "sync_native rt p k L = Inr L'"
  shows "spares D L L'"
proof -
  note e = sync_native_effect [OF runtime_okD(4) [OF ok r]]
  show ?thesis by (rule spares_same [OF e(3,4) lamports_cong [OF e(1)]])
qed

lemma spares_top_up: "top_up sg pay key r L = Inr L' \<Longrightarrow> spares D L L'"
proof (cases "lam L key < r")
  case True
  assume "top_up sg pay key r L = Inr L'"
  with True have "spec_system_transfer sg pay key (r - lam L key) L = Inr L'"
    by (simp add: top_up_def require_Inr_iff)
  note e = system_transfer_effect [OF this]
  show ?thesis by (rule spares_shifted [OF e(3)]) (use e in \<open>auto simp: reserved_def no_data_def\<close>)
qed (simp add: top_up_def require_Inr_iff)

lemma spares_init_data:
  assumes ok: "runtime_ok rt" and r: "init_data rt x pay key n p d L = Inr L'"
  shows "spares D L L'"
proof -
  from r obtain L1 where 1: "init_account rt (signers x) pay key n p L = Inr L1" and L': "L' = set_data key d L1"
    by (auto simp: init_data_def bindE_Inr_iff)
  have "spares D L L1"
    using runtime_okD(6) [OF ok 1] by (auto simp: spec_init_account_def intro: spares_top_up)
  then show ?thesis unfolding L' by (rule spares_trans) simp
qed

lemma spares_init_associated:
  assumes ok: "runtime_ok rt" and r: "init_associated_token rt sg pay key w m p L = Inr L'"
  shows "spares D L L'"
proof -
  note s = runtime_okD(5) [OF ok r]
  from s obtain L1 where L1: "top_up sg pay key (token_account_rent rt p) L = Inr L1"
    by (auto simp: spec_init_associated_token_def bindE_Inr_iff)
  have l: "lamports L' = lamports L1"
    using s L1 by (auto simp: spec_init_associated_token_def bindE_Inr_iff intro: lamports_cong)
  have "no_data L key" "prog L' = prog L" "\<forall>k. k \<noteq> key \<longrightarrow> tok L' k = tok L k"
    using init_associated_token_effect [OF s] by auto
  then show ?thesis
    using spares_top_up [OF L1, of D] l unfolding spares_def reserved_def no_data_def by metis
qed

lemma spares_init_ata:
  "runtime_ok rt \<Longrightarrow> init_if_needed_ata rt x key pay m au p L = Inr (L', ta) \<Longrightarrow> spares D L L'"
  by (auto simp: init_if_needed_ata_def res_simps split: if_splits intro: spares_init_associated)

lemma spares_init_ata_opt:
  "runtime_ok rt \<Longrightarrow> init_if_needed_ata_opt rt x ko pay m au p L = Inr (L', ta) \<Longrightarrow> spares D L L'"
  by (auto simp: init_if_needed_ata_opt_def res_simps split: option.splits intro: spares_init_ata)

lemma spares_close_program:
  assumes ok: "runtime_ok rt" and r: "close_program_account rt k d L = Inr L'" and k: "k \<in> D"
  shows "spares D L L'"
proof -
  note e = close_program_account_effect [OF runtime_okD(7) [OF ok r]]
  show ?thesis by (rule spares_shifted [OF e(2)]) (use e k in \<open>auto simp: reserved_def\<close>)
qed

lemma spares_sub_add:
  assumes ok: "runtime_ok rt"
    and r: "sub_lamports rt f a L = Inr L1" "add_lamports rt t a L1 = Inr L'" and f: "f \<in> D"
  shows "spares D L L'"
proof -
  note e = sub_add_lamports_effect [OF runtime_okD(8) [OF ok r(1)] runtime_okD(9) [OF ok r(2)]]
  show ?thesis by (rule spares_shifted [OF e(1)]) (use e f in \<open>auto simp: reserved_def\<close>)
qed

lemmas spares_calls = spares_uni_transfer spares_close_token spares_sync spares_init_data spares_init_ata
  spares_init_ata_opt spares_close_program spares_sub_add

lemma spares_payout:
  assumes ok: "runtime_ok rt" and r: "payout_and_close rt x m native amt es ea rc ra rr seeds p sdr sd L = Inr L'"
  shows "spares {es} L L'"
proof -
  from r obtain L1 L2 where
    p: "process_payout rt x m native amt es ea rc ra rr seeds p L = Inr L1" and
    d: "pay_safety_deposit rt es rr sdr sd L1 = Inr L2" and c: "close_program_account rt es rr L2 = Inr L'"
    by (auto simp: payout_and_close_def bindE_Inr_iff)
  have "spares {es} L L1"
    using p by (cases native) (auto simp: process_payout_def withdraw_and_close_token_ata_def res_simps
        simp del: uni_transfer.simps
        intro: spares_trans [OF spares_close_token [OF ok] spares_sub_add [OF ok]]
          spares_trans [OF spares_uni_transfer [OF ok] spares_close_token [OF ok]])
  also have "spares {es} L1 L2"
    using d by (auto simp: pay_safety_deposit_def bindE_Inr_iff split: if_splits intro: spares_sub_add [OF ok])
  also have "spares {es} L2 L'" by (rule spares_close_program [OF ok c]) simp
  finally show ?thesis .
qed

lemma spares_rescue:
  "runtime_ok rt \<Longrightarrow> rescue_funds rt x es st ea rc ra m p amt seeds L = Inr L' \<Longrightarrow> spares D L L'"
  by (auto simp: rescue_funds_def res_simps simp del: uni_transfer.simps split: if_splits
      intro: spares_uni_transfer spares_trans [OF spares_uni_transfer spares_close_token])

lemma spares_settled:
  assumes s: "settled L L' es ea tk lm" and ea: "tok L ea \<noteq> None"
  shows "spares {es} L L'"
proof -
  have l: "lamports L' = settle (lamports L) [es, ea] lm" and p: "prog L' = (prog L)(es := None)"
    and t: "statics L' = (statics L)(ea := None)" using s by (simp_all add: settled_def)
  have "reserved L' k \<and> lamports L k \<le> lamports L' k" if k: "reserved L k" "k \<noteq> es" for k
  proof -
    have "k \<noteq> ea" using k(1) ea by (auto simp: reserved_def)
    moreover have "tok L' k = None" using k t by (simp add: reserved_def flip: statics_None_iff)
    ultimately show ?thesis using k l p by (simp add: reserved_def settle_def)
  qed
  then show ?thesis by (simp add: spares_def)
qed

section \<open>Instructions\<close>

text \<open>The accounts of the programs an event ends, or may end.\<close>

fun ended :: "event \<Rightarrow> pubkey set" where
  "ended (Filled k j e i) = {k}"
| "ended (OrderGone k) = {k}"
| "ended (EscrowGone k) = {k}"
| "ended (DstGone k) = {k}"
| "ended (Dismissed k) = {k}"
| "ended _ = {}"

lemma spares_whitelist:
  assumes ok: "runtime_ok rt" and r: "whitelist_process rt x ix L = Inr L'"
  shows "spares (ended (event_of rt (WhitelistIx ix) L')) L L'"
proof (cases ix)
  case (Initialize_ix a)
  with r show ?thesis
    by (auto simp: initialize_def Initialize_accounts_def res_simps
        intro: spares_trans [OF spares_init_data [OF ok] spares_set_data])
next
  case (Register_ix a user client)
  with r show ?thesis
    by (auto simp: register_def Register_accounts_def res_simps
        intro: spares_trans [OF spares_init_data [OF ok] spares_set_data])
next
  case (Deregister_ix a user client)
  with r show ?thesis by (auto simp: deregister_def res_simps intro: spares_close_program [OF ok])
next
  case (SetAuthority_ix a new)
  with r show ?thesis by (auto simp: set_authority_def res_simps)
qed

lemma spares_src_create:
  assumes ok: "runtime_ok rt" and r: "src_create rt x a args dst L = Inr L'"
  shows "spares D L L'"
proof -
  from r obtain L1 m ca oa bump L2 where
    ac: "SrcCreate_accounts rt x a args L = Inr (L1, m, ca, oa, bump)" and
    dp: "deposit_order_funds rt x a (oa_asset_is_native args) (oa_amount args) m ca L1 = Inr L2" and
    L': "L' = set_data (SrcCreate.order a)
       (OrderAcc (new_order rt x (SrcCreate.creator a) (SrcCreate.mint a) args bump)) L2"
    by (rule src_create_Inr)
  have "spares D L L1"
    using ac by (auto simp: SrcCreate_accounts_def bindE_Inr_iff
        intro: spares_trans [OF spares_init_data [OF ok] spares_init_ata [OF ok]])
  also have "spares D L1 L2"
    using dp by (auto simp: deposit_order_funds_def bindE_Inr_iff simp del: uni_transfer.simps split: if_splits
        intro: spares_uni_transfer [OF ok] spares_trans [OF spares_uni_transfer [OF ok] spares_sync [OF ok]])
  also have "spares D L2 L'" by (simp add: L')
  finally show ?thesis .
qed

lemma spares_create_escrow:
  assumes ok: "runtime_ok rt" and r: "create_escrow rt x a amount mp auction L = Inr L'"
  shows "spares {CreateEscrow.order a} L L'"
  using r
proof (rule create_escrow_Inr)
  fix L1 m ord oa bump L2 hashlock dst
  let ?D = "{CreateEscrow.order a}"
    and ?L3 = "set_data (CreateEscrow.escrow a)
         (EscrowSrcAcc (new_escrow x ord (CreateEscrow.taker a) amount hashlock dst bump)) L2"
  assume ac: "CreateEscrow_accounts rt x a amount mp L = Inr (L1, m, ord, oa, bump)"
    and u: "uni_transfer rt x
       (TokenTransfer (CreateEscrow.order_ata a) (CreateEscrow.order a) (CreateEscrow.escrow_ata a) m
          (if o_remaining_amount ord = amount then ta_amount (snd oa) else amount) (CreateEscrow.token_program a))
       (Some [order_signer_seeds ord]) L1 = Inr L2"
    and c: "close_or_reduce rt x a ord amount ?L3 = Inr L'"
  have "spares ?D L L1"
    using ac by (auto simp: CreateEscrow_accounts_def bindE_Inr_iff
        intro: spares_trans [OF spares_init_data [OF ok] spares_init_ata [OF ok]])
  also have "spares ?D L1 L2" by (rule spares_uni_transfer [OF ok u])
  also have "spares ?D L2 ?L3" by simp
  also have "spares ?D ?L3 L'"
    using c by (auto simp: close_or_reduce_def bindE_Inr_iff split: if_splits
        intro: spares_trans [OF spares_close_token [OF ok] spares_close_program [OF ok]])
  finally show ?thesis .
qed

lemma spares_dst_create:
  assumes ok: "runtime_ok rt" and r: "dst_create rt x a args L = Inr L'"
  shows "spares D L L'"
proof -
  from r obtain L1 m ca ea bump L2 e where
    ac: "DstCreate_accounts rt x a args L = Inr (L1, m, ca, ea, bump)" and
    dp: "dst_deposit rt x a (da_asset_is_native args) (da_amount args) m ca L1 = Inr L2" and
    L': "L' = set_data (DstCreate.escrow a) (EscrowDstAcc e) L2"
    by (auto simp: dst_create_def Let_def bindE_Inr_iff require_Inr_iff split: prod.splits)
  have "spares D L L1"
    using ac by (auto simp: DstCreate_accounts_def bindE_Inr_iff
        intro: spares_trans [OF spares_init_data [OF ok] spares_init_ata [OF ok]])
  also have "spares D L1 L2"
    using dp by (auto simp: dst_deposit_def bindE_Inr_iff simp del: uni_transfer.simps split: if_splits
        intro: spares_uni_transfer [OF ok])
  also have "spares D L2 L'" by (simp add: L')
  finally show ?thesis .
qed

lemma spares_dst_withdraw:
  assumes ok: "runtime_ok rt" and r: "dst_withdraw rt x a secret L = Inr L'"
  shows "spares {DstWithdraw.escrow a} L L'"
proof -
  from r obtain L1 ld where ld: "DstWithdraw_accounts rt x a L = Inr (L1, ld)" and
    p: "bindE (dst_utils_withdraw rt x (DstWithdraw.escrow a, ld_state ld) (ed_bump (ld_state ld)) (ld_ata ld)
       (DstWithdraw.recipient a) (ld_dest ld) (ld_mint ld) (DstWithdraw.token_program a) (DstWithdraw.creator a)
       (DstWithdraw.creator a) secret L1)
       (\<lambda>L2. close_program_account rt (DstWithdraw.escrow a) (DstWithdraw.creator a) L2) = Inr L'"
    by (auto simp: dst_withdraw_def Let_def bindE_Inr_iff require_Inr_iff split: prod.splits)
  have "spares {DstWithdraw.escrow a} L L1"
    using ld by (auto simp: DstWithdraw_accounts_def bindE_Inr_iff intro: spares_init_ata_opt [OF ok])
  also have "spares {DstWithdraw.escrow a} L1 L'"
    using p unfolding dst_utils_withdraw_close by (auto simp: require_Inr_iff intro: spares_payout [OF ok])
  finally show ?thesis .
qed

lemma spares_dst_public_withdraw:
  assumes ok: "runtime_ok rt" and r: "dst_public_withdraw rt x a secret L = Inr L'"
  shows "spares {DstPublicWithdraw.escrow a} L L'"
proof -
  from r obtain L1 ld where ld: "DstPublicWithdraw_accounts rt x a L = Inr (L1, ld)" and
    p: "bindE (dst_utils_withdraw rt x (DstPublicWithdraw.escrow a, ld_state ld) (ed_bump (ld_state ld)) (ld_ata ld)
       (DstPublicWithdraw.recipient a) (ld_dest ld) (ld_mint ld) (DstPublicWithdraw.token_program a)
       (DstPublicWithdraw.creator a) (DstPublicWithdraw.payer a) secret L1)
       (\<lambda>L2. close_program_account rt (DstPublicWithdraw.escrow a) (DstPublicWithdraw.creator a) L2) = Inr L'"
    by (auto simp: dst_public_withdraw_def Let_def bindE_Inr_iff require_Inr_iff split: prod.splits)
  have "spares {DstPublicWithdraw.escrow a} L L1"
    using ld by (auto simp: DstPublicWithdraw_accounts_def bindE_Inr_iff intro: spares_init_ata_opt [OF ok])
  also have "spares {DstPublicWithdraw.escrow a} L1 L'"
    using p unfolding dst_utils_withdraw_close by (auto simp: require_Inr_iff intro: spares_payout [OF ok])
  finally show ?thesis .
qed

lemma spares_claims:
  assumes ok: "runtime_ok rt"
  shows "src_withdraw rt x a secret L = Inr L' \<Longrightarrow> spares {SrcWithdraw.escrow a} L L'"
    and "src_public_withdraw rt x b secret L = Inr L' \<Longrightarrow> spares {SrcPublicWithdraw.escrow b} L L'"
    and "cancel_escrow rt x c L = Inr L' \<Longrightarrow> spares {CancelEscrow.escrow c} L L'"
    and "public_cancel_escrow rt x d L = Inr L' \<Longrightarrow> spares {PublicCancelEscrow.escrow d} L L'"
    and "dst_cancel rt x f L = Inr L' \<Longrightarrow> spares {DstCancel.escrow f} L L'"
proof -
  show "src_withdraw rt x a secret L = Inr L' \<Longrightarrow> spares {SrcWithdraw.escrow a} L L'"
    by (erule src_withdraw_Inr, erule spares_payout [OF ok])
  show "src_public_withdraw rt x b secret L = Inr L' \<Longrightarrow> spares {SrcPublicWithdraw.escrow b} L L'"
    by (erule src_public_withdraw_Inr, erule spares_payout [OF ok])
  show "cancel_escrow rt x c L = Inr L' \<Longrightarrow> spares {CancelEscrow.escrow c} L L'"
    by (erule cancel_escrow_Inr, erule spares_payout [OF ok])
  show "public_cancel_escrow rt x d L = Inr L' \<Longrightarrow> spares {PublicCancelEscrow.escrow d} L L'"
    by (erule public_cancel_escrow_Inr, erule spares_payout [OF ok])
  show "dst_cancel rt x f L = Inr L' \<Longrightarrow> spares {DstCancel.escrow f} L L'"
    by (erule dst_cancel_Inr, erule spares_payout [OF ok])
qed

lemma spares_order_cancels:
  assumes ok: "runtime_ok rt" and wf: "wf_ledger L"
  shows "cancel_order rt x a L = Inr L' \<Longrightarrow> spares {CancelOrder.order a} L L'"
    and "cancel_order_by_resolver rt x b limit L = Inr L' \<Longrightarrow> CancelOrderbyResolver.order b \<notin> set (signers x) \<Longrightarrow>
      spares {CancelOrderbyResolver.order b} L L'"
proof -
  assume r: "cancel_order rt x a L = Inr L'"
  have "tok L (CancelOrder.order_ata a) \<noteq> None"
    using r by (auto simp: cancel_order_def CancelOrder_accounts_def res_simps)
  with cancel_order_settles [OF ok wf r] show "spares {CancelOrder.order a} L L'"
    by (elim exE conjE) (rule spares_settled)
next
  assume r: "cancel_order_by_resolver rt x b limit L = Inr L'" and n: "CancelOrderbyResolver.order b \<notin> set (signers x)"
  have "tok L (CancelOrderbyResolver.order_ata b) \<noteq> None"
    using r by (auto simp: cancel_order_by_resolver_def CancelOrderbyResolver_accounts_def res_simps)
  with cancel_order_by_resolver_settles [OF ok wf r n] show "spares {CancelOrderbyResolver.order b} L L'"
    by (elim exE conjE) (rule spares_settled)
qed

lemma spares_rescues:
  assumes ok: "runtime_ok rt"
  shows "rescue_funds_for_escrow rt x a h l n amt L = Inr L' \<Longrightarrow> spares D L L'"
    and "rescue_funds_for_order rt x b who token args amt L = Inr L' \<Longrightarrow> spares D L L'"
    and "dst_rescue_funds rt x c h l n amt L = Inr L' \<Longrightarrow> spares D L L'"
  by (auto simp: rescue_funds_for_escrow_def rescue_funds_for_order_def dst_rescue_funds_def Let_def bindE_Inr_iff
      split: prod.splits intro: spares_rescue [OF ok])

lemma process_spares:
  assumes ok: "runtime_ok rt" and wf: "wf_ledger L" and r: "process rt x i L = Inr L'"
    and ns: "program_accounts i \<inter> set (signers x) = {}"
  shows "spares (ended (event_of rt i L')) L L'"
proof (cases i)
  case (WhitelistIx ix)
  with r spares_whitelist [OF ok] show ?thesis by simp
qed (use r ns spares_src_create [OF ok] spares_create_escrow [OF ok] spares_claims [OF ok]
      spares_order_cancels [OF ok wf] spares_rescues [OF ok] spares_dst_create [OF ok] spares_dst_withdraw [OF ok]
      spares_dst_public_withdraw [OF ok] in simp_all)

section \<open>Solvency\<close>

text \<open>An order promises its escrows a deposit within the rent of an escrow account; an open escrow
  holds at least its deposit.\<close>

fun covers :: "runtime \<Rightarrow> ProgramData \<Rightarrow> nat \<Rightarrow> bool" where
  "covers rt (OrderAcc ord) b \<longleftrightarrow>
     o_safety_deposit ord \<le> minimum_balance rt (DISCRIMINATOR_BYTES + EscrowSrc_INIT_SPACE)"
| "covers rt (EscrowSrcAcc e) b \<longleftrightarrow> unat (es_safety_deposit e) \<le> b"
| "covers rt (EscrowDstAcc e) b \<longleftrightarrow> unat (ed_safety_deposit e) \<le> b"
| "covers rt _ b \<longleftrightarrow> True"

definition solvent :: "runtime \<Rightarrow> ledger \<Rightarrow> bool" where
  "solvent rt L \<longleftrightarrow> (\<forall>k d. prog L k = Some d \<longrightarrow> covers rt d (lamports L k))"

lemma solventD: "solvent rt L \<Longrightarrow> prog L k = Some d \<Longrightarrow> covers rt d (lamports L k)"
  by (simp add: solvent_def)

lemma covers_mono: "covers rt d b \<Longrightarrow> b \<le> b' \<Longrightarrow> covers rt d b'"
  by (cases d) simp_all

text \<open>What an event has to bring along when it opens an account.\<close>

fun opens_covered :: "runtime \<Rightarrow> event \<Rightarrow> ledger \<Rightarrow> bool" where
  "opens_covered rt (Placed k ord) L' \<longleftrightarrow> covers rt (OrderAcc ord) 0"
| "opens_covered rt (Filled k j e i) L' \<longleftrightarrow>
     unat (minimum_balance rt (DISCRIMINATOR_BYTES + EscrowSrc_INIT_SPACE)) \<le> lamports L' j"
| "opens_covered rt (DstOpened k e) L' \<longleftrightarrow> unat (ed_safety_deposit e) \<le> lamports L' k"
| "opens_covered rt _ L' \<longleftrightarrow> True"

text \<open>An account that is there after an event is new, is the order of a fill, or was there before.\<close>

lemma book_apply_kept:
  assumes "book_ok ev B" "book_apply ev B k = Some d" "k \<notin> ended ev"
  shows "B k = Some d \<or> (\<exists>ord. ev = Placed k ord \<and> d = OrderAcc ord)
    \<or> (\<exists>j e i ord. ev = Filled j k e i \<and> d = EscrowSrcAcc e \<and> B j = Some (OrderAcc ord) \<and> escrow_of ord e)
    \<or> (\<exists>e. ev = DstOpened k e \<and> d = EscrowDstAcc e) \<or> (\<exists>w. d = WhitelistAcc w) \<or> (\<exists>r. d = ResolverAcc r)"
  using assms by (cases ev) (auto split: option.splits ProgramData.splits if_splits)

lemma book_apply_ended:
  assumes "book_ok ev B" "book_apply ev B k = Some d" "k \<in> ended ev"
  obtains ord where "B k = Some (OrderAcc ord)" "\<exists>r. d = OrderAcc (ord\<lparr>o_remaining_amount := r\<rparr>)"
proof (cases ev)
  case (Filled j l e i)
  with assms have k: "j = k" by simp
  with assms Filled have b: "book_ok (Filled k l e i) B" by simp
  then show ?thesis
  proof (rule book_ok_FilledE)
    fix ord
    assume o: "B k = Some (OrderAcc ord)"
      and a: "book_apply (Filled k l e i) B = B(l \<mapsto> EscrowSrcAcc e, k := order_after ord (es_amount e))"
    have "order_after ord (es_amount e) = Some d" using assms(2) Filled k a by simp
    then have "d = OrderAcc (ord\<lparr>o_remaining_amount := o_remaining_amount ord - es_amount e\<rparr>)"
      by (simp add: order_after_def split: if_splits)
    then show thesis by (intro that [OF o]) blast
  qed
qed (use assms in auto)

lemma solvent_step:
  assumes s: "solvent rt L" and wf: "wf_ledger L" and ok: "book_ok ev (prog L)"
    and p: "prog L' = book_apply ev (prog L)" and sp: "spares (ended ev) L L'" and n: "opens_covered rt ev L'"
  shows "solvent rt L'"
  unfolding solvent_def
proof (intro allI impI)
  fix k d
  assume d: "prog L' k = Some d"
  show "covers rt d (lamports L' k)"
  proof (cases "k \<in> ended ev")
    case True
    with ok d p obtain ord where "prog L k = Some (OrderAcc ord)" "\<exists>r. d = OrderAcc (ord\<lparr>o_remaining_amount := r\<rparr>)"
      using book_apply_ended [of ev "prog L" k d] by metis
    with solventD [OF s] show ?thesis by fastforce
  next
    case False
    from book_apply_kept [OF ok d [unfolded p] False] show ?thesis
    proof (elim disjE exE conjE)
      assume o: "prog L k = Some d"
      have "reserved L k" using o wf_ledgerD(1) [OF wf o] by (simp add: reserved_def)
      from sparesD [OF sp this False] solventD [OF s o] show ?thesis by (rule covers_mono [rotated])
    next
      fix j e i ord
      assume "ev = Filled j k e i" "d = EscrowSrcAcc e" "prog L j = Some (OrderAcc ord)" "escrow_of ord e"
      with n solventD [OF s, of j] show ?thesis by (simp add: escrow_of_def word_le_nat_alt)
    qed (use n in auto)
  qed
qed

lemma process_opens_covered:
  assumes ok: "runtime_ok rt" and wf: "wf_ledger L" and r: "process rt x i L = Inr L'"
    and ns: "program_accounts i \<inter> set (signers x) = {}"
  shows "opens_covered rt (event_of rt i L') L'"
proof (cases i)
  case (WhitelistIx ix)
  then show ?thesis by (cases ix) simp_all
next
  case (CreateIx a args dst)
  with r ns have r: "src_create rt x a args dst L = Inr L'" and n: "SrcCreate.order a \<notin> set (signers x)" by simp_all
  from ok r n show ?thesis
    by (rule src_create_frame) (simp add: CreateIx order_at_def order_args_ok_def new_order_def add.commute)
next
  case (CreateEscrowIx a amount mp auction)
  with r ns have r: "create_escrow rt x a amount mp auction L = Inr L'" and n: "CreateEscrow.escrow a \<notin> set (signers x)"
    by simp_all
  from ok wf r n show ?thesis by (rule create_escrow_effect) (simp add: CreateEscrowIx)
next
  case (DstCreateIx a args)
  with r ns have r: "dst_create rt x a args L = Inr L'" and n: "DstCreate.escrow a \<notin> set (signers x)"
    "DstCreate.escrow_ata a \<notin> set (signers x)" by simp_all
  from ok r n show ?thesis
    by (rule dst_create_effect) (simp add: DstCreateIx dst_escrow_at_def opened_dst_escrow_def new_dst_escrow_def)
qed simp_all

lemma executes_solvent:
  assumes "executes rt i L L'" "solvent rt L"
  shows "solvent rt L'"
proof -
  from assms(1) obtain x where e: "runtime_ok rt" "wf_ledger L" "process rt x i L = Inr L'"
    "program_accounts i \<inter> set (signers x) = {}" unfolding executes_def by blast
  have i: "book_ok (event_of rt i L') (prog L)" "prog L' = book_apply (event_of rt i L') (prog L)"
    using executes_implements [OF assms(1)] by (simp_all add: implements_def)
  show ?thesis by (rule solvent_step [OF assms(2) e(2) i process_spares [OF e] process_opens_covered [OF e]])
qed

end
