(* ===== verification/Runs.thy ===== *)
theory Runs
  imports Reserves
begin

text \<open>
  Runs of the protocol: instructions of the three programs in any order, interleaved with
  whatever other programs do to balances.  The invariants of orders and escrows, the
  accounting of orders and the life of source escrows hold in every run.
\<close>

section \<open>Runs\<close>

text \<open>A run interleaves instructions with steps of other programs.  These may change balances and
  token accounts, but neither write to an account of these programs nor take lamports from one:
  on Solana only the program that owns an account can.\<close>

inductive swap_run :: "runtime \<Rightarrow> ledger \<Rightarrow> event list \<Rightarrow> ledger \<Rightarrow> bool" for rt L where
  start: "swap_run rt L [] L"
| execute: "swap_run rt L evs L1 \<Longrightarrow> executes rt i L1 L2 \<Longrightarrow> swap_run rt L (evs @ [event_of rt i L2]) L2"
| outside: "swap_run rt L evs L1 \<Longrightarrow> prog L2 = prog L1 \<Longrightarrow> wf_ledger L2
    \<Longrightarrow> (\<And>k. prog L1 k \<noteq> None \<Longrightarrow> lamports L1 k \<le> lamports L2 k) \<Longrightarrow> swap_run rt L evs L2"

lemma swap_run_books: "swap_run rt L evs L' \<Longrightarrow> books_run (prog L) evs (prog L')"
proof (induction rule: swap_run.induct)
  case (execute evs L1 i L2)
  then show ?case
    using executes_implements [OF execute.hyps(2)] unfolding books_run_snoc implements_def by blast
qed simp_all

lemma swap_run_wf: "swap_run rt L evs L' \<Longrightarrow> wf_ledger L \<Longrightarrow> wf_ledger L'"
  by (induction rule: swap_run.induct) (auto dest: executes_implements simp: implements_def)

text \<open>C3: No order is overfilled, whatever the takers do and in whatever order: from its placing on,
  the fills of an order add up to at most its amount, and with what remains to exactly its
  amount; every fill is positive, and the indices of the secrets strictly increase, so no
  secret is asked for twice.\<close>

theorem order_never_overfilled:
  assumes "swap_run rt L evs L'" "\<not> is_order (prog L k)" "history k evs = Some (ord, fs)"
  shows "filled fs \<le> unat (o_amount ord) \<and> sorted_wrt (<) (map snd fs) \<and> (\<forall>f \<in> set fs. fst f \<noteq> 0)
    \<and> (\<forall>cur. prog L' k = Some (OrderAcc cur) \<longrightarrow> cur = ord\<lparr>o_remaining_amount := o_remaining_amount cur\<rparr>
        \<and> unat (o_remaining_amount cur) + filled fs = unat (o_amount ord))"
  using order_accounting [OF swap_run_books [OF assms(1)] assms(2,3)] by blast

lemma swap_run_solvent: "swap_run rt L evs L' \<Longrightarrow> solvent rt L \<Longrightarrow> solvent rt L'"
proof (induction rule: swap_run.induct)
  case (execute evs L1 i L2)
  then show ?case by (blast intro: executes_solvent)
next
  case (outside evs L1 L2)
  then have "solvent rt L1" by blast
  then show ?case unfolding solvent_def
    using outside.hyps(2,4) by (metis covers_mono option.distinct(1))
qed

text \<open>C24: What every run keeps, from any ledger that has it (one without orders and escrows, for
  instance).  The ledger stays well-formed; an open order has something left, at most its
  amount (all of it if it takes a single fill); orders and escrows have a positive amount and
  deposit; and the deposits stay covered: every open escrow of either program holds at least its
  safety deposit, and every order promises no more than the rent of an escrow account.\<close>

theorem run_invariant:
  assumes "swap_run rt L evs L'" "wf_ledger L" "books_wf (prog L)" "solvent rt L"
  shows "wf_ledger L' \<and> books_wf (prog L')
    \<and> (\<forall>k e. prog L' k = Some (EscrowSrcAcc e) \<longrightarrow> unat (es_safety_deposit e) \<le> lamports L' k)
    \<and> (\<forall>k e. prog L' k = Some (EscrowDstAcc e) \<longrightarrow> unat (ed_safety_deposit e) \<le> lamports L' k)
    \<and> (\<forall>k ord. prog L' k = Some (OrderAcc ord) \<longrightarrow>
        o_safety_deposit ord \<le> minimum_balance rt (DISCRIMINATOR_BYTES + EscrowSrc_INIT_SPACE))"
proof -
  have "solvent rt L'" by (rule swap_run_solvent [OF assms(1,4)])
  then show ?thesis
    using swap_run_wf [OF assms(1,2)] books_wf_run [OF assms(3) swap_run_books [OF assms(1)]]
    unfolding solvent_def by fastforce
qed

section \<open>Escrows\<close>

text \<open>The escrows of one side, and the events that open and end one of them.\<close>

datatype side = Source | Destination

fun is_escrow :: "side \<Rightarrow> ProgramData option \<Rightarrow> bool" where
  "is_escrow Source x = is_src_escrow x"
| "is_escrow Destination x = is_dst_escrow x"

fun opens_escrow :: "side \<Rightarrow> event \<Rightarrow> pubkey option" where
  "opens_escrow Source (Filled k j e i) = Some j"
| "opens_escrow Destination (DstOpened k e) = Some k"
| "opens_escrow _ _ = None"

fun ends_escrow :: "side \<Rightarrow> event \<Rightarrow> pubkey option" where
  "ends_escrow Source (EscrowGone k) = Some k"
| "ends_escrow Destination (DstGone k) = Some k"
| "ends_escrow _ _ = None"

lemma escrow_event:
  assumes "book_ok ev B"
  shows "is_escrow s (book_apply ev B j) \<longleftrightarrow>
      (if opens_escrow s ev = Some j then True else if ends_escrow s ev = Some j then False else is_escrow s (B j))"
    and "opens_escrow s ev = Some k \<Longrightarrow> \<not> is_escrow s (B k) \<and> ends_escrow s ev = None"
    and "ends_escrow s ev = Some k \<Longrightarrow> is_escrow s (B k)"
  using assms by (cases s; cases ev; auto elim!: is_kindE simp: order_after_def split: option.splits ProgramData.splits)+

text \<open>Runs that open or end one escrow of a side, and touch no other of that side before.\<close>

definition quiet :: "side \<Rightarrow> event list \<Rightarrow> bool" where
  "quiet s evs \<longleftrightarrow> (\<forall>ev \<in> set evs. opens_escrow s ev = None \<and> ends_escrow s ev = None)"

lemma quiet_run: "books_run B evs B' \<Longrightarrow> quiet s evs \<Longrightarrow> is_escrow s (B' k) = is_escrow s (B k)"
proof (induction evs arbitrary: B)
  case (Cons ev evs)
  then have "is_escrow s (B' k) = is_escrow s (book_apply ev B k)" by (intro Cons.IH) (simp_all add: quiet_def)
  with Cons.prems escrow_event(1) [of ev B s k] show ?case by (simp add: quiet_def)
qed simp

definition escrow_opened :: "side \<Rightarrow> runtime \<Rightarrow> pubkey \<Rightarrow> ledger \<Rightarrow> ledger \<Rightarrow> bool" where
  "escrow_opened s rt k L L' \<longleftrightarrow> (\<exists>evs ev. quiet s evs \<and> opens_escrow s ev = Some k \<and> swap_run rt L (evs @ [ev]) L')"

definition escrow_ended :: "side \<Rightarrow> runtime \<Rightarrow> pubkey \<Rightarrow> ledger \<Rightarrow> ledger \<Rightarrow> bool" where
  "escrow_ended s rt k L L' \<longleftrightarrow> (\<exists>evs ev. quiet s evs \<and> ends_escrow s ev = Some k \<and> swap_run rt L (evs @ [ev]) L')"

definition escrow_open :: "side \<Rightarrow> ledger \<Rightarrow> pubkey \<Rightarrow> bool" where
  "escrow_open s L k \<longleftrightarrow> is_escrow s (prog L k)"

text \<open>The books between the quiet part of such a run and its last event.\<close>

lemma quiet_runE:
  assumes "quiet s evs" "swap_run rt L (evs @ [ev]) L'"
  obtains B where "\<And>j. is_escrow s (B j) = escrow_open s L j" "book_ok ev B" "prog L' = book_apply ev B"
proof -
  from swap_run_books [OF assms(2)] obtain B where
    "books_run (prog L) evs B" "book_ok ev B" "prog L' = book_apply ev B" unfolding books_run_snoc by blast
  with quiet_run [OF _ assms(1)] show ?thesis by (intro that) (simp_all add: escrow_open_def)
qed

lemma escrow_opened_mem:
  assumes "escrow_opened s rt k L L'"
  shows "\<not> escrow_open s L k" "escrow_open s L' j \<longleftrightarrow> j = k \<or> escrow_open s L j"
proof -
  from assms obtain evs ev where q: "quiet s evs" "swap_run rt L (evs @ [ev]) L'" and o: "opens_escrow s ev = Some k"
    unfolding escrow_opened_def by blast
  obtain B where B: "\<And>j. is_escrow s (B j) = escrow_open s L j" "book_ok ev B" "prog L' = book_apply ev B"
    by (rule quiet_runE [OF q], rule that)
  show "\<not> escrow_open s L k" using escrow_event(2) [OF B(2) o] B(1) by simp
  show "escrow_open s L' j \<longleftrightarrow> j = k \<or> escrow_open s L j"
    using escrow_event(1,2) [OF B(2), of s] o B by (auto simp: escrow_open_def)
qed

lemma escrow_ended_mem:
  assumes "escrow_ended s rt k L L'"
  shows "escrow_open s L k" "escrow_open s L' j \<longleftrightarrow> j \<noteq> k \<and> escrow_open s L j"
proof -
  from assms obtain evs ev where q: "quiet s evs" "swap_run rt L (evs @ [ev]) L'" and o: "ends_escrow s ev = Some k"
    unfolding escrow_ended_def by blast
  obtain B where B: "\<And>j. is_escrow s (B j) = escrow_open s L j" "book_ok ev B" "prog L' = book_apply ev B"
    by (rule quiet_runE [OF q], rule that)
  show "escrow_open s L k" using escrow_event(3) [OF B(2) o] B(1) by simp
  have n: "opens_escrow s ev = None" using escrow_event(2) [OF B(2), of s] o by (cases "opens_escrow s ev") auto
  show "escrow_open s L' j \<longleftrightarrow> j \<noteq> k \<and> escrow_open s L j"
    using escrow_event(1) [OF B(2), of s j] n o B by (simp add: escrow_open_def)
qed

interpretation escrows: registry "escrow_open s" "escrow_opened s rt" "escrow_ended s rt" for s rt
  by unfold_locales (auto simp: escrow_opened_mem escrow_ended_mem)

text \<open>C4: An escrow pays out once, on either chain.  In every run that opens and ends escrows of one
  side, an escrow is open exactly when it was opened last, and an escrow that has been claimed
  or cancelled is not claimed or cancelled again before it has been opened again.\<close>

theorem escrow_pays_once:
  assumes "trace (escrow_opened s rt) (escrow_ended s rt) L ops L'"
  shows "escrow_open s L' k = held (escrow_open s L k) ops k
    \<and> (\<forall>ops'. ops = Revoke k # ops' @ [Revoke k] \<longrightarrow> Grant k \<in> set ops')"
  using escrows.trace_mem [OF assms] escrows.revoked_twice assms by blast

section \<open>Examples\<close>

lemma demo_withdraw_run:
  "\<exists>L'. swap_run demo_runtime (demo_ledger demo_escrow) [EscrowGone demo_escrow_key] L'"
proof -
  obtain L' where e: "executes demo_runtime (WithdrawIx demo_withdraw [41]) (demo_ledger demo_escrow) L'"
    using demo_withdraw_executes by blast
  from swap_run.execute [OF swap_run.start e] show ?thesis unfolding demo_withdraw_event(1) by auto
qed

theorem escrow_pays_once_witness:
  "\<exists>L'. trace (escrow_opened Source demo_runtime) (escrow_ended Source demo_runtime) (demo_ledger demo_escrow)
      [Revoke demo_escrow_key] L'
    \<and> escrow_open Source (demo_ledger demo_escrow) demo_escrow_key \<and> \<not> escrow_open Source L' demo_escrow_key"
proof -
  obtain L' where r: "swap_run demo_runtime (demo_ledger demo_escrow) [EscrowGone demo_escrow_key] L'"
    using demo_withdraw_run by blast
  have "escrow_ended Source demo_runtime demo_escrow_key (demo_ledger demo_escrow) L'"
    unfolding escrow_ended_def by (rule exI [where x = "[]"], rule exI [where x = "EscrowGone demo_escrow_key"]) (simp add: quiet_def r)
  then have t: "trace (escrow_opened Source demo_runtime) (escrow_ended Source demo_runtime) (demo_ledger demo_escrow)
      [Revoke demo_escrow_key] L'" by simp
  have "escrow_open Source (demo_ledger demo_escrow) demo_escrow_key" by (simp add: escrow_open_def demo_balances)
  with escrow_pays_once [OF t] t show ?thesis by (intro exI [where x = L']) simp
qed

text \<open>A run that places an order and fills it.  The hash keeps one byte, so keys stay short.\<close>

definition run_runtime :: runtime where
  "run_runtime = demo_runtime\<lparr>keccak := take 1\<rparr>"

lemma run_runtime_ok: "runtime_ok run_runtime"
  using demo_runtime_ok
  by (simp add: run_runtime_def runtime_ok_def system_ok_def token_ok_def anchor_ok_def)

lemma run_runtime_sel:
  "keccak run_runtime = take 1"
  "create_program_address run_runtime = create_program_address demo_runtime"
  "find_program_address run_runtime = find_program_address demo_runtime"
  "associated_token_address run_runtime = associated_token_address demo_runtime"
  "minimum_balance run_runtime = minimum_balance demo_runtime"
  "native_mint run_runtime = native_mint demo_runtime"
  "system_program_id run_runtime = system_program_id demo_runtime"
  "associated_token_program_id run_runtime = associated_token_program_id demo_runtime"
  "token_program_ids run_runtime = token_program_ids demo_runtime"
  "rent_sysvar_id run_runtime = rent_sysvar_id demo_runtime"
  "transfer_checked run_runtime = transfer_checked demo_runtime"
  "close_token_account run_runtime = close_token_account demo_runtime"
  "init_account run_runtime = init_account demo_runtime"
  "init_associated_token run_runtime = init_associated_token demo_runtime"
  "close_program_account run_runtime = close_program_account demo_runtime"
  by (simp_all add: run_runtime_def)

definition run_args :: OrderArgs where
  "run_args = sample_args\<lparr>oa_hashlock := [41], oa_dutch_auction_data_hash := [100]\<rparr>"

lemma run_args_sel:
  "oa_hashlock run_args = [41]" "oa_amount run_args = 100" "oa_safety_deposit run_args = 5"
  "oa_expiration_time run_args = 1000" "oa_asset_is_native run_args = False" "oa_dst_amount run_args = (50, 0, 0, 0)"
  "oa_dutch_auction_data_hash run_args = [100]" "oa_max_cancellation_premium run_args = 3"
  "oa_allow_multiple_fills run_args = False"
  by (simp_all add: run_args_def sample_args_def)

definition run_order :: Order where
  "run_order = new_order run_runtime (demo_order_exec 500) [11] [6] run_args 255"

lemma run_hash: "get_order_hash run_runtime [11] [6] run_args = [41]"
  by (simp add: get_order_hash_def order_preimage_def hashv_def run_args_def run_runtime_sel)

lemma run_order_sel:
  "o_order_hash run_order = [41]" "o_hashlock run_order = [41]" "o_creator run_order = [11]"
  "o_token run_order = [6]" "o_amount run_order = 100" "o_remaining_amount run_order = 100"
  "o_expiration_time run_order = 1000" "o_allow_multiple_fills run_order = False"
  "o_dutch_auction_data_hash run_order = [100]" "o_bump run_order = 255" "o_dst_amount run_order = (50, 0, 0, 0)"
  by (simp_all add: run_order_def new_order_def run_hash) (simp_all add: run_args_def sample_args_def)

definition run_order_key :: pubkey where
  "run_order_key = [111, 114, 100, 101, 114, 41]"

definition run_escrow_key :: pubkey where
  "run_escrow_key = concat (escrow_seeds [41] [41] [13] 100)"

definition run_create :: SrcCreate where
  "run_create = demo_create\<lparr>SrcCreate.order := run_order_key, SrcCreate.order_ata := 200 # run_order_key @ [6]\<rparr>"

definition run_fill :: CreateEscrow where
  "run_fill = demo_fill\<lparr>CreateEscrow.order := run_order_key, CreateEscrow.order_ata := 200 # run_order_key @ [6],
     CreateEscrow.escrow := run_escrow_key, CreateEscrow.escrow_ata := 200 # run_escrow_key @ [6]\<rparr>"

definition run_start :: ledger where
  "run_start = demo_maker_ledger\<lparr>prog := [demo_resolver_key \<mapsto> ResolverAcc \<lparr>ra_bump = 255\<rparr>]\<rparr>"

lemma run_create_runs:
  "\<exists>L'. src_create run_runtime (demo_order_exec 500) run_create run_args demo_dst_params run_start = Inr L'
    \<and> lam L' run_order_key = 1000 \<and> lam L' demo_resolver_key = 1000"
  by (simp add: src_create_def SrcCreate_accounts_def run_create_def demo_create_def init_data_def init_if_needed_ata_def
      deposit_order_funds_def run_start_def demo_maker_ledger_def run_hash run_order_key_def
      demo_order_simps run_runtime_sel run_args_sel)

text \<open>The ledger some time later: the order's account has been funded, nothing else happened.\<close>

definition run_middle :: ledger where
  "run_middle = \<lparr>lam = (\<lambda>k. 1000),
     tok = [200 # run_order_key @ [6] \<mapsto> demo_order_account run_order_key 100],
     mints = [[6] \<mapsto> \<lparr>m_decimals = 9, m_program = [2]\<rparr>],
     prog = [demo_resolver_key \<mapsto> ResolverAcc \<lparr>ra_bump = 255\<rparr>, run_order_key \<mapsto> OrderAcc run_order]\<rparr>"

lemma run_escrow_key_eq: "run_escrow_key = 101 # 115 # 99 # 114 # 111 # 119 # 41 # 41 # 13 # to_be_bytes (100 :: u64)"
  by (simp add: run_escrow_key_def escrow_seeds_def ESCROW_SEED_def ascii_def)

lemma run_keys:
  "run_escrow_key \<noteq> 111 # ks" "run_escrow_key \<noteq> 200 # ks" "run_escrow_key \<noteq> [k]"
  "run_escrow_key \<noteq> demo_resolver_key" "run_escrow_key @ ls \<noteq> 111 # ks" "run_escrow_key @ ls \<noteq> [11, k]"
  by (simp_all add: run_escrow_key_eq demo_resolver_key_def src_ID_def)

lemma run_fill_runs:
  "\<exists>L'. create_escrow run_runtime (demo_order_exec 900) run_fill 100 None sample_auction run_middle = Inr L'"
proof -
  obtain r where r: "escrow_dst_amount (unix_timestamp (demo_order_exec 900)) (50, 0, 0, 0) 100 100 sample_auction = Inr r"
    using escrow_dst_amount_ok [of 100 100 "(50, 0, 0, 0)" "unix_timestamp (demo_order_exec 900)" sample_auction]
    by (auto simp: amount_of_def)
  have v: "try_to_vec sample_auction = Inr (borsh_auction sample_auction)"
    by (simp add: try_to_vec_def sample_auction_def)
  have h: "hashv (take (Suc 0)) [borsh_auction sample_auction] = [100]"
    by (simp add: hashv_def borsh_auction_def sample_auction_def to_le_bytes_def upt_rec)
  show ?thesis
    by (simp add: create_escrow_def CreateEscrow_accounts_def run_fill_def demo_fill_def init_data_def init_if_needed_ata_def
      fill_hashlock_def close_or_reduce_def get_escrow_hashlock_def run_order_sel r v h run_middle_def run_order_key_def
      run_keys run_keys [symmetric] run_escrow_key_def [symmetric] demo_order_simps run_runtime_sel)
qed

lemma run_create_step: "\<exists>L1. swap_run run_runtime run_start [Placed run_order_key run_order] L1
    \<and> prog L1 = prog run_middle \<and> lam L1 run_order_key = 1000 \<and> lam L1 demo_resolver_key = 1000"
proof -
  have k: "SrcCreate.order run_create = run_order_key" "SrcCreate.creator run_create = [11]" "SrcCreate.mint run_create = [6]"
    by (simp_all add: run_create_def demo_create_def)
  obtain L1 where r: "src_create run_runtime (demo_order_exec 500) run_create run_args demo_dst_params run_start = Inr L1"
    and l: "lam L1 run_order_key = 1000" "lam L1 demo_resolver_key = 1000"
    using run_create_runs by blast
  have n: "SrcCreate.order run_create \<notin> set (signers (demo_order_exec 500))"
    by (simp add: k run_order_key_def demo_order_exec_sel)
  obtain bump where f: "find_program_address run_runtime (order_seeds [41]) src_ID = (run_order_key, bump)" and
    p: "prog L1 = (prog run_start)(run_order_key \<mapsto> OrderAcc (new_order run_runtime (demo_order_exec 500) [11] [6] run_args bump))"
    using run_runtime_ok r n by (rule src_create_frame) (simp add: k run_hash)
  have o: "new_order run_runtime (demo_order_exec 500) [11] [6] run_args bump = run_order"
    using f by (simp add: run_runtime_sel run_order_def)
  have w: "wf_ledger run_start" by (simp add: wf_ledger_def run_start_def demo_maker_ledger_def demo_order_keys)
  have e: "executes run_runtime (CreateIx run_create run_args demo_dst_params) run_start L1"
    unfolding executes_def using r n run_runtime_ok w by (intro conjI exI [where x = "demo_order_exec 500"]) simp_all
  have ev: "event_of run_runtime (CreateIx run_create run_args demo_dst_params) L1 = Placed run_order_key run_order"
    by (simp add: k order_at_def p o)
  have "swap_run run_runtime run_start [Placed run_order_key run_order] L1"
    using swap_run.execute [OF swap_run.start e] unfolding ev by simp
  moreover have "prog L1 = prog run_middle" by (simp add: p o run_start_def run_middle_def)
  ultimately show ?thesis using l by blast
qed

lemma run_fill_step:
  "\<exists>L' e. swap_run run_runtime run_start [Placed run_order_key run_order, Filled run_order_key run_escrow_key e 0] L'
    \<and> es_amount e = 100"
proof -
  have k: "CreateEscrow.order run_fill = run_order_key" "CreateEscrow.escrow run_fill = run_escrow_key"
    by (simp_all add: run_fill_def demo_fill_def)
  obtain L1 where s1: "swap_run run_runtime run_start [Placed run_order_key run_order] L1" "prog L1 = prog run_middle"
    and l: "lam L1 run_order_key = 1000" "lam L1 demo_resolver_key = 1000"
    using run_create_step by blast
  have w: "wf_ledger run_middle"
    by (simp add: wf_ledger_def run_middle_def run_order_key_def demo_order_keys demo_order_keys [symmetric])
  have s: "swap_run run_runtime run_start [Placed run_order_key run_order] run_middle"
  proof (rule swap_run.outside [OF s1(1) s1(2) [symmetric] w])
    fix k
    assume "prog L1 k \<noteq> None"
    then have "k = run_order_key \<or> k = demo_resolver_key" using s1(2) by (auto simp: run_middle_def split: if_splits)
    then show "lamports L1 k \<le> lamports run_middle k" using l by (auto simp: lamports_def run_middle_def)
  qed
  obtain L' where r: "create_escrow run_runtime (demo_order_exec 900) run_fill 100 None sample_auction run_middle = Inr L'"
    using run_fill_runs by blast
  have e: "executes run_runtime (CreateEscrowIx run_fill 100 None sample_auction) run_middle L'"
    unfolding executes_def using r run_runtime_ok w
    by (intro conjI exI [where x = "demo_order_exec 900"]) (simp_all add: k demo_order_exec_sel run_keys)
  let ?e = "src_escrow_at L' run_escrow_key"
  have ev: "event_of run_runtime (CreateEscrowIx run_fill 100 None sample_auction) L' = Filled run_order_key run_escrow_key ?e 0"
    by (simp add: k)
  have b: "book_ok (Filled run_order_key run_escrow_key ?e 0) (prog run_middle)"
    using executes_implements [OF e] unfolding ev implements_def by blast
  have "prog run_middle run_order_key = Some (OrderAcc run_order)" by (simp add: run_middle_def)
  with b have "fill_allowed run_order (es_amount ?e) 0" by simp
  then have "es_amount ?e = 100" by (simp add: fill_allowed_def run_order_sel)
  with swap_run.execute [OF s e] ev show ?thesis by (intro exI [where x = L'] exI [where x = ?e]) simp
qed

theorem order_never_overfilled_witness:
  "\<exists>L' e. swap_run run_runtime run_start [Placed run_order_key run_order, Filled run_order_key run_escrow_key e 0] L'
    \<and> filled [(es_amount e, 0)] \<le> unat (o_amount run_order) \<and> es_amount e = 100"
proof -
  obtain L' e where s: "swap_run run_runtime run_start
      [Placed run_order_key run_order, Filled run_order_key run_escrow_key e 0] L'" and a: "es_amount e = 100"
    using run_fill_step by blast
  have n: "\<not> is_order (prog run_start run_order_key)"
    by (simp add: run_start_def run_order_key_def demo_order_keys demo_order_keys [symmetric])
  have h: "history run_order_key [Placed run_order_key run_order, Filled run_order_key run_escrow_key e 0]
      = Some (run_order, [(es_amount e, 0)])" by (simp add: history_def)
  from order_never_overfilled [OF s n h] s a show ?thesis by blast
qed

theorem run_invariant_witness:
  "\<exists>L' e. swap_run run_runtime run_start [Placed run_order_key run_order, Filled run_order_key run_escrow_key e 0] L'
    \<and> books_wf (prog L') \<and> prog L' run_escrow_key = Some (EscrowSrcAcc e)
    \<and> unat (es_safety_deposit e) \<le> lamports L' run_escrow_key"
proof -
  obtain L' e where s: "swap_run run_runtime run_start
      [Placed run_order_key run_order, Filled run_order_key run_escrow_key e 0] L'"
    using run_fill_step by blast
  have "wf_ledger run_start" "books_wf (prog run_start)" "solvent run_runtime run_start"
    by (simp_all add: wf_ledger_def books_wf_def solvent_def run_start_def demo_maker_ledger_def demo_order_keys)
  note d = run_invariant [OF s this]
  have "books_run (prog run_start) [Placed run_order_key run_order, Filled run_order_key run_escrow_key e 0] (prog L')"
    by (rule swap_run_books [OF s])
  then have "prog L' run_escrow_key = Some (EscrowSrcAcc e)" by auto
  with s d show ?thesis by blast
qed

end
