(* ===== verification/Liveness.thy ===== *)
theory Liveness
  imports Runs
begin

text \<open>
  That the instructions which settle escrows and orders succeed.  The theorems of the other
  theories say what an instruction did if it succeeded; here it is shown that a settlement
  does succeed once its accounts are in order, its time has come and, for a claim, the secret
  is the right one.  For that the calls into other
  programs are assumed not to fail without a documented reason (\<open>runtime_live\<close>), and the
  balances involved not to exceed 64 bits together (\<open>room\<close>).
\<close>

section \<open>Calls that succeed\<close>

text \<open>The converse of \<open>runtime_ok\<close>: a call whose documented conditions hold succeeds.  It excludes,
  for instance, frozen token accounts and mints whose extensions refuse transfers.\<close>

definition runtime_live :: "runtime \<Rightarrow> bool" where
  "runtime_live rt \<longleftrightarrow>
     (\<forall>sg p f m t au a d L L'. spec_transfer_checked sg p f m t au a d L = Inr L' \<longrightarrow>
        transfer_checked rt sg p f m t au a d L = Inr L') \<and>
     (\<forall>sg p k d au L L'. spec_close_token_account sg p k d au L = Inr L' \<longrightarrow>
        close_token_account rt sg p k d au L = Inr L') \<and>
     (\<forall>k d L L'. spec_close_program_account k d L = Inr L' \<longrightarrow> close_program_account rt k d L = Inr L') \<and>
     (\<forall>k a L L'. spec_sub_lamports k a L = Inr L' \<longrightarrow> sub_lamports rt k a L = Inr L') \<and>
     (\<forall>k a L L'. spec_add_lamports k a L = Inr L' \<longrightarrow> add_lamports rt k a L = Inr L')"

lemma runtime_liveD:
  assumes "runtime_live rt"
  shows "spec_transfer_checked sg p f m t au a d L = Inr L' \<Longrightarrow> transfer_checked rt sg p f m t au a d L = Inr L'"
    and "spec_close_token_account sg p k t au L = Inr L' \<Longrightarrow> close_token_account rt sg p k t au L = Inr L'"
    and "spec_close_program_account k t L = Inr L' \<Longrightarrow> close_program_account rt k t L = Inr L'"
    and "spec_sub_lamports k a L = Inr L' \<Longrightarrow> sub_lamports rt k a L = Inr L'"
    and "spec_add_lamports k a L = Inr L' \<Longrightarrow> add_lamports rt k a L = Inr L'"
  using assms unfolding runtime_live_def by auto

text \<open>The lamports of the accounts \<open>K\<close> fit into 64 bits together, so none of them can overflow by
  what the others pay it.\<close>

definition room :: "pubkey set \<Rightarrow> ledger \<Rightarrow> bool" where
  "room K L \<longleftrightarrow> finite K \<and> sum (lamports L) K < 2 ^ 64"

lemma room_conserved: "room K L \<Longrightarrow> conserved K (lamports L) (lamports L') \<Longrightarrow> room K L'"
  by (simp add: room_def conserved_def)

lemma room_shifted: "room K L \<Longrightarrow> shifted f t a (lamports L) (lamports L') \<Longrightarrow> f \<in> K \<Longrightarrow> t \<in> K \<Longrightarrow> room K L'"
  by (rule room_conserved) (auto simp: room_def intro: shifted_conserved)

lemma room_pair: "room K L \<Longrightarrow> f \<in> K \<Longrightarrow> t \<in> K \<Longrightarrow> f \<noteq> t \<Longrightarrow> lamports L f + lamports L t < 2 ^ 64"
proof -
  assume r: "room K L" and m: "f \<in> K" "t \<in> K" "f \<noteq> t"
  have "sum (lamports L) {f, t} \<le> sum (lamports L) K"
    by (rule sum_mono2) (use r m in \<open>auto simp: room_def\<close>)
  with r m show ?thesis by (simp add: room_def)
qed

lemma debit_credit_room:
  assumes "room K L" "f \<in> K" "t \<in> K" "unat a \<le> lamports L f"
  shows "unat (((lam L)(f := lam L f - a)) t) + unat a < 2 ^ 64"
proof (cases "f = t")
  case True
  have "unat (lam L f - a) + unat a = unat (lam L f)"
    using assms(4) by (simp add: unat_sub_ok lamports_def)
  also have "\<dots> < 2 ^ 64" using unat_less_2p [of "lam L f"] by simp
  finally show ?thesis using True by simp
next
  case False
  from room_pair [OF assms(1-3) False] assms(4) False show ?thesis by (simp add: lamports_def)
qed

lemma move_lamports_live:
  assumes "room K L" "f \<in> K" "t \<in> K" "unat a \<le> lamports L f"
  shows "\<exists>L'. move_lamports f t a L = Inr L'"
  using debit_credit_room [OF assms] assms(4)
  by (simp add: move_lamports_def debit_def credit_def require_def lamports_def word_le_nat_alt)

lemma close_token_live:
  assumes live: "runtime_live rt" and k: "tok L k = Some t" "ta_native t \<noteq> None \<or> ta_amount t = 0"
    and au: "au \<in> set sg" "d \<noteq> k" and K: "room K L" "k \<in> K" "d \<in> K"
  shows "\<exists>L'. close_token_account rt sg p k d au L = Inr L'"
proof -
  obtain L1 where "move_lamports k d (lam L k) L = Inr L1"
    using move_lamports_live [OF K, of "lam L k"] by (auto simp: lamports_def)
  with k au have "\<exists>L'. spec_close_token_account sg p k d au L = Inr L'"
    by (simp add: spec_close_token_account_def ok_or_def require_def)
  then show ?thesis using runtime_liveD(2) [OF live] by blast
qed

lemma close_program_live:
  assumes live: "runtime_live rt" and d: "d \<noteq> k" and K: "room K L" "k \<in> K" "d \<in> K"
  shows "\<exists>L'. close_program_account rt k d L = Inr L'"
proof -
  obtain L1 where "move_lamports k d (lam L k) L = Inr L1"
    using move_lamports_live [OF K, of "lam L k"] by (auto simp: lamports_def)
  with d have "\<exists>L'. spec_close_program_account k d L = Inr L'"
    by (simp add: spec_close_program_account_def require_def)
  then show ?thesis using runtime_liveD(3) [OF live] by blast
qed

lemma sub_add_live:
  assumes live: "runtime_live rt" and K: "room K L" "f \<in> K" "t \<in> K" and a: "unat a \<le> lamports L f"
  obtains L1 L2 where "sub_lamports rt f a L = Inr L1" "add_lamports rt t a L1 = Inr L2"
proof -
  let ?L1 = "L\<lparr>lam := (lam L)(f := lam L f - a)\<rparr>"
  have s: "spec_sub_lamports f a L = Inr ?L1"
    using a by (simp add: spec_sub_lamports_def debit_def require_def lamports_def word_le_nat_alt)
  have t: "\<exists>L2. spec_add_lamports t a ?L1 = Inr L2"
    using debit_credit_room [OF K a] by (simp add: spec_add_lamports_def credit_def require_def)
  from s t runtime_liveD(4,5) [OF live] show ?thesis by (blast intro: that)
qed

text \<open>What a transfer of tokens needs.\<close>

definition of_mint :: "ledger \<Rightarrow> pubkey \<Rightarrow> pubkey \<Rightarrow> pubkey \<Rightarrow> bool" where
  "of_mint L k m p \<longleftrightarrow> (\<exists>t. tok L k = Some t \<and> ta_mint t = m \<and> ta_program t = p)"

definition transferable :: "ledger \<Rightarrow> mint_ref \<Rightarrow> pubkey \<Rightarrow> pubkey \<Rightarrow> pubkey \<Rightarrow> bool" where
  "transferable L m p f t \<longleftrightarrow> f \<noteq> t \<and> mints L (fst m) = Some (snd m) \<and> of_mint L f (fst m) p
     \<and> of_mint L t (fst m) p \<and> tokens L f + tokens L t < 2 ^ 64 \<and> backed_at L f"

lemma move_tokens_live:
  assumes "tok L f = Some tf" "tok L t = Some tt" "f \<noteq> t" "unat a \<le> unat (ta_amount tf)"
    "unat (ta_amount tf) + unat (ta_amount tt) < 2 ^ 64"
  shows "\<exists>L'. move_tokens f t a L = Inr L'"
  using assms by (simp add: move_tokens_def Let_def ok_or_def require_def word_le_nat_alt)

lemma transfer_live:
  assumes live: "runtime_live rt" and tr: "transferable L m p f t" and au: "au \<in> set (cpi_signers rt x s)"
    and a: "unat a \<le> tokens L f" and K: "room K L" "f \<in> K" "t \<in> K"
  shows "\<exists>L'. uni_transfer rt x (TokenTransfer f au t m a p) s L = Inr L'"
proof (cases "a = 0")
  case False
  from tr obtain tf tt where tf: "tok L f = Some tf" "ta_mint tf = fst m" "ta_program tf = p" and
    tt: "tok L t = Some tt" "ta_mint tt = fst m" "ta_program tt = p" and n: "f \<noteq> t" "mints L (fst m) = Some (snd m)"
    by (auto simp: transferable_def of_mint_def)
  have a': "unat a \<le> unat (ta_amount tf)" using a tf by (simp add: tokens_def)
  have "unat (ta_amount tf) + unat (ta_amount tt) < 2 ^ 64"
    using tr tf tt by (simp add: transferable_def tokens_def)
  from move_tokens_live [OF tf(1) tt(1) n(1) a' this] obtain L1 where L1: "move_tokens f t a L = Inr L1" by blast
  have "\<exists>L'. (if ta_native tf = None then Inr L1 else move_lamports f t a L1) = Inr L'"
  proof (cases "ta_native tf")
    case (Some r)
    have l: "lamports L1 = lamports L" by (rule lamports_cong [OF move_tokens_effect(3) [OF L1]])
    have "unat a \<le> lamports L1 f" using tr a' tf(1) Some unfolding l by (simp add: transferable_def backed_at_def)
    moreover have "room K L1" using K(1) by (simp add: room_def l)
    ultimately show ?thesis using move_lamports_live [OF _ K(2,3)] Some by simp
  qed simp
  then have "\<exists>L'. spec_transfer_checked (cpi_signers rt x s) p f (fst m) t au a (m_decimals (snd m)) L = Inr L'"
    using tf tt n L1 au by (simp add: spec_transfer_checked_def ok_or_def require_def)
  then show ?thesis using False runtime_liveD(1) [OF live] by auto
qed simp

section \<open>Payouts that succeed\<close>

lemma withdraw_and_close_live:
  assumes ok: "runtime_ok rt" and live: "runtime_live rt" and ea: "tok L (fst ea) = Some (snd ea)"
    and tr: "transferable L m p (fst ea) dest" and au: "au \<in> set (cpi_signers rt x (Some [seeds]))"
    and rr: "rr \<noteq> fst ea" and K: "room K L" "{fst ea, dest, rr} \<subseteq> K"
  obtains L1 L2 where
    "uni_transfer rt x (TokenTransfer (fst ea) au dest m (ta_amount (snd ea)) p) (Some [seeds]) L = Inr L1"
    "close_token_account rt (cpi_signers rt x (Some [seeds])) p (fst ea) rr au L1 = Inr L2"
proof -
  have k: "fst ea \<in> K" "dest \<in> K" "rr \<in> K" using K(2) by simp_all
  have a: "unat (ta_amount (snd ea)) \<le> tokens L (fst ea)" using ea by (simp add: tokens_def)
  obtain L1 where t: "uni_transfer rt x (TokenTransfer (fst ea) au dest m (ta_amount (snd ea)) p) (Some [seeds]) L = Inr L1"
    using transfer_live [OF live tr au a K(1) k(1,2)] by blast
  note e = token_transfer_effect [OF ok t]
  from statics_SomeD [OF e(2) ea] obtain t1 where t1: "tok L1 (fst ea) = Some t1" by blast
  have "tokens L1 (fst ea) = 0"
    using e(1) tr ea by (simp add: shifted_def transferable_def tokens_def)
  then have z: "ta_native t1 \<noteq> None \<or> ta_amount t1 = 0" using t1 by (simp add: tokens_def unat_eq_0)
  have "room K L1" by (rule room_shifted [OF K(1) e(7) [OF ea] k(1,2)])
  from close_token_live [OF live t1 z au rr this k(1,3)] t show ?thesis by (blast intro: that)
qed

text \<open>What is in the token account \<open>ea\<close> can be paid: native assets as lamports of a wrapped
  account, tokens to an account of the same mint.\<close>

definition payable :: "bool \<Rightarrow> u64 \<Rightarrow> mint_ref \<Rightarrow> pubkey \<Rightarrow> ledger \<Rightarrow> pubkey \<Rightarrow> pubkey option \<Rightarrow> bool" where
  "payable native amt m p L ea dest \<longleftrightarrow>
     (if native then (\<exists>t. tok L ea = Some t \<and> ta_native t \<noteq> None) \<and> unat amt \<le> lamports L ea
      else (\<exists>d. dest = Some d \<and> transferable L m p ea d))"

lemma native_payout_live:
  assumes ok: "runtime_ok rt" and live: "runtime_live rt" and ea: "tok L (fst ea) = Some (snd ea)"
    and py: "payable True amt m p L (fst ea) None" and es: "es \<noteq> fst ea" "es \<noteq> who"
    and sg: "es \<in> set (cpi_signers rt x (Some [seeds]))"
    and K: "room K L" and k: "fst ea \<in> K" "es \<in> K" "who \<in> K"
  obtains L1 where "process_payout rt x m True amt es ea who ra rr seeds p L = Inr L1"
    "room K L1" "lamports L es \<le> lamports L1 es"
proof -
  have w: "ta_native (snd ea) \<noteq> None \<or> ta_amount (snd ea) = 0" and amt: "unat amt \<le> lamports L (fst ea)"
    using py ea by (auto simp: payable_def)
  obtain L1 where c: "close_token_account rt (cpi_signers rt x (Some [seeds])) p (fst ea) es es L = Inr L1"
    using close_token_live [OF live ea w sg es(1) K k(1,2)] by blast
  note ec = close_token_account_effect [OF runtime_okD(3) [OF ok c]]
  have l1: "lamports L1 es = lamports L es + lamports L (fst ea)" using ec(4) es(1) by (simp add: shifted_def)
  have r1: "room K L1" by (rule room_shifted [OF K ec(4) k(1,2)])
  have "unat amt \<le> lamports L1 es" using amt l1 by simp
  then obtain L2 L3 where d: "sub_lamports rt es amt L1 = Inr L2" "add_lamports rt who amt L2 = Inr L3"
    by (rule sub_add_live [OF live r1 k(2,3)])
  note ed = sub_add_lamports_effect [OF runtime_okD(8) [OF ok d(1)] runtime_okD(9) [OF ok d(2)]]
  have "lamports L es \<le> lamports L3 es" using ed(1) l1 amt es(2) by (simp add: shifted_def)
  moreover have "room K L3" by (rule room_shifted [OF r1 ed(1) k(2,3)])
  moreover have "process_payout rt x m True amt es ea who ra rr seeds p L = Inr L3"
    using c d by (simp add: process_payout_def)
  ultimately show thesis by (intro that)
qed

lemma token_payout_live:
  assumes ok: "runtime_ok rt" and live: "runtime_live rt" and ea: "tok L (fst ea) = Some (snd ea)"
    and tr: "transferable L m p (fst ea) (fst da)" and es: "es \<noteq> fst ea" "rr \<noteq> es" "rr \<noteq> fst ea" "es \<noteq> fst da"
    and sg: "es \<in> set (cpi_signers rt x (Some [seeds]))"
    and K: "room K L" and k: "{fst ea, fst da, rr} \<subseteq> K"
  obtains L1 where "process_payout rt x m False amt es ea who (Some da) rr seeds p L = Inr L1"
    "room K L1" "lamports L es \<le> lamports L1 es"
proof -
  obtain L1 L2 where
    t: "uni_transfer rt x (TokenTransfer (fst ea) es (fst da) m (ta_amount (snd ea)) p) (Some [seeds]) L = Inr L1"
    and c: "close_token_account rt (cpi_signers rt x (Some [seeds])) p (fst ea) rr es L1 = Inr L2"
    by (rule withdraw_and_close_live [OF ok live ea tr sg es(3) K k])
  note et = token_transfer_effect [OF ok t]
  note ec = close_token_account_effect [OF runtime_okD(3) [OF ok c]]
  have r1: "room K L1" by (rule room_shifted [OF K et(7) [OF ea]]) (use k in auto)
  have r2: "room K L2" by (rule room_shifted [OF r1 ec(4)]) (use k in auto)
  have "lamports L1 es = lamports L es" by (rule shifted_other [OF et(7) [OF ea]]) (use es in simp_all)
  moreover have "lamports L2 es = lamports L1 es" by (rule shifted_other [OF ec(4)]) (use es in simp_all)
  ultimately have l: "lamports L es \<le> lamports L2 es" by simp
  have "process_payout rt x m False amt es ea who (Some da) rr seeds p L = Inr L2"
    using t c by (simp add: process_payout_def withdraw_and_close_token_ata_def del: uni_transfer.simps)
  from that [OF this r2 l] show thesis .
qed

lemma process_payout_live:
  assumes ok: "runtime_ok rt" and live: "runtime_live rt" and ea: "tok L (fst ea) = Some (snd ea)"
    and py: "payable native amt m p L (fst ea) (map_option fst ra)" and es: "es \<noteq> fst ea" "rr \<noteq> es" "rr \<noteq> fst ea"
    and sg: "es \<in> set (cpi_signers rt x (Some [seeds]))" and ne: "es \<noteq> payout_dest native who ra"
    and K: "room K L" "{es, fst ea, payout_dest native who ra, rr} \<subseteq> K"
  obtains L1 where "process_payout rt x m native amt es ea who ra rr seeds p L = Inr L1"
    "room K L1" "lamports L es \<le> lamports L1 es"
proof (cases native)
  case True
  have k: "fst ea \<in> K" "es \<in> K" "who \<in> K" using K(2) True by (simp_all add: payout_dest_def)
  have "payable True amt m p L (fst ea) None" "es \<noteq> who" using py ne True by (simp_all add: payable_def payout_dest_def)
  from native_payout_live [OF ok live ea this(1) es(1) this(2) sg K(1) k] True that show ?thesis by metis
next
  case False
  with py obtain da where da: "ra = Some da" and tr: "transferable L m p (fst ea) (fst da)"
    by (auto simp: payable_def)
  have k: "{fst ea, fst da, rr} \<subseteq> K" and n: "es \<noteq> fst da" using K(2) ne False da by (simp_all add: payout_dest_def)
  from token_payout_live [OF ok live ea tr es n sg K(1) k] False da that show ?thesis by metis
qed

text \<open>The whole settlement: the escrow holds its safety deposit, so it can pay it.\<close>

lemma payout_live:
  assumes ok: "runtime_ok rt" and live: "runtime_live rt" and ea: "tok L (fst ea) = Some (snd ea)"
    and py: "payable native amt m p L (fst ea) (map_option fst ra)" and es: "es \<noteq> fst ea" "rr \<noteq> es" "rr \<noteq> fst ea"
    and sg: "es \<in> set (cpi_signers rt x (Some [seeds]))" and ne: "es \<noteq> payout_dest native who ra"
    and sd: "unat sd \<le> lamports L es" and K: "room K L" "{es, fst ea, payout_dest native who ra, rr, sdr} \<subseteq> K"
  shows "\<exists>L'. payout_and_close rt x m native amt es ea who ra rr seeds p sdr sd L = Inr L'"
proof -
  have k: "es \<in> K" "rr \<in> K" "sdr \<in> K" and k1: "{es, fst ea, payout_dest native who ra, rr} \<subseteq> K" using K(2) by auto
  obtain L1 where p: "process_payout rt x m native amt es ea who ra rr seeds p L = Inr L1" and
    r1: "room K L1" and l: "lamports L es \<le> lamports L1 es"
    by (rule process_payout_live [OF ok live ea py es sg ne K(1) k1])
  have sd1: "unat sd \<le> lamports L1 es" using sd l by simp
  obtain L2 where d: "pay_safety_deposit rt es rr sdr sd L1 = Inr L2"
  proof (cases "rr = sdr")
    case False
    obtain M N where "sub_lamports rt es sd L1 = Inr M" "add_lamports rt sdr sd M = Inr N"
      by (rule sub_add_live [OF live r1 k(1,3) sd1])
    with False show ?thesis by (intro that) (simp add: pay_safety_deposit_def)
  qed (simp add: pay_safety_deposit_def that)
  have "room K L2" by (rule room_shifted [OF r1 pay_safety_deposit_effect(1) [OF ok d] k(1,3)])
  then obtain L' where "close_program_account rt es rr L2 = Inr L'"
    using close_program_live [OF live es(2) _ k(1,2)] by blast
  with p d show ?thesis by (simp add: payout_and_close_def)
qed

section \<open>Escrows of the source chain\<close>

lemma cpi_signers_pda:
  "create_program_address rt s (program_id x) = Some k \<Longrightarrow> k \<in> set (cpi_signers rt x (Some [s]))"
  by (simp add: cpi_signers_def List.map_filter_simps)

lemma solvent_deposit:
  "solvent rt L \<Longrightarrow> prog L k = Some (EscrowSrcAcc e) \<Longrightarrow> unat (es_safety_deposit e) \<le> lamports L k"
  "solvent rt L \<Longrightarrow> prog L k = Some (EscrowDstAcc d) \<Longrightarrow> unat (ed_safety_deposit d) \<le> lamports L k"
  using solventD [of rt L k] by fastforce+

text \<open>A claim on the source chain, by the taker or in public: \<open>payer\<close> sends the transaction.\<close>

lemma src_claim_live:
  assumes ok: "runtime_ok rt" and live: "runtime_live rt" and wf: "wf_ledger L" and sv: "solvent rt L"
    and e: "prog L es = Some (EscrowSrcAcc e)"
    and sg: "create_program_address rt (escrow_signer_seeds e (es_bump e)) (program_id x) = Some es"
    and ea: "tok L (fst ea) = Some (snd ea)" and tr: "transferable L m p (fst ea) (fst ta)"
    and n: "es \<noteq> rr" "rr \<noteq> fst ea" and h: "keccak rt secret = es_hashlock e"
    and K: "room {es, fst ea, fst ta, rr, sdr} L"
  shows "\<exists>L'. bindE (utils_withdraw rt x (es, e) (es_bump e) ea ta m p rr sdr secret L)
    (\<lambda>L1. close_program_account rt es rr L1) = Inr L'"
proof -
  have t: "tok L (fst ta) \<noteq> None" using tr by (auto simp: transferable_def of_mint_def)
  have py: "payable False (es_amount e) m p L (fst ea) (map_option fst (Some ta))" using tr by (simp add: payable_def)
  have ne: "es \<noteq> fst ea" using wf_ledger_neq [OF wf] e ea by simp
  have nd: "es \<noteq> payout_dest False rr (Some ta)" using wf_ledger_neq [OF wf, of es "fst ta"] e t by (simp add: payout_dest_def)
  have k: "{es, fst ea, payout_dest False rr (Some ta), rr, sdr} \<subseteq> {es, fst ea, fst ta, rr, sdr}"
    by (auto simp: payout_dest_def)
  show ?thesis
    unfolding utils_withdraw_close
    using payout_live [OF ok live ea py ne n(1) [symmetric] n(2) cpi_signers_pda [OF sg] nd solvent_deposit(1) [OF sv e] K k]
    by (simp add: h require_def)
qed

theorem src_withdraw_succeeds:
  assumes "runtime_ok rt" "runtime_live rt" "wf_ledger L" "solvent rt L"
    and "program_id x = src_ID" and ac: "SrcWithdraw_accounts rt x a L = Inr ld"
    and "in_window (now x) (Timelocks (U256 (es_timelocks (ld_state ld)))) SrcWithdrawal SrcCancellation = Inr True"
    and "keccak rt secret = es_hashlock (ld_state ld)"
    and "transferable L (ld_mint ld) (SrcWithdraw.token_program a) (SrcWithdraw.escrow_ata a) (SrcWithdraw.taker_ata a)"
    and "SrcWithdraw.taker a \<noteq> SrcWithdraw.escrow_ata a"
    and "room {SrcWithdraw.escrow a, SrcWithdraw.escrow_ata a, SrcWithdraw.taker_ata a, SrcWithdraw.taker a} L"
  shows "\<exists>L'. src_withdraw rt x a secret L = Inr L'"
proof -
  from ac obtain ta where d: "ld_dest ld = Some ta" and
    l: "prog L (SrcWithdraw.escrow a) = Some (EscrowSrcAcc (ld_state ld))"
      "create_program_address rt (escrow_signer_seeds (ld_state ld) (es_bump (ld_state ld))) src_ID
        = Some (SrcWithdraw.escrow a)"
      "fst (ld_ata ld) = SrcWithdraw.escrow_ata a" "tok L (fst (ld_ata ld)) = Some (snd (ld_ata ld))"
      "fst ta = SrcWithdraw.taker_ata a" "SrcWithdraw.escrow a \<noteq> SrcWithdraw.taker a"
    by (auto simp: SrcWithdraw_accounts_def res_simps escrow_signer_seeds_def)
  have "\<exists>L'. bindE (utils_withdraw rt x (SrcWithdraw.escrow a, ld_state ld) (es_bump (ld_state ld)) (ld_ata ld) ta
      (ld_mint ld) (SrcWithdraw.token_program a) (SrcWithdraw.taker a) (SrcWithdraw.taker a) secret L)
      (\<lambda>L1. close_program_account rt (SrcWithdraw.escrow a) (SrcWithdraw.taker a) L1) = Inr L'"
    by (rule src_claim_live [OF assms(1-4) l(1)]) (use assms l in simp_all)
  with assms(5-7) d show ?thesis by (simp add: src_withdraw_def require_def check_entry_def Let_def)
qed

text \<open>No claim on the source chain gets stuck.  Inside the public withdrawal window, and with
  the secret, \<open>public_withdraw\<close> of an open escrow succeeds: if the declared account constraints
  hold, the token accounts are of the escrow's mint and the balances fit into 64 bits, then
  nothing can make it fail, the payment of the safety deposit included.\<close>

theorem src_public_withdraw_succeeds:
  assumes "runtime_ok rt" "runtime_live rt" "wf_ledger L" "solvent rt L"
    and "program_id x = src_ID" and ac: "SrcPublicWithdraw_accounts rt x a L = Inr ld"
    and "in_window (now x) (Timelocks (U256 (es_timelocks (ld_state ld)))) SrcPublicWithdrawal SrcCancellation = Inr True"
    and "keccak rt secret = es_hashlock (ld_state ld)"
    and "transferable L (ld_mint ld) (SrcPublicWithdraw.token_program a) (SrcPublicWithdraw.escrow_ata a)
      (SrcPublicWithdraw.taker_ata a)"
    and "SrcPublicWithdraw.taker a \<noteq> SrcPublicWithdraw.escrow_ata a"
    and "room {SrcPublicWithdraw.escrow a, SrcPublicWithdraw.escrow_ata a, SrcPublicWithdraw.taker_ata a,
      SrcPublicWithdraw.taker a, SrcPublicWithdraw.payer a} L"
  shows "\<exists>L'. src_public_withdraw rt x a secret L = Inr L'"
proof -
  from ac obtain ta where d: "ld_dest ld = Some ta" and
    l: "prog L (SrcPublicWithdraw.escrow a) = Some (EscrowSrcAcc (ld_state ld))"
      "create_program_address rt (escrow_signer_seeds (ld_state ld) (es_bump (ld_state ld))) src_ID
        = Some (SrcPublicWithdraw.escrow a)"
      "fst (ld_ata ld) = SrcPublicWithdraw.escrow_ata a" "tok L (fst (ld_ata ld)) = Some (snd (ld_ata ld))"
      "fst ta = SrcPublicWithdraw.taker_ata a" "SrcPublicWithdraw.escrow a \<noteq> SrcPublicWithdraw.taker a"
    by (auto simp: SrcPublicWithdraw_accounts_def res_simps escrow_signer_seeds_def)
  have "\<exists>L'. bindE (utils_withdraw rt x (SrcPublicWithdraw.escrow a, ld_state ld) (es_bump (ld_state ld)) (ld_ata ld) ta
      (ld_mint ld) (SrcPublicWithdraw.token_program a) (SrcPublicWithdraw.taker a) (SrcPublicWithdraw.payer a) secret L)
      (\<lambda>L1. close_program_account rt (SrcPublicWithdraw.escrow a) (SrcPublicWithdraw.taker a) L1) = Inr L'"
    by (rule src_claim_live [OF assms(1-4) l(1)]) (use assms l in simp_all)
  with assms(5-7) d show ?thesis by (simp add: src_public_withdraw_def require_def check_entry_def Let_def)
qed

text \<open>A refund on the source chain.\<close>

lemma payable_dest:
  assumes "wf_ledger L" "prog L es \<noteq> None" "payable native amt m p L ea (map_option fst ra)" "who \<noteq> es"
  shows "es \<noteq> payout_dest native who ra" "payout_dest native who ra \<in> insert who (set_option (map_option fst ra))"
proof -
  have "es \<noteq> payout_dest native who ra \<and> payout_dest native who ra \<in> insert who (set_option (map_option fst ra))"
  proof (cases native)
    case False
    with assms(3) obtain d where d: "ra = Some d" "tok L (fst d) \<noteq> None"
      by (auto simp: payable_def transferable_def of_mint_def)
    with False wf_ledger_neq [OF assms(1,2) d(2)] show ?thesis by (simp add: payout_dest_def)
  qed (use assms(4) in \<open>simp add: payout_dest_def\<close>)
  then show "es \<noteq> payout_dest native who ra"
    "payout_dest native who ra \<in> insert who (set_option (map_option fst ra))" by blast+
qed

lemma src_refund_live:
  assumes ok: "runtime_ok rt" and live: "runtime_live rt" and wf: "wf_ledger L" and sv: "solvent rt L"
    and e: "prog L es = Some (EscrowSrcAcc e)"
    and sg: "create_program_address rt (escrow_signer_seeds e (es_bump e)) (program_id x) = Some es"
    and ea: "tok L (fst ea) = Some (snd ea)"
    and py: "payable (es_asset_is_native e) (es_amount e) m p L (fst ea) (map_option fst ca)"
    and n: "es \<noteq> rr" "rr \<noteq> fst ea" "cr \<noteq> es"
    and K: "room ({es, fst ea, cr, rr, sdr} \<union> set_option (map_option fst ca)) L"
  shows "\<exists>L'. bindE (utils_cancel rt x (es, e) (es_bump e) ea ca m p rr cr sdr L)
    (\<lambda>L1. close_program_account rt es rr L1) = Inr L'"
proof -
  have e': "prog L es \<noteq> None" using e by simp
  have ne: "es \<noteq> fst ea" using wf_ledger_neq [OF wf e'] ea by simp
  note d = payable_dest [OF wf e' py n(3)]
  have k: "{es, fst ea, payout_dest (es_asset_is_native e) cr ca, rr, sdr}
    \<subseteq> {es, fst ea, cr, rr, sdr} \<union> set_option (map_option fst ca)" using d(2) by auto
  show ?thesis
    unfolding utils_cancel_close
    by (rule payout_live [OF ok live ea py ne n(1) [symmetric] n(2) cpi_signers_pda [OF sg] d(1)
          solvent_deposit(1) [OF sv e] K k])
qed

theorem cancel_escrow_succeeds:
  assumes "runtime_ok rt" "runtime_live rt" "wf_ledger L" "solvent rt L"
    and "program_id x = src_ID" and ac: "CancelEscrow_accounts rt x a L = Inr ld"
    and "get (Timelocks (U256 (es_timelocks (ld_state ld)))) SrcCancellation = Inr start" "start \<le> now x"
    and "payable (es_asset_is_native (ld_state ld)) (es_amount (ld_state ld)) (ld_mint ld) (CancelEscrow.token_program a) L
      (CancelEscrow.escrow_ata a) (CancelEscrow.maker_ata a)"
    and "CancelEscrow.taker a \<noteq> CancelEscrow.escrow_ata a" "CancelEscrow.maker a \<noteq> CancelEscrow.escrow a"
    and "room ({CancelEscrow.escrow a, CancelEscrow.escrow_ata a, CancelEscrow.maker a, CancelEscrow.taker a}
      \<union> set_option (CancelEscrow.maker_ata a)) L"
  shows "\<exists>L'. cancel_escrow rt x a L = Inr L'"
proof -
  from ac have
    l: "prog L (CancelEscrow.escrow a) = Some (EscrowSrcAcc (ld_state ld))"
      "create_program_address rt (escrow_signer_seeds (ld_state ld) (es_bump (ld_state ld))) src_ID
        = Some (CancelEscrow.escrow a)"
      "fst (ld_ata ld) = CancelEscrow.escrow_ata a" "tok L (fst (ld_ata ld)) = Some (snd (ld_ata ld))"
      "CancelEscrow.maker_ata a = map_option fst (ld_dest ld)" "CancelEscrow.escrow a \<noteq> CancelEscrow.taker a"
    by (auto simp: CancelEscrow_accounts_def res_simps escrow_signer_seeds_def)
  have "\<exists>L'. bindE (utils_cancel rt x (CancelEscrow.escrow a, ld_state ld) (es_bump (ld_state ld)) (ld_ata ld)
      (ld_dest ld) (ld_mint ld) (CancelEscrow.token_program a) (CancelEscrow.taker a) (CancelEscrow.maker a)
      (CancelEscrow.taker a) L) (\<lambda>L1. close_program_account rt (CancelEscrow.escrow a) (CancelEscrow.taker a) L1) = Inr L'"
    by (rule src_refund_live [OF assms(1-4) l(1)]) (use assms l in \<open>simp_all add: insert_commute\<close>)
  with assms(5-8) show ?thesis by (simp add: cancel_escrow_def require_def check_entry_def Let_def)
qed

text \<open>C7: No refund on the source chain gets stuck.  In every run from a solvent ledger, once the
  public cancellation time of an open escrow has come, \<open>public_cancel_escrow\<close> by a whitelisted
  resolver succeeds, with or without native assets and however the escrow came about: if the
  declared account constraints hold, what the escrow owes can be paid to the maker and the
  balances fit into 64 bits, nothing can make it fail.\<close>

theorem public_cancel_escrow_succeeds:
  assumes "runtime_ok rt" "runtime_live rt" and run: "swap_run rt L0 evs L" "wf_ledger L0" "solvent rt L0"
    and "program_id x = src_ID" and ac: "PublicCancelEscrow_accounts rt x a L = Inr ld"
    and "get (Timelocks (U256 (es_timelocks (ld_state ld)))) SrcPublicCancellation = Inr start" "start \<le> now x"
    and "payable (es_asset_is_native (ld_state ld)) (es_amount (ld_state ld)) (ld_mint ld)
      (PublicCancelEscrow.token_program a) L (PublicCancelEscrow.escrow_ata a) (PublicCancelEscrow.maker_ata a)"
    and "PublicCancelEscrow.taker a \<noteq> PublicCancelEscrow.escrow_ata a"
      "PublicCancelEscrow.maker a \<noteq> PublicCancelEscrow.escrow a"
    and "room ({PublicCancelEscrow.escrow a, PublicCancelEscrow.escrow_ata a, PublicCancelEscrow.maker a,
      PublicCancelEscrow.taker a, PublicCancelEscrow.payer a} \<union> set_option (PublicCancelEscrow.maker_ata a)) L"
  shows "\<exists>L'. public_cancel_escrow rt x a L = Inr L'"
proof -
  from ac have
    l: "prog L (PublicCancelEscrow.escrow a) = Some (EscrowSrcAcc (ld_state ld))"
      "create_program_address rt (escrow_signer_seeds (ld_state ld) (es_bump (ld_state ld))) src_ID
        = Some (PublicCancelEscrow.escrow a)"
      "fst (ld_ata ld) = PublicCancelEscrow.escrow_ata a" "tok L (fst (ld_ata ld)) = Some (snd (ld_ata ld))"
      "PublicCancelEscrow.maker_ata a = map_option fst (ld_dest ld)"
      "PublicCancelEscrow.escrow a \<noteq> PublicCancelEscrow.taker a"
    by (auto simp: PublicCancelEscrow_accounts_def res_simps escrow_signer_seeds_def)
  have "\<exists>L'. bindE (utils_cancel rt x (PublicCancelEscrow.escrow a, ld_state ld) (es_bump (ld_state ld)) (ld_ata ld)
      (ld_dest ld) (ld_mint ld) (PublicCancelEscrow.token_program a) (PublicCancelEscrow.taker a)
      (PublicCancelEscrow.maker a) (PublicCancelEscrow.payer a) L)
      (\<lambda>L1. close_program_account rt (PublicCancelEscrow.escrow a) (PublicCancelEscrow.taker a) L1) = Inr L'"
    by (rule src_refund_live [OF assms(1,2) swap_run_wf [OF run(1,2)] swap_run_solvent [OF run(1,3)] l(1)])
      (use assms l in \<open>simp_all add: insert_commute\<close>)
  with assms(6,8,9) ac show ?thesis by (simp add: public_cancel_escrow_def require_def check_entry_def Let_def)
qed

section \<open>Escrows of the destination chain\<close>

text \<open>The instructions of the destination program may first create the recipient's token account;
  \<open>L1\<close> is the ledger after that.\<close>

lemma dst_claim_live:
  assumes ok: "runtime_ok rt" and live: "runtime_live rt" and wf: "wf_ledger L" and sv: "solvent rt L"
    and e: "prog L es = Some (EscrowDstAcc e)"
    and i: "init_if_needed_ata_opt rt x ko pay mi who p L = Inr (L1, ra)"
    and sg: "create_program_address rt (dst_signer_seeds e (ed_bump e)) (program_id x) = Some es"
    and ea: "tok L (fst ea) = Some (snd ea)"
    and py: "payable (ed_asset_is_native e) (ed_amount e) m p L1 (fst ea) ko"
    and n: "es \<noteq> rr" "rr \<noteq> fst ea" "who \<noteq> es" and h: "keccak rt secret = ed_hashlock e"
    and K: "room ({es, fst ea, who, rr, sdr} \<union> set_option ko) L1"
  shows "\<exists>L'. bindE (dst_utils_withdraw rt x (es, e) (ed_bump e) ea who ra m p rr sdr secret L1)
    (\<lambda>L2. close_program_account rt es rr L2) = Inr L'"
proof -
  note o = init_if_needed_ata_opt_effect [OF ok i]
  have e': "prog L es \<noteq> None" "prog L1 es \<noteq> None" using e o(1) by (simp_all add: opened_def)
  have ea1: "tok L1 (fst ea) = Some (snd ea)" by (rule opened_tok [OF o(1) ea])
  have ne: "es \<noteq> fst ea" using wf_ledger_neq [OF wf e'(1)] ea by simp
  have py1: "payable (ed_asset_is_native e) (ed_amount e) m p L1 (fst ea) (map_option fst ra)" using py o(2) by simp
  note d = payable_dest [OF opened_wf [OF o(1) wf] e'(2) py1 n(3)]
  have k: "{es, fst ea, payout_dest (ed_asset_is_native e) who ra, rr, sdr} \<subseteq> {es, fst ea, who, rr, sdr} \<union> set_option ko"
    using d(2) o(2) by auto
  have "reserved L es" using e wf_ledgerD(1) [OF wf e] by (simp add: reserved_def)
  then have "lamports L es \<le> lamports L1 es"
    using sparesD [OF spares_init_ata_opt [OF ok i], of es "{}"] by simp
  with solvent_deposit(2) [OF sv e] have sd: "unat (ed_safety_deposit e) \<le> lamports L1 es" by simp
  from payout_live [OF ok live ea1 py1 ne n(1) [symmetric] n(2) cpi_signers_pda [OF sg] d(1) sd K k]
  show ?thesis unfolding dst_utils_withdraw_close by (simp add: h require_def)
qed

theorem dst_withdraw_succeeds:
  assumes "runtime_ok rt" "runtime_live rt" "wf_ledger L" "solvent rt L"
    and "program_id x = dst_ID" and ac: "DstWithdraw_accounts rt x a L = Inr (L1, ld)"
    and "in_window (now x) (Timelocks (U256 (ed_timelocks (ld_state ld)))) DstWithdrawal DstCancellation = Inr True"
    and "keccak rt secret = ed_hashlock (ld_state ld)"
    and "payable (ed_asset_is_native (ld_state ld)) (ed_amount (ld_state ld)) (ld_mint ld) (DstWithdraw.token_program a) L1
      (DstWithdraw.escrow_ata a) (DstWithdraw.recipient_ata a)"
    and "DstWithdraw.creator a \<noteq> DstWithdraw.escrow_ata a" "DstWithdraw.recipient a \<noteq> DstWithdraw.escrow a"
    and "room ({DstWithdraw.escrow a, DstWithdraw.escrow_ata a, DstWithdraw.recipient a, DstWithdraw.creator a}
      \<union> set_option (DstWithdraw.recipient_ata a)) L1"
  shows "\<exists>L'. dst_withdraw rt x a secret L = Inr L'"
proof -
  from ac have
    l: "prog L (DstWithdraw.escrow a) = Some (EscrowDstAcc (ld_state ld))"
      "init_if_needed_ata_opt rt x (DstWithdraw.recipient_ata a) (DstWithdraw.creator a) (DstWithdraw.mint a)
        (DstWithdraw.recipient a) (DstWithdraw.token_program a) L = Inr (L1, ld_dest ld)"
      "create_program_address rt (dst_signer_seeds (ld_state ld) (ed_bump (ld_state ld))) dst_ID
        = Some (DstWithdraw.escrow a)"
      "fst (ld_ata ld) = DstWithdraw.escrow_ata a" "tok L (fst (ld_ata ld)) = Some (snd (ld_ata ld))"
      "DstWithdraw.escrow a \<noteq> DstWithdraw.creator a"
    by (auto simp: DstWithdraw_accounts_def res_simps dst_signer_seeds_def)
  have "\<exists>L'. bindE (dst_utils_withdraw rt x (DstWithdraw.escrow a, ld_state ld) (ed_bump (ld_state ld)) (ld_ata ld)
      (DstWithdraw.recipient a) (ld_dest ld) (ld_mint ld) (DstWithdraw.token_program a) (DstWithdraw.creator a)
      (DstWithdraw.creator a) secret L1)
      (\<lambda>L2. close_program_account rt (DstWithdraw.escrow a) (DstWithdraw.creator a) L2) = Inr L'"
    by (rule dst_claim_live [OF assms(1-4) l(1,2)]) (use assms l in \<open>simp_all add: insert_commute\<close>)
  with assms(5-7) show ?thesis by (simp add: dst_withdraw_def require_def check_entry_def Let_def)
qed

text \<open>C8: No claim on the destination chain gets stuck.  Inside the public withdrawal window, and
  with the secret, \<open>public_withdraw\<close> of an open escrow by a whitelisted resolver succeeds, with or
  without native assets, whether or not the recipient's token account has to be created first.\<close>

theorem dst_public_withdraw_succeeds:
  assumes "runtime_ok rt" "runtime_live rt" "wf_ledger L" "solvent rt L"
    and "program_id x = dst_ID" and ac: "DstPublicWithdraw_accounts rt x a L = Inr (L1, ld)"
    and "in_window (now x) (Timelocks (U256 (ed_timelocks (ld_state ld)))) DstPublicWithdrawal DstCancellation = Inr True"
    and "keccak rt secret = ed_hashlock (ld_state ld)"
    and "payable (ed_asset_is_native (ld_state ld)) (ed_amount (ld_state ld)) (ld_mint ld)
      (DstPublicWithdraw.token_program a) L1 (DstPublicWithdraw.escrow_ata a) (DstPublicWithdraw.recipient_ata a)"
    and "DstPublicWithdraw.creator a \<noteq> DstPublicWithdraw.escrow_ata a"
      "DstPublicWithdraw.recipient a \<noteq> DstPublicWithdraw.escrow a"
    and "room ({DstPublicWithdraw.escrow a, DstPublicWithdraw.escrow_ata a, DstPublicWithdraw.recipient a,
      DstPublicWithdraw.creator a, DstPublicWithdraw.payer a} \<union> set_option (DstPublicWithdraw.recipient_ata a)) L1"
  shows "\<exists>L'. dst_public_withdraw rt x a secret L = Inr L'"
proof -
  from ac have
    l: "prog L (DstPublicWithdraw.escrow a) = Some (EscrowDstAcc (ld_state ld))"
      "init_if_needed_ata_opt rt x (DstPublicWithdraw.recipient_ata a) (DstPublicWithdraw.payer a)
        (DstPublicWithdraw.mint a) (DstPublicWithdraw.recipient a) (DstPublicWithdraw.token_program a) L = Inr (L1, ld_dest ld)"
      "create_program_address rt (dst_signer_seeds (ld_state ld) (ed_bump (ld_state ld))) dst_ID
        = Some (DstPublicWithdraw.escrow a)"
      "fst (ld_ata ld) = DstPublicWithdraw.escrow_ata a" "tok L (fst (ld_ata ld)) = Some (snd (ld_ata ld))"
      "DstPublicWithdraw.escrow a \<noteq> DstPublicWithdraw.creator a"
    by (auto simp: DstPublicWithdraw_accounts_def res_simps dst_signer_seeds_def)
  have "\<exists>L'. bindE (dst_utils_withdraw rt x (DstPublicWithdraw.escrow a, ld_state ld) (ed_bump (ld_state ld)) (ld_ata ld)
      (DstPublicWithdraw.recipient a) (ld_dest ld) (ld_mint ld) (DstPublicWithdraw.token_program a)
      (DstPublicWithdraw.creator a) (DstPublicWithdraw.payer a) secret L1)
      (\<lambda>L2. close_program_account rt (DstPublicWithdraw.escrow a) (DstPublicWithdraw.creator a) L2) = Inr L'"
    by (rule dst_claim_live [OF assms(1-4) l(1,2)]) (use assms l in \<open>simp_all add: insert_commute\<close>)
  with assms(5-7) show ?thesis by (simp add: dst_public_withdraw_def require_def check_entry_def Let_def)
qed

theorem dst_cancel_succeeds:
  assumes "runtime_ok rt" "runtime_live rt" and wf: "wf_ledger L"
    and "program_id x = dst_ID" and ac: "DstCancel_accounts rt x a L = Inr ld"
    and "get (Timelocks (U256 (ed_timelocks (ld_state ld)))) DstCancellation = Inr start" "start \<le> now x"
    and py: "payable (ed_asset_is_native (ld_state ld)) (ed_amount (ld_state ld)) (ld_mint ld) (DstCancel.token_program a) L
      (DstCancel.escrow_ata a) (DstCancel.creator_ata a)"
    and "DstCancel.creator a \<noteq> DstCancel.escrow_ata a"
    and K: "room ({DstCancel.escrow a, DstCancel.escrow_ata a, DstCancel.creator a} \<union> set_option (DstCancel.creator_ata a)) L"
  shows "\<exists>L'. dst_cancel rt x a L = Inr L'"
proof -
  let ?n = "ed_asset_is_native (ld_state ld)" and ?es = "DstCancel.escrow a"
  from ac have
    l: "prog L ?es = Some (EscrowDstAcc (ld_state ld))"
      "create_program_address rt (dst_signer_seeds (ld_state ld) (ed_bump (ld_state ld))) (program_id x) = Some ?es"
      "fst (ld_ata ld) = DstCancel.escrow_ata a" "tok L (fst (ld_ata ld)) = Some (snd (ld_ata ld))"
      "DstCancel.creator_ata a = map_option fst (ld_dest ld)" "?es \<noteq> DstCancel.creator a"
    using assms(4) by (auto simp: DstCancel_accounts_def res_simps dst_signer_seeds_def)
  have ne: "?es \<noteq> fst (ld_ata ld)" using wf_ledger_neq [OF wf] l by simp
  have py': "payable ?n (ed_amount (ld_state ld)) (ld_mint ld) (DstCancel.token_program a) L (fst (ld_ata ld))
      (map_option fst (ld_dest ld))" using py l by simp
  have e': "prog L ?es \<noteq> None" using l by simp
  note d = payable_dest [OF wf e' py' l(6) [symmetric]]
  have k: "{?es, fst (ld_ata ld), payout_dest ?n (DstCancel.creator a) (ld_dest ld), DstCancel.creator a, DstCancel.creator a}
      \<subseteq> {?es, DstCancel.escrow_ata a, DstCancel.creator a} \<union> set_option (DstCancel.creator_ata a)"
    using d(2) l(3,5) by auto
  have rr: "DstCancel.creator a \<noteq> fst (ld_ata ld)" using assms(9) l(3) by simp
  have "unat (0 :: u64) \<le> lamports L ?es" by simp
  from payout_live [OF assms(1,2) l(4) py' ne l(6) [symmetric] rr cpi_signers_pda [OF l(2)] d(1) this K k]
  show ?thesis
    using assms(4,6,7) ac
    by (simp add: dst_cancel_def require_def check_entry_def Let_def payout_and_close_def pay_safety_deposit_def)
qed

section \<open>Orders\<close>

lemma return_order_live:
  assumes ok: "runtime_ok rt" and live: "runtime_live rt" and ea: "tok L (fst (ld_ata ld)) = Some (snd (ld_ata ld))"
    and py: "payable (o_asset_is_native (ld_state ld)) 0 (ld_mint ld) p L (fst (ld_ata ld)) (map_option fst (ld_dest ld))"
    and sg: "ord \<in> set (cpi_signers rt x (Some [order_signer_seeds (ld_state ld)]))" and n: "rr \<noteq> fst (ld_ata ld)"
    and K: "room K L" "{fst (ld_ata ld), rr} \<union> set_option (map_option fst (ld_dest ld)) \<subseteq> K"
  obtains L1 L2 where "return_order_tokens rt x ord p ld L = Inr L1"
    "close_token_account rt (cpi_signers rt x (Some [order_signer_seeds (ld_state ld)])) p (fst (ld_ata ld)) rr ord L1 = Inr L2"
    "room K L2"
proof (cases "o_asset_is_native (ld_state ld)")
  case True
  have k: "fst (ld_ata ld) \<in> K" "rr \<in> K" using K(2) by simp_all
  have w: "ta_native (snd (ld_ata ld)) \<noteq> None \<or> ta_amount (snd (ld_ata ld)) = 0"
    using py True ea by (auto simp: payable_def)
  obtain L2 where c: "close_token_account rt (cpi_signers rt x (Some [order_signer_seeds (ld_state ld)])) p
      (fst (ld_ata ld)) rr ord L = Inr L2"
    using close_token_live [OF live ea w sg n K(1) k] by blast
  have "room K L2" by (rule room_shifted [OF K(1) close_token_account_effect(4) [OF runtime_okD(3) [OF ok c]] k])
  moreover have "return_order_tokens rt x ord p ld L = Inr L" using True by (simp add: return_order_tokens_def)
  ultimately show ?thesis using c by (intro that)
next
  case False
  with py obtain da where da: "ld_dest ld = Some da" and tr: "transferable L (ld_mint ld) p (fst (ld_ata ld)) (fst da)"
    by (auto simp: payable_def)
  have k: "{fst (ld_ata ld), fst da, rr} \<subseteq> K" using K(2) da by simp
  obtain L1 L2 where
    t: "uni_transfer rt x (TokenTransfer (fst (ld_ata ld)) ord (fst da) (ld_mint ld) (ta_amount (snd (ld_ata ld))) p)
      (Some [order_signer_seeds (ld_state ld)]) L = Inr L1"
    and c: "close_token_account rt (cpi_signers rt x (Some [order_signer_seeds (ld_state ld)])) p (fst (ld_ata ld)) rr ord L1
      = Inr L2"
    by (rule withdraw_and_close_live [OF ok live ea tr sg n K(1) k])
  have r1: "room K L1" by (rule room_shifted [OF K(1) token_transfer_effect(7) [OF ok t ea]]) (use k in auto)
  have "room K L2"
    by (rule room_shifted [OF r1 close_token_account_effect(4) [OF runtime_okD(3) [OF ok c]]]) (use k in auto)
  moreover have "return_order_tokens rt x ord p ld L = Inr L1"
    using False da t by (simp add: return_order_tokens_def ok_or_def del: uni_transfer.simps)
  ultimately show ?thesis using c by (intro that)
qed

text \<open>C9: An order never gets stuck.  At any time, expired or not, partly filled or not, the maker's
  \<open>cancel_order\<close> succeeds if the declared account constraints hold, the maker's token account is
  given exactly for assets that are not native, and what is left of the order can be paid back.\<close>

theorem cancel_order_succeeds:
  assumes ok: "runtime_ok rt" and live: "runtime_live rt"
    and pid: "program_id x = src_ID" and ac: "CancelOrder_accounts rt x a L = Inr ld"
    and nat: "o_asset_is_native (ld_state ld) = (CancelOrder.creator_ata a = None)"
    and py: "payable (o_asset_is_native (ld_state ld)) 0 (ld_mint ld) (CancelOrder.token_program a) L
      (CancelOrder.order_ata a) (CancelOrder.creator_ata a)"
    and n: "CancelOrder.creator a \<noteq> CancelOrder.order_ata a"
    and K: "room ({CancelOrder.order a, CancelOrder.order_ata a, CancelOrder.creator a}
      \<union> set_option (CancelOrder.creator_ata a)) L"
  shows "\<exists>L'. cancel_order rt x a L = Inr L'"
proof -
  let ?K = "{CancelOrder.order a, CancelOrder.order_ata a, CancelOrder.creator a} \<union> set_option (CancelOrder.creator_ata a)"
  from ac pid have
    l: "create_program_address rt (order_signer_seeds (ld_state ld)) (program_id x) = Some (CancelOrder.order a)"
      "fst (ld_ata ld) = CancelOrder.order_ata a" "tok L (fst (ld_ata ld)) = Some (snd (ld_ata ld))"
      "CancelOrder.creator_ata a = map_option fst (ld_dest ld)" "CancelOrder.order a \<noteq> CancelOrder.creator a"
    by (auto simp: CancelOrder_accounts_def res_simps order_signer_seeds_def)
  have py': "payable (o_asset_is_native (ld_state ld)) 0 (ld_mint ld) (CancelOrder.token_program a) L (fst (ld_ata ld))
      (map_option fst (ld_dest ld))" and n': "CancelOrder.creator a \<noteq> fst (ld_ata ld)" using py n l by simp_all
  have k: "{fst (ld_ata ld), CancelOrder.creator a} \<union> set_option (map_option fst (ld_dest ld)) \<subseteq> ?K" using l by auto
  obtain L1 L2 where r: "return_order_tokens rt x (CancelOrder.order a) (CancelOrder.token_program a) ld L = Inr L1"
    and c: "close_token_account rt (cpi_signers rt x (Some [order_signer_seeds (ld_state ld)])) (CancelOrder.token_program a)
      (fst (ld_ata ld)) (CancelOrder.creator a) (CancelOrder.order a) L1 = Inr L2" and r2: "room ?K L2"
    by (rule return_order_live [OF ok live l(3) py' cpi_signers_pda [OF l(1)] n' K k])
  obtain L' where "close_program_account rt (CancelOrder.order a) (CancelOrder.creator a) L2 = Inr L'"
    using close_program_live [OF live l(5) [symmetric] r2] by auto
  with r c nat ac pid l(2) show ?thesis by (simp add: cancel_order_def require_def check_entry_def Let_def)
qed

section \<open>Examples\<close>

lemma demo_runtime_live: "runtime_live demo_runtime"
  by (simp add: runtime_live_def)

lemma room_1000: "finite K \<Longrightarrow> card K < 2 ^ 50 \<Longrightarrow> (\<forall>k \<in> K. lamports L k \<le> 1000) \<Longrightarrow> room K L"
proof -
  assume f: "finite K" and c: "card K < 2 ^ 50" and l: "\<forall>k \<in> K. lamports L k \<le> 1000"
  have "sum (lamports L) K \<le> card K * 1000" using sum_bounded_above [of K "lamports L" 1000] l by simp
  with c f show ?thesis by (simp add: room_def)
qed

lemma demo_solvent: "solvent demo_runtime (demo_ledger demo_escrow)"
  by (simp add: solvent_def demo_balances) (simp add: demo_ledger_def demo_escrow_sel)

lemma demo_transferable:
  "transferable (demo_ledger e) ([6], \<lparr>m_decimals = 9, m_program = [2]\<rparr>) [2] (200 # demo_escrow_key @ [6]) [200, 12, 6]"
  "transferable (demo_ledger e) ([6], \<lparr>m_decimals = 9, m_program = [2]\<rparr>) [2] (200 # demo_escrow_key @ [6]) [200, 11, 6]"
  by (simp_all add: transferable_def of_mint_def demo_ledger_def demo_account_def tokens_def backed_at_def demo_keys
      demo_keys [symmetric])

theorem src_public_withdraw_succeeds_witness:
  "\<exists>L'. src_public_withdraw demo_runtime (demo_exec 1025) demo_public_withdraw [41] (demo_ledger demo_escrow) = Inr L'"
proof -
  let ?ld = "\<lparr>ld_state = demo_escrow, ld_mint = ([6], \<lparr>m_decimals = 9, m_program = [2]\<rparr>),
    ld_ata = (200 # demo_escrow_key @ [6], demo_account demo_escrow_key 100), ld_dest = Some ([200, 12, 6], demo_account [12] 1)\<rparr>"
  have ac: "SrcPublicWithdraw_accounts demo_runtime (demo_exec 1025) demo_public_withdraw (demo_ledger demo_escrow) = Inr ?ld"
    by (simp add: SrcPublicWithdraw_accounts_def demo_public_withdraw_def demo_run_simps)
  have w: "in_window (now (demo_exec 1025)) (Timelocks (U256 (es_timelocks (ld_state ?ld)))) SrcPublicWithdrawal SrcCancellation
      = Inr True" "keccak demo_runtime [41] = es_hashlock (ld_state ?ld)"
    by (simp_all add: in_window_def demo_escrow_def demo_get demo_now)
  show ?thesis
    by (rule src_public_withdraw_succeeds [OF demo_runtime_ok demo_runtime_live demo_ledger_wf demo_solvent _ ac w])
      (simp_all add: demo_exec_sel demo_public_withdraw_def demo_transferable, rule room_1000,
        simp_all add: demo_balances card_insert_if)
qed

theorem public_cancel_escrow_succeeds_witness:
  "\<exists>L'. public_cancel_escrow demo_runtime (demo_exec 1040) demo_public_cancel (demo_ledger demo_escrow) = Inr L'"
proof -
  let ?ld = "\<lparr>ld_state = demo_escrow, ld_mint = ([6], \<lparr>m_decimals = 9, m_program = [2]\<rparr>),
    ld_ata = (200 # demo_escrow_key @ [6], demo_account demo_escrow_key 100), ld_dest = Some ([200, 11, 6], demo_account [11] 2)\<rparr>"
  have ac: "PublicCancelEscrow_accounts demo_runtime (demo_exec 1040) demo_public_cancel (demo_ledger demo_escrow) = Inr ?ld"
    by (simp add: PublicCancelEscrow_accounts_def demo_public_cancel_def demo_run_simps)
  have w: "get (Timelocks (U256 (es_timelocks (ld_state ?ld)))) SrcPublicCancellation = Inr 1040" "1040 \<le> now (demo_exec 1040)"
    by (simp_all add: demo_escrow_def demo_get demo_now)
  show ?thesis
    by (rule public_cancel_escrow_succeeds [OF demo_runtime_ok demo_runtime_live swap_run.start demo_ledger_wf demo_solvent _ ac w])
      (simp_all add: demo_exec_sel demo_public_cancel_def payable_def demo_escrow_sel demo_transferable demo_keys
        demo_keys [symmetric], rule room_1000, simp_all add: demo_balances card_insert_if)
qed

lemma demo_dst_solvent: "solvent demo_runtime demo_dst_ledger"
proof -
  have "d = EscrowDstAcc demo_dst_escrow \<and> k = demo_dst_key \<or> d = ResolverAcc \<lparr>ra_bump = 255\<rparr>"
    if "prog demo_dst_ledger k = Some d" for k d
    using that by (auto simp: demo_dst_ledger_def split: if_splits)
  then show ?thesis unfolding solvent_def by (fastforce simp: demo_dst_facts demo_dst_sel)
qed

text \<open>The ledger after the recipient's token account has been created by the resolver \<open>[23]\<close>.\<close>

definition demo_dst_ready :: ledger where
  "demo_dst_ready = demo_dst_ledger\<lparr>lam := (lam demo_dst_ledger)([23] := 980, [200, 22, 6] := 20),
     tok := (tok demo_dst_ledger)([200, 22, 6] \<mapsto> demo_dst_account [22] 0)\<rparr>"

theorem dst_public_withdraw_succeeds_witness:
  "\<exists>L'. dst_public_withdraw demo_runtime (demo_dst_exec 1025) demo_dst_public_withdraw [41] demo_dst_ledger = Inr L'"
proof -
  let ?ld = "\<lparr>ld_state = demo_dst_escrow, ld_mint = ([6], \<lparr>m_decimals = 9, m_program = [2]\<rparr>),
    ld_ata = (200 # demo_dst_key @ [6], demo_dst_account demo_dst_key 100),
    ld_dest = Some ([200, 22, 6], demo_dst_account [22] 0)\<rparr>"
  have ac: "DstPublicWithdraw_accounts demo_runtime (demo_dst_exec 1025) demo_dst_public_withdraw demo_dst_ledger
      = Inr (demo_dst_ready, ?ld)"
    by (simp add: DstPublicWithdraw_accounts_def demo_dst_public_withdraw_def demo_dst_ready_def demo_dst_ledger_def
        demo_dst_simps demo_dst_escrow_def)
  have w: "in_window (now (demo_dst_exec 1025)) (Timelocks (U256 (ed_timelocks (ld_state ?ld)))) DstPublicWithdrawal
      DstCancellation = Inr True" "keccak demo_runtime [41] = ed_hashlock (ld_state ?ld)"
    by (simp_all add: in_window_def demo_dst_sel demo_dst_get demo_dst_exec_sel)
  have t: "transferable demo_dst_ready ([6], \<lparr>m_decimals = 9, m_program = [2]\<rparr>) [2] (200 # demo_dst_key @ [6]) [200, 22, 6]"
    by (simp add: transferable_def of_mint_def demo_dst_ready_def demo_dst_ledger_def demo_dst_account_def tokens_def
        backed_at_def demo_dst_keys demo_dst_keys [symmetric])
  have l: "lamports demo_dst_ready k \<le> 1000" for k by (simp add: lamports_def demo_dst_ready_def demo_dst_ledger_def)
  show ?thesis
    by (rule dst_public_withdraw_succeeds [OF demo_runtime_ok demo_runtime_live demo_dst_wf demo_dst_solvent _ ac w])
      (simp_all add: demo_dst_exec_sel demo_dst_public_withdraw_def payable_def demo_dst_sel t demo_dst_keys
        demo_dst_keys [symmetric], rule room_1000, simp_all add: l card_insert_if)
qed

theorem cancel_order_succeeds_witness:
  "\<exists>L'. cancel_order demo_runtime (demo_order_exec 500) demo_cancel_order (demo_order_ledger demo_order) = Inr L'"
proof -
  let ?oa = "200 # demo_order_key @ [6]"
  let ?ld = "\<lparr>ld_state = demo_order, ld_mint = ([6], \<lparr>m_decimals = 9, m_program = [2]\<rparr>),
    ld_ata = (?oa, demo_order_account demo_order_key 100), ld_dest = Some ([200, 11, 6], demo_order_account [11] 500)\<rparr>"
  have ac: "CancelOrder_accounts demo_runtime (demo_order_exec 500) demo_cancel_order (demo_order_ledger demo_order) = Inr ?ld"
    by (simp add: CancelOrder_accounts_def demo_cancel_order_def demo_order_def demo_order_simps)
  have t: "transferable (demo_order_ledger e) ([6], \<lparr>m_decimals = 9, m_program = [2]\<rparr>) [2] ?oa [200, 11, 6]" for e
    by (simp add: transferable_def of_mint_def demo_order_ledger_def demo_order_account_def tokens_def backed_at_def
        demo_order_key_def)
  have n: "o_asset_is_native demo_order = False" by (simp add: demo_order_def)
  have l: "lamports (demo_order_ledger e) k \<le> 1000" for e k by (simp add: lamports_def demo_order_ledger_def)
  show ?thesis
    by (rule cancel_order_succeeds [OF demo_runtime_ok demo_runtime_live _ ac])
      (simp_all add: demo_order_exec_sel demo_cancel_order_def payable_def n t, rule room_1000,
        simp_all add: l card_insert_if)
qed

end
