(* ===== verification/Atomicity.thy ===== *)
theory Atomicity
  imports Liveness
begin

text \<open>
  The swap as a whole, for the taker: \<open>Swap\<close> says that a claim on the destination chain reveals
  the secret before the source cancellation time, \<open>Liveness\<close> that a claim with the secret cannot
  fail, \<open>SrcClaims\<close> what it pays.  What is missing is that the source escrow is still there: until
  its cancellation time nothing but a claim can have ended it, whatever anybody did in the
  meantime, if its public cancellation is not the earlier one.
\<close>

section \<open>Runs up to a time\<close>

text \<open>A run all of whose instructions are executed before the time \<open>T\<close>, with those instructions;
  other programs take part as in \<open>swap_run\<close>.\<close>

inductive run_before :: "runtime \<Rightarrow> u32 \<Rightarrow> ledger \<Rightarrow> instruction list \<Rightarrow> ledger \<Rightarrow> bool" for rt T L where
  start: "run_before rt T L [] L"
| execute: "run_before rt T L ixs L1 \<Longrightarrow> runtime_ok rt \<Longrightarrow> wf_ledger L1 \<Longrightarrow> process rt x i L1 = Inr L2
    \<Longrightarrow> program_accounts i \<inter> set (signers x) = {} \<Longrightarrow> now x < T \<Longrightarrow> run_before rt T L (ixs @ [i]) L2"
| outside: "run_before rt T L ixs L1 \<Longrightarrow> prog L2 = prog L1 \<Longrightarrow> wf_ledger L2
    \<Longrightarrow> (\<And>k. prog L1 k \<noteq> None \<Longrightarrow> lamports L1 k \<le> lamports L2 k) \<Longrightarrow> run_before rt T L ixs L2"

lemma run_before_swap_run: "run_before rt T L ixs L' \<Longrightarrow> \<exists>evs. swap_run rt L evs L'"
proof (induction rule: run_before.induct)
  case start
  show ?case using swap_run.start by blast
next
  case (execute ixs L1 x i L2)
  then have "executes rt i L1 L2" by (auto simp: executes_def)
  with execute.IH show ?case using swap_run.execute by blast
next
  case (outside ixs L1 L2)
  then show ?case using swap_run.outside by blast
qed

text \<open>The source escrow an instruction claims.\<close>

fun claimed_escrow :: "instruction \<Rightarrow> pubkey option" where
  "claimed_escrow (WithdrawIx a secret) = Some (SrcWithdraw.escrow a)"
| "claimed_escrow (PublicWithdrawIx a secret) = Some (SrcPublicWithdraw.escrow a)"
| "claimed_escrow _ = None"

text \<open>An event other than the end of an escrow leaves it as it is.\<close>

lemma book_apply_escrow:
  assumes "book_ok ev B" "B k = Some (EscrowSrcAcc e)" "ev \<noteq> EscrowGone k"
  shows "book_apply ev B k = Some (EscrowSrcAcc e)"
  using assms by (cases ev) (auto elim!: is_kindE split: option.splits ProgramData.splits)

text \<open>What ends an escrow before its cancellation time claims it.\<close>

lemma escrow_gone_claimed:
  assumes p: "process rt x i L = Inr L'" and ev: "event_of rt i L' = EscrowGone k"
    and e: "prog L k = Some (EscrowSrcAcc e)" "\<not> public_early e"
    and s: "get (Timelocks (U256 (es_timelocks e))) SrcCancellation = Inr s" "now x < s"
  shows "claimed_escrow i = Some k"
proof (rule ccontr)
  assume n: "claimed_escrow i \<noteq> Some k"
  from ev n p consider "src_cancels rt x k L L'" | "src_public_cancels rt x k L L'"
    unfolding src_cancels_def src_public_cancels_def
    by (cases "(rt, i, L')" rule: event_of.cases) auto
  then have "unat s \<le> unat (now x)"
  proof cases
    case 1
    from src_can_refund_le [OF src_cancelsD [OF 1 e(1)]] s(1) show ?thesis by (simp add: get_Inr_iff)
  next
    case 2
    from src_public_cancelsD [OF 2 e(1)] e(2) s(1) show ?thesis
      by (simp add: get_Inr_iff public_early_def word_less_nat_alt)
  qed
  with s(2) show False by (simp add: word_less_nat_alt)
qed

lemma open_until_claimed:
  assumes "run_before rt s L ixs L'" and e: "prog L k = Some (EscrowSrcAcc e)" "\<not> public_early e"
    and s: "get (Timelocks (U256 (es_timelocks e))) SrcCancellation = Inr s"
  shows "Some k \<in> claimed_escrow ` set ixs \<or> prog L' k = Some (EscrowSrcAcc e)"
  using assms(1)
proof (induction rule: run_before.induct)
  case start
  show ?case using e(1) by simp
next
  case (execute ixs L1 x i L2)
  have "book_ok (event_of rt i L2) (prog L1)" "prog L2 = book_apply (event_of rt i L2) (prog L1)"
    using process_implements [OF execute.hyps(2-5)] by (simp_all add: implements_def)
  moreover have "claimed_escrow i = Some k" if "event_of rt i L2 = EscrowGone k" "prog L1 k = Some (EscrowSrcAcc e)"
    using escrow_gone_claimed [OF execute.hyps(4) that e(2) s execute.hyps(6)] .
  ultimately have "claimed_escrow i = Some k \<or> prog L2 k = Some (EscrowSrcAcc e)" if "prog L1 k = Some (EscrowSrcAcc e)"
    using book_apply_escrow [of "event_of rt i L2" "prog L1" k e] that by metis
  with execute.IH show ?case by (auto simp: image_iff)
qed auto

section \<open>Atomicity\<close>

text \<open>The accounts of \<open>withdraw\<close> are in order: the declared constraints hold, the token accounts are of
  the escrow's mint and the balances fit into 64 bits.\<close>

definition withdraw_ready :: "runtime \<Rightarrow> exec \<Rightarrow> SrcWithdraw \<Rightarrow> ledger \<Rightarrow> bool" where
  "withdraw_ready rt y c N \<longleftrightarrow> program_id y = src_ID \<and> SrcWithdraw.taker c \<noteq> SrcWithdraw.escrow_ata c
     \<and> room {SrcWithdraw.escrow c, SrcWithdraw.escrow_ata c, SrcWithdraw.taker_ata c, SrcWithdraw.taker c} N
     \<and> (\<exists>ld. SrcWithdraw_accounts rt y c N = Inr ld
         \<and> transferable N (ld_mint ld) (SrcWithdraw.token_program c) (SrcWithdraw.escrow_ata c) (SrcWithdraw.taker_ata c))"

text \<open>C2: A swap is atomic for the taker.  Let a source escrow be open whose public cancellation
  does not start before its cancellation \<open>s\<close>, and let a destination escrow have been opened under its
  hashlock with a source cancellation time of at most \<open>s\<close>.  If anybody claims the destination escrow
  with a secret, that happens before \<open>s\<close>.  And whatever is executed on the source chain before \<open>s\<close>,
  afterwards the source escrow either has been claimed, for the taker, or is still open; and then at
  every time from its withdrawal time to \<open>s\<close> (if there is one, the delays being the maker's)
  \<open>withdraw\<close> with the secret succeeds and pays the taker all tokens of the escrow, its rent and its
  safety deposit, provided its accounts are in order (the taker has not rescued the tokens, for
  instance).\<close>

theorem swap_atomic_for_taker:
  assumes ok: "runtime_ok rt" and live: "runtime_live rt"
    and cr: "dst_create rt w a args L = Inr L1"
    and ns: "DstCreate.escrow a \<notin> set (signers w)" "DstCreate.escrow_ata a \<notin> set (signers w)"
    and cl: "dst_claims rt x (DstCreate.escrow a) secret M M'"
    and M: "prog M (DstCreate.escrow a) = prog L1 (DstCreate.escrow a)"
    and wf: "wf_ledger N0" "solvent rt N0" and e: "prog N0 (SrcWithdraw.escrow c) = Some (EscrowSrcAcc e)" "\<not> public_early e"
    and h: "es_hashlock e = da_hashlock args"
    and s: "get (Timelocks (U256 (es_timelocks e))) SrcCancellation = Inr s" "da_src_cancellation_timestamp args \<le> s"
    and v: "get (Timelocks (U256 (es_timelocks e))) SrcWithdrawal = Inr v"
    and run: "run_before rt s N0 ixs N"
  shows "now x < s \<and> (Some (SrcWithdraw.escrow c) \<in> claimed_escrow ` set ixs
    \<or> prog N (SrcWithdraw.escrow c) = Some (EscrowSrcAcc e)
      \<and> (\<forall>y. withdraw_ready rt y c N \<and> v \<le> now y \<and> now y < s
        \<longrightarrow> (\<exists>N'. src_withdraw rt y c secret N = Inr N'
          \<and> settled N N' (SrcWithdraw.escrow c) (SrcWithdraw.escrow_ata c)
              [(SrcWithdraw.taker_ata c, tokens N (SrcWithdraw.escrow_ata c))]
              [(SrcWithdraw.taker_ata c, backing N (SrcWithdraw.escrow_ata c)),
               (SrcWithdraw.taker c, lamports N (SrcWithdraw.escrow c) + lamports N (SrcWithdraw.escrow_ata c)
                  - backing N (SrcWithdraw.escrow_ata c))])))"
proof -
  note t = dst_claim_timely [OF ok cr ns cl M]
  have k: "keccak rt secret = es_hashlock e" using t h by simp
  from run_before_swap_run [OF run] obtain evs where sr: "swap_run rt N0 evs N" by blast
  note wfN = swap_run_wf [OF sr wf(1)] and svN = swap_run_solvent [OF sr wf(2)]
  have "\<exists>N'. src_withdraw rt y c secret N = Inr N' \<and> settled N N' (SrcWithdraw.escrow c) (SrcWithdraw.escrow_ata c)
      [(SrcWithdraw.taker_ata c, tokens N (SrcWithdraw.escrow_ata c))]
      [(SrcWithdraw.taker_ata c, backing N (SrcWithdraw.escrow_ata c)),
       (SrcWithdraw.taker c, lamports N (SrcWithdraw.escrow c) + lamports N (SrcWithdraw.escrow_ata c)
          - backing N (SrcWithdraw.escrow_ata c))]"
    if p: "prog N (SrcWithdraw.escrow c) = Some (EscrowSrcAcc e)" and rd: "withdraw_ready rt y c N"
      and y: "v \<le> now y" "now y < s" for y
  proof -
    from rd obtain ld where ac: "SrcWithdraw_accounts rt y c N = Inr ld" and r: "program_id y = src_ID"
      "transferable N (ld_mint ld) (SrcWithdraw.token_program c) (SrcWithdraw.escrow_ata c) (SrcWithdraw.taker_ata c)"
      "SrcWithdraw.taker c \<noteq> SrcWithdraw.escrow_ata c"
      "room {SrcWithdraw.escrow c, SrcWithdraw.escrow_ata c, SrcWithdraw.taker_ata c, SrcWithdraw.taker c} N"
      by (auto simp: withdraw_ready_def)
    have l: "ld_state ld = e" using ac p by (auto simp: SrcWithdraw_accounts_def res_simps)
    have "in_window (now y) (Timelocks (U256 (es_timelocks (ld_state ld)))) SrcWithdrawal SrcCancellation = Inr True"
      using s(1) v y by (simp add: in_window_def l)
    then obtain N' where r: "src_withdraw rt y c secret N = Inr N'"
      using src_withdraw_succeeds [OF ok live wfN svN r(1) ac _ _ r(2-4)] k l by blast
    from src_withdraw_settles [OF ok wfN r] r show ?thesis by blast
  qed
  then show ?thesis using open_until_claimed [OF run e s(1)] t s(2) by fastforce
qed

section \<open>Examples\<close>

theorem swap_atomic_for_taker_witness:
  "now (demo_dst_exec 1015) < 1030 \<and> (\<exists>N'. src_withdraw demo_runtime (demo_exec 1016) demo_withdraw [41]
      (demo_ledger demo_escrow) = Inr N'
    \<and> settled (demo_ledger demo_escrow) N' demo_escrow_key (200 # demo_escrow_key @ [6])
        [([200, 12, 6], 100)] [([200, 12, 6], 0), ([12], 2000)])"
proof -
  obtain L1 M' where cr: "dst_create demo_runtime (demo_dst_exec 1000) demo_dst_create demo_dst_args
      demo_dst_maker_ledger = Inr L1" and
    M: "prog demo_dst_ledger (DstCreate.escrow demo_dst_create) = prog L1 (DstCreate.escrow demo_dst_create)" and
    cl: "dst_claims demo_runtime (demo_dst_exec 1015) (DstCreate.escrow demo_dst_create) [41] demo_dst_ledger M'"
    by (rule demo_dst_claimed)
  let ?ld = "\<lparr>ld_state = demo_escrow, ld_mint = ([6], \<lparr>m_decimals = 9, m_program = [2]\<rparr>),
    ld_ata = (200 # demo_escrow_key @ [6], demo_account demo_escrow_key 100), ld_dest = Some ([200, 12, 6], demo_account [12] 1)\<rparr>"
  note k = demo_withdraw_sel
  have ac: "SrcWithdraw_accounts demo_runtime (demo_exec 1016) demo_withdraw (demo_ledger demo_escrow) = Inr ?ld"
    by (simp add: SrcWithdraw_accounts_def demo_withdraw_def demo_run_simps)
  have "room {SrcWithdraw.escrow demo_withdraw, SrcWithdraw.escrow_ata demo_withdraw,
      SrcWithdraw.taker_ata demo_withdraw, SrcWithdraw.taker demo_withdraw} (demo_ledger demo_escrow)"
    by (rule room_1000) (simp_all add: k demo_balances card_insert_if)
  then have rd: "withdraw_ready demo_runtime (demo_exec 1016) demo_withdraw (demo_ledger demo_escrow)"
    by (simp add: withdraw_ready_def ac demo_transferable k demo_exec_sel)
  have h: "es_hashlock demo_escrow = da_hashlock demo_dst_args"
    and s: "get (Timelocks (U256 (es_timelocks demo_escrow))) SrcCancellation = Inr 1030"
      "da_src_cancellation_timestamp demo_dst_args \<le> 1030"
    and v: "get (Timelocks (U256 (es_timelocks demo_escrow))) SrcWithdrawal = Inr 1010"
    by (simp_all add: demo_escrow_def demo_dst_args_def demo_get)
  have e: "prog (demo_ledger demo_escrow) (SrcWithdraw.escrow demo_withdraw) = Some (EscrowSrcAcc demo_escrow)"
    unfolding k(2) by (rule demo_balances(4))
  have n: "(1010 :: u32) \<le> now (demo_exec 1016)" "now (demo_exec 1016) < 1030" by (simp_all add: demo_now)
  from swap_atomic_for_taker [OF demo_runtime_ok demo_runtime_live cr demo_dst_signers cl M demo_ledger_wf demo_solvent e
      demo_not_public_early h s v run_before.start] rd n
  have "now (demo_dst_exec 1015) < 1030 \<and> (\<exists>N'. src_withdraw demo_runtime (demo_exec 1016) demo_withdraw [41]
      (demo_ledger demo_escrow) = Inr N'
    \<and> settled (demo_ledger demo_escrow) N' (SrcWithdraw.escrow demo_withdraw) (SrcWithdraw.escrow_ata demo_withdraw)
        [(SrcWithdraw.taker_ata demo_withdraw, tokens (demo_ledger demo_escrow) (SrcWithdraw.escrow_ata demo_withdraw))]
        [(SrcWithdraw.taker_ata demo_withdraw, backing (demo_ledger demo_escrow) (SrcWithdraw.escrow_ata demo_withdraw)),
         (SrcWithdraw.taker demo_withdraw, lamports (demo_ledger demo_escrow) (SrcWithdraw.escrow demo_withdraw)
            + lamports (demo_ledger demo_escrow) (SrcWithdraw.escrow_ata demo_withdraw)
            - backing (demo_ledger demo_escrow) (SrcWithdraw.escrow_ata demo_withdraw))])" by fastforce
  then show ?thesis by (simp add: k demo_balances)
qed

end
