(* ===== verification/FillLiveness.thy ===== *)
theory FillLiveness
  imports Liveness
begin

text \<open>
  That \<open>create_escrow\<close> accepts every fill its checks allow.  \<open>SrcFills\<close> says that a fill which
  succeeds has passed the checks \<open>fill_accepted\<close>; here is the converse, for accounts in order.
\<close>

text \<open>The order's tokens can be moved once the escrow's accounts are set up in \<open>L1\<close>.\<close>

definition fill_ready :: "CreateEscrow \<Rightarrow> u64 \<Rightarrow> ledger \<Rightarrow> ledger \<Rightarrow> mint_ref \<Rightarrow> bool" where
  "fill_ready a amount L L1 m \<longleftrightarrow>
     transferable L1 m (CreateEscrow.token_program a) (CreateEscrow.order_ata a) (CreateEscrow.escrow_ata a)
     \<and> unat amount \<le> tokens L (CreateEscrow.order_ata a) \<and> room (fill_touches a) L
     \<and> CreateEscrow.maker a \<noteq> CreateEscrow.order a \<and> CreateEscrow.maker a \<noteq> CreateEscrow.order_ata a"

text \<open>The end of the handler succeeds, if a closing order's account has been emptied.\<close>

lemma close_or_reduce_live:
  assumes ok: "runtime_ok rt" and live: "runtime_live rt"
    and t: "tok L (CreateEscrow.order_ata a) = Some t" "order_closes ord amount \<longrightarrow> ta_amount t = 0"
    and amt: "order_closes ord amount \<or> amount \<le> o_remaining_amount ord"
    and sg: "CreateEscrow.order a \<in> set (cpi_signers rt x (Some [order_signer_seeds ord]))"
    and m: "CreateEscrow.maker a \<noteq> CreateEscrow.order a" "CreateEscrow.maker a \<noteq> CreateEscrow.order_ata a"
    and K: "room (fill_touches a) L"
  shows "\<exists>L'. close_or_reduce rt x a ord amount L = Inr L'"
proof (cases "order_closes ord amount")
  case True
  have k: "CreateEscrow.order a \<in> fill_touches a" "CreateEscrow.order_ata a \<in> fill_touches a"
    "CreateEscrow.maker a \<in> fill_touches a" by (simp_all add: fill_touches_def)
  from close_token_live [OF live t(1) _ sg m(2) K k(2,3)] t(2) True obtain L1 where
    c: "close_token_account rt (cpi_signers rt x (Some [order_signer_seeds ord])) (CreateEscrow.token_program a)
      (CreateEscrow.order_ata a) (CreateEscrow.maker a) (CreateEscrow.order a) L = Inr L1" by blast
  note ec = close_token_account_effect [OF runtime_okD(3) [OF ok c]]
  have "room (fill_touches a) L1" by (rule room_shifted [OF K ec(4) k(2,3)])
  from close_program_live [OF live m(1) this k(1,3)] c True show ?thesis
    by (auto simp: close_or_reduce_def order_closes_def)
next
  case False
  with amt show ?thesis by (simp add: close_or_reduce_def order_closes_def sub_u_def word_le_nat_alt)
qed

lemma create_escrow_live:
  assumes ok: "runtime_ok rt" and live: "runtime_live rt" and bw: "books_wf (prog L)" and id: "program_id x = src_ID"
    and ac: "CreateEscrow_accounts rt x a amount mp L = Inr (L1, m, ord, oa, bump)"
    and rd: "fill_ready a amount L L1 m" and fa: "fill_accepted rt x ord amount mp auction hashlock dst"
  shows "\<exists>L'. create_escrow rt x a amount mp auction L = Inr L'"
proof -
  let ?oa = "CreateEscrow.order_ata a" and ?ea = "CreateEscrow.escrow_ata a" and ?o = "CreateEscrow.order a"
  let ?amt = "if o_remaining_amount ord = amount then ta_amount (snd oa) else amount"
  let ?L3 = "\<lambda>L2. set_data (CreateEscrow.escrow a)
    (EscrowSrcAcc (new_escrow x ord (CreateEscrow.taker a) amount hashlock dst bump)) L2"
  note ea = CreateEscrow_accounts_effect [OF ok ac]
  have k: "?oa \<in> fill_touches a" "?ea \<in> fill_touches a" by (simp_all add: fill_touches_def)
  have tr: "transferable L1 m (CreateEscrow.token_program a) ?oa ?ea" using rd by (simp add: fill_ready_def)
  have sg: "?o \<in> set (cpi_signers rt x (Some [order_signer_seeds ord]))"
    by (rule cpi_signers_pda) (simp add: id order_signer_seeds_def ea(20))
  have l1: "tokens L1 ?oa = unat (ta_amount (snd oa))" "tokens L ?oa = unat (ta_amount (snd oa))"
    using ea(10,11) by (simp_all add: tokens_def)
  have K1: "room (fill_touches a) L1" using rd ea(17) by (auto simp: fill_ready_def intro: room_conserved)
  have "unat ?amt \<le> tokens L1 ?oa" using rd l1 by (simp add: fill_ready_def)
  then obtain L2 where u: "uni_transfer rt x (TokenTransfer ?oa ?o ?ea m ?amt (CreateEscrow.token_program a))
      (Some [order_signer_seeds ord]) L1 = Inr L2"
    using transfer_live [OF live tr sg _ K1 k] by blast
  note eu = token_transfer_effect [OF ok u]
  have K2: "room (fill_touches a) (?L3 L2)"
    using room_shifted [OF K1 eu(7) [OF ea(11)] k] by (simp add: room_def lamports_def)
  from statics_SomeD [OF eu(2) ea(11)] obtain t where t: "tok L2 ?oa = Some t" by blast
  have o: "order_wf ord" using books_wfD [OF bw ea(3)] by simp
  have cl: "order_closes ord amount \<longrightarrow> o_remaining_amount ord = amount"
    using fa o by (auto simp: order_closes_def fill_accepted_def order_wf_def)
  have "ta_amount t = 0" if "order_closes ord amount"
  proof -
    have "tokens L2 ?oa = 0" using eu(1) l1(1) cl that ea(12) by (simp add: shifted_def)
    then show ?thesis using t by (simp add: tokens_def unat_eq_0)
  qed
  moreover have "order_closes ord amount \<or> amount \<le> o_remaining_amount ord"
    using fa by (auto simp: fill_accepted_def order_closes_def)
  ultimately obtain L' where "close_or_reduce rt x a ord amount (?L3 L2) = Inr L'"
    using close_or_reduce_live [OF ok live, of "?L3 L2" a t ord amount x] t sg rd K2 by (auto simp: fill_ready_def)
  with ac fa u id show ?thesis
    by (auto simp: create_escrow_def fill_accepted_def check_entry_def require_def Let_def simp del: uni_transfer.simps)
qed

text \<open>C10: \<open>create_escrow\<close> and the books.  When it succeeds, a whitelisted taker has filled an open
  order with a fill its checks allow (\<open>fill_accepted\<close>: in time, of an allowed amount, with the
  auction the order commits to and, for orders that allow several fills, a Merkle proof of a fresh
  secret); the escrow recorded at the address of its parameters carries the order's terms, the
  hashlock and the destination amount of this fill, and the order loses exactly the amount filled,
  and disappears when nothing remains.  Conversely it succeeds for every fill its checks allow, once
  its accounts are set up and in order.\<close>

theorem create_escrow_correct:
  assumes "runtime_ok rt" "wf_ledger L" "CreateEscrow.escrow a \<notin> set (signers x)"
  shows "(\<forall>L'. create_escrow rt x a amount mp auction L = Inr L' \<longrightarrow>
      (\<exists>ord hashlock dst bump. prog L (CreateEscrow.order a) = Some (OrderAcc ord)
        \<and> CreateEscrow.taker a \<in> set (signers x)
        \<and> has_access rt L src_ID (CreateEscrow.taker a) (CreateEscrow.resolver_access a)
        \<and> fill_accepted rt x ord amount mp auction hashlock dst
        \<and> find_program_address rt (escrow_seeds (o_order_hash ord) hashlock (CreateEscrow.taker a) amount) src_ID
            = (CreateEscrow.escrow a, bump)
        \<and> no_data L (CreateEscrow.escrow a)
        \<and> prog L' = (prog L)(CreateEscrow.escrow a \<mapsto>
            EscrowSrcAcc (new_escrow x ord (CreateEscrow.taker a) amount hashlock dst bump),
            CreateEscrow.order a := order_after ord amount)))
    \<and> (\<forall>L1 m ord oa bump hashlock dst. runtime_live rt \<and> books_wf (prog L) \<and> program_id x = src_ID
        \<and> CreateEscrow_accounts rt x a amount mp L = Inr (L1, m, ord, oa, bump) \<and> fill_ready a amount L L1 m
        \<and> fill_accepted rt x ord amount mp auction hashlock dst \<longrightarrow>
      (\<exists>L'. create_escrow rt x a amount mp auction L = Inr L'))"
  by (intro conjI allI impI create_escrow_books [OF assms(1,2) _ assms(3)])
    (assumption, elim conjE, rule create_escrow_live [OF assms(1)])

section \<open>Examples\<close>

text \<open>The example after the accounts of the new escrow have been set up; all rents are paid already.\<close>

definition demo_fill_ledger :: ledger where
  "demo_fill_ledger = (demo_order_ledger demo_fill_order)
     \<lparr>tok := (tok (demo_order_ledger demo_fill_order))(200 # demo_fill_key @ [6] \<mapsto> demo_order_account demo_fill_key 0),
      prog := (prog (demo_order_ledger demo_fill_order))(demo_fill_key \<mapsto> EscrowSrcAcc zero_EscrowSrc)\<rparr>"

lemma demo_fill_accounts:
  "CreateEscrow_accounts demo_runtime (demo_order_exec 1000) demo_fill 100 None (demo_order_ledger demo_fill_order)
    = Inr (demo_fill_ledger, ([6], \<lparr>m_decimals = 9, m_program = [2]\<rparr>), demo_fill_order,
        (200 # demo_order_key @ [6], demo_order_account demo_order_key 100), 255)"
  by (simp add: CreateEscrow_accounts_def demo_fill_def init_data_def init_if_needed_ata_def demo_fill_ledger_def
      get_escrow_hashlock_def demo_fill_order_sel demo_fill_keys demo_fill_keys [symmetric] demo_fill_key_def [symmetric]
      demo_order_simps)

lemma demo_fill_ready:
  "fill_ready demo_fill 100 (demo_order_ledger demo_fill_order) demo_fill_ledger ([6], \<lparr>m_decimals = 9, m_program = [2]\<rparr>)"
proof -
  have "transferable demo_fill_ledger ([6], \<lparr>m_decimals = 9, m_program = [2]\<rparr>) [2] (200 # demo_order_key @ [6])
      (200 # demo_fill_key @ [6])"
    by (simp add: transferable_def of_mint_def demo_fill_ledger_def demo_order_ledger_def demo_order_account_def tokens_def
        backed_at_def demo_order_key_def demo_fill_keys demo_fill_keys [symmetric])
  moreover have "room (fill_touches demo_fill) (demo_order_ledger demo_fill_order)"
    by (rule room_1000) (simp_all add: fill_touches_def lamports_def demo_order_ledger_def card_insert_if)
  ultimately show ?thesis
    by (simp add: fill_ready_def demo_fill_def tokens_def demo_order_ledger_def demo_order_account_def demo_order_key_def)
qed

theorem create_escrow_correct_witness:
  "\<exists>L' hashlock dst bump. create_escrow demo_runtime (demo_order_exec 1000) demo_fill 100 None sample_auction
      (demo_order_ledger demo_fill_order) = Inr L'
    \<and> prog L' = (prog (demo_order_ledger demo_fill_order))(demo_fill_key \<mapsto>
        EscrowSrcAcc (new_escrow (demo_order_exec 1000) demo_fill_order (CreateEscrow.taker demo_fill) 100 hashlock dst bump),
        demo_order_key := None)"
proof -
  let ?L = "demo_order_ledger demo_fill_order"
  have s: "CreateEscrow.escrow demo_fill \<notin> set (signers (demo_order_exec 1000))"
    unfolding demo_fill_sel(2) by (rule demo_fill_sel(5))
  have bw: "books_wf (prog ?L)" by (simp add: books_wf_def demo_order_ledger_def order_wf_def demo_fill_order_def demo_order_def)
  note c = create_escrow_correct [OF demo_runtime_ok demo_order_ledger_wf [of demo_fill_order] s, of 100 None sample_auction]
  obtain dst where f: "fill_accepted demo_runtime (demo_order_exec 1000) demo_fill_order 100 None sample_auction [41] dst"
    using demo_fill_accepted(1) by blast
  obtain L' where r: "create_escrow demo_runtime (demo_order_exec 1000) demo_fill 100 None sample_auction ?L = Inr L'"
    using conjunct2 [OF c] demo_runtime_live bw demo_fill_accounts demo_fill_ready f demo_order_exec_sel(1) by blast
  have "order_after demo_fill_order 100 = None"
    by (simp add: order_after_def order_closes_def demo_fill_order_sel)
  with conjunct1 [OF c] r have "\<exists>hashlock dst bump. prog L' = (prog ?L)(demo_fill_key \<mapsto>
        EscrowSrcAcc (new_escrow (demo_order_exec 1000) demo_fill_order (CreateEscrow.taker demo_fill) 100 hashlock dst bump),
        demo_order_key := None)"
    by (auto simp: demo_fill_sel demo_order_facts(1))
  with r show ?thesis by blast
qed

end
