(* ===== verification/RescueLiveness.thy ===== *)
theory RescueLiveness
  imports Liveness Exclusion
begin

text \<open>
  What a rescue can do to an escrow that is still open.  The theorems of \<open>SrcRescue\<close> and
  \<open>DstOpening\<close> say what a rescue did if it succeeded; here it is shown that it does succeed once
  the rescue delay has passed, whatever the stages of the escrow say: on the source chain the
  taker gets the tokens without the secret, on the destination chain the creator gets everything
  back.  These are the exceptions of \<open>Exclusion\<close>.
\<close>

text \<open>The bump found with an address is the one that creates it.\<close>

definition finds_canonical :: "runtime \<Rightarrow> bool" where
  "finds_canonical rt \<longleftrightarrow> (\<forall>s p k b. find_program_address rt s p = (k, b) \<longrightarrow> create_program_address rt (s @ [[b]]) p = Some k)"

lemma rescue_funds_live:
  assumes ok: "runtime_ok rt" and live: "runtime_live rt" and st: "start = None \<or> the start \<le> now x"
    and ea: "tok L (fst ea) = Some (snd ea)" and tr: "transferable L m p (fst ea) (fst ra)"
    and sg: "create_program_address rt seeds (program_id x) = Some es"
    and rcp: "rcp \<noteq> fst ea" and K: "room {fst ea, fst ra, rcp} L"
  shows "\<exists>L'. rescue_funds rt x es start ea rcp ra m p (ta_amount (snd ea)) seeds L = Inr L'"
proof -
  obtain L1 L2 where
    "uni_transfer rt x (TokenTransfer (fst ea) es (fst ra) m (ta_amount (snd ea)) p) (Some [seeds]) L = Inr L1"
    "close_token_account rt (cpi_signers rt x (Some [seeds])) p (fst ea) rcp es L1 = Inr L2"
    by (rule withdraw_and_close_live [OF ok live ea tr cpi_signers_pda [OF sg] rcp K subset_refl])
  then show ?thesis using st
    by (cases start) (simp_all add: rescue_funds_def require_def del: uni_transfer.simps)
qed

lemma rescue_start_passed:
  "unat (deployed_at w) + unat RESCUE_DELAY \<le> unat (t :: u32) \<Longrightarrow>
    \<exists>s. rescue_start (Timelocks w) RESCUE_DELAY = Inr s \<and> s \<le> t"
proof -
  assume a: "unat (deployed_at w) + unat RESCUE_DELAY \<le> unat t"
  moreover have "unat t < 2 ^ 32" using unat_less_2p [of t] by simp
  ultimately have "unat (deployed_at w + RESCUE_DELAY) = unat (deployed_at w) + unat RESCUE_DELAY"
    by (simp add: unat_add_ok)
  with a show ?thesis by (intro exI [where x = "deployed_at w + RESCUE_DELAY"]) (simp add: rescue_start_Inr_iff word_le_nat_alt)
qed

text \<open>A rescue of everything leaves nothing.\<close>

lemma rescued_all:
  assumes "rescued L L' ea dest rcp (tokens L ea)" "ea \<noteq> dest"
  shows "prog L' = prog L" "tok L' ea = None" "tokens L' dest = tokens L dest + tokens L ea"
    and "lamports L' = settle (lamports L) [ea] [(dest, backing L ea), (rcp, lamports L ea - backing L ea)]"
proof -
  show "prog L' = prog L" "tokens L' dest = tokens L dest + tokens L ea"
    "lamports L' = settle (lamports L) [ea] [(dest, backing L ea), (rcp, lamports L ea - backing L ea)]"
    using assms by (simp_all add: rescued_def)
  have "statics L' ea = None" using assms by (simp add: rescued_def)
  then show "tok L' ea = None" by (simp add: statics_def)
qed

text \<open>C40: A rescue takes the assets of an open source escrow.  Once the rescue delay has passed since
  its deployment, and whatever its stages, \<open>rescue_funds_for_escrow\<close> of the whole balance succeeds
  and gives the taker all tokens of the escrow and closes its token account: no secret is asked for, nobody
  has to cancel, and the escrow account stays behind empty.  So the maker of an escrow with a
  cancellation later than the rescue delay can lose the tokens without the swap having happened.\<close>

theorem rescue_takes_open_escrow:
  assumes ok: "runtime_ok rt" and live: "runtime_live rt" and fc: "finds_canonical rt" and id: "program_id x = src_ID"
    and ac: "RescueFundsForEscrow_accounts rt x a order_hash hashlock amount L = Inr rr"
    and ns: "RescueFundsForEscrow.escrow a \<notin> set (signers x)"
    and e: "prog L (RescueFundsForEscrow.escrow a) = Some (EscrowSrcAcc e)"
    and t: "unat (deployed_at (U256 (es_timelocks e))) + unat RESCUE_DELAY \<le> unat (now x)"
    and tr: "transferable L (rr_mint rr) (RescueFundsForEscrow.token_program a) (RescueFundsForEscrow.escrow_ata a)
      (RescueFundsForEscrow.taker_ata a)"
    and n: "RescueFundsForEscrow.taker a \<noteq> RescueFundsForEscrow.escrow_ata a"
    and K: "room {RescueFundsForEscrow.escrow_ata a, RescueFundsForEscrow.taker_ata a, RescueFundsForEscrow.taker a} L"
  shows "\<exists>L'. rescue_funds_for_escrow rt x a order_hash hashlock amount (ta_amount (snd (rr_ata rr))) L = Inr L'
    \<and> prog L' (RescueFundsForEscrow.escrow a) = Some (EscrowSrcAcc e) \<and> tok L' (RescueFundsForEscrow.escrow_ata a) = None
    \<and> tokens L' (RescueFundsForEscrow.taker_ata a)
        = tokens L (RescueFundsForEscrow.taker_ata a) + tokens L (RescueFundsForEscrow.escrow_ata a)"
proof -
  let ?e = "RescueFundsForEscrow.escrow a" and ?t = "RescueFundsForEscrow.taker a"
  from ac have l: "find_program_address rt (escrow_seeds order_hash hashlock ?t amount) src_ID = (?e, rr_bump rr)"
      "fst (rr_ata rr) = RescueFundsForEscrow.escrow_ata a" "tok L (fst (rr_ata rr)) = Some (snd (rr_ata rr))"
      "fst (rr_dest rr) = RescueFundsForEscrow.taker_ata a"
    by (auto simp: RescueFundsForEscrow_accounts_def res_simps)
  have sg: "create_program_address rt (escrow_seeds order_hash hashlock ?t amount @ [[rr_bump rr]]) (program_id x) = Some ?e"
    using fc l(1) unfolding finds_canonical_def id by blast
  obtain s where s: "escrow_rescue_start L ?e = Inr (Some s)" "s \<le> now x"
    using rescue_start_passed [OF t] e by (auto simp: escrow_rescue_start_def no_data_def)
  obtain L' where "rescue_funds rt x ?e (Some s) (rr_ata rr) ?t (rr_dest rr) (rr_mint rr)
      (RescueFundsForEscrow.token_program a) (ta_amount (snd (rr_ata rr)))
      (escrow_seeds order_hash hashlock ?t amount @ [[rr_bump rr]]) L = Inr L'"
    using rescue_funds_live [OF ok live _ l(3) _ sg, where start = "Some s" and rcp = ?t and ra = "rr_dest rr"
        and m = "rr_mint rr" and p = "RescueFundsForEscrow.token_program a"] s(2) tr n K l by auto
  then have r: "rescue_funds_for_escrow rt x a order_hash hashlock amount (ta_amount (snd (rr_ata rr))) L = Inr L'"
    using ac s(1) id by (simp add: rescue_funds_for_escrow_def check_entry_def require_def Let_def)
  have b: "unat (ta_amount (snd (rr_ata rr))) = tokens L (RescueFundsForEscrow.escrow_ata a)"
    using tokens_SomeI [OF l(3)] l(2) by simp
  have "rescued L L' (RescueFundsForEscrow.escrow_ata a) (RescueFundsForEscrow.taker_ata a) ?t
      (tokens L (RescueFundsForEscrow.escrow_ata a))"
    using rescue_funds_for_escrow_rescues [OF ok r ns] b by simp
  note a = rescued_all [OF this]
  have "RescueFundsForEscrow.escrow_ata a \<noteq> RescueFundsForEscrow.taker_ata a" using tr by (simp add: transferable_def)
  with a r e show ?thesis by auto
qed

text \<open>On the destination chain a rescue of the whole balance returns the assets of an open escrow to
  its creator.  A native escrow holds its assets as lamports that \<open>create\<close> does not synchronise: the
  balance can be zero, and a rescue of nothing closes the account and pays out all of them.\<close>

theorem dst_rescue_takes_open_escrow:
  assumes ok: "runtime_ok rt" and live: "runtime_live rt" and fc: "finds_canonical rt" and id: "program_id x = dst_ID"
    and ac: "DstRescueFunds_accounts rt x a order_hash hashlock amount L = Inr (m, ea, ca, bump)"
    and ns: "DstRescueFunds.escrow a \<notin> set (signers x)"
    and e: "prog L (DstRescueFunds.escrow a) = Some (EscrowDstAcc e)"
    and t: "unat (deployed_at (U256 (ed_timelocks e))) + unat RESCUE_DELAY \<le> unat (now x)"
    and tr: "transferable L m (DstRescueFunds.token_program a) (DstRescueFunds.escrow_ata a) (DstRescueFunds.creator_ata a)"
    and n: "DstRescueFunds.creator a \<noteq> DstRescueFunds.escrow_ata a"
    and K: "room {DstRescueFunds.escrow_ata a, DstRescueFunds.creator_ata a, DstRescueFunds.creator a} L"
  shows "\<exists>L'. dst_rescue_funds rt x a order_hash hashlock amount (ta_amount (snd ea)) L = Inr L'
    \<and> prog L' (DstRescueFunds.escrow a) = Some (EscrowDstAcc e) \<and> tok L' (DstRescueFunds.escrow_ata a) = None
    \<and> tokens L' (DstRescueFunds.creator_ata a)
        = tokens L (DstRescueFunds.creator_ata a) + tokens L (DstRescueFunds.escrow_ata a)
    \<and> lamports L' = settle (lamports L) [DstRescueFunds.escrow_ata a]
        [(DstRescueFunds.creator_ata a, backing L (DstRescueFunds.escrow_ata a)),
         (DstRescueFunds.creator a, lamports L (DstRescueFunds.escrow_ata a) - backing L (DstRescueFunds.escrow_ata a))]"
proof -
  let ?e = "DstRescueFunds.escrow a" and ?c = "DstRescueFunds.creator a"
  from ac have l: "find_program_address rt (escrow_seeds order_hash hashlock ?c amount) dst_ID = (?e, bump)"
      "fst ea = DstRescueFunds.escrow_ata a" "tok L (fst ea) = Some (snd ea)" "fst ca = DstRescueFunds.creator_ata a"
    by (auto simp: DstRescueFunds_accounts_def res_simps)
  have sg: "create_program_address rt (escrow_seeds order_hash hashlock ?c amount @ [[bump]]) (program_id x) = Some ?e"
    using fc l(1) unfolding finds_canonical_def id by blast
  obtain s where s: "dst_rescue_start L ?e = Inr (Some s)" "s \<le> now x"
    using rescue_start_passed [OF t] e by (auto simp: dst_rescue_start_def no_data_def)
  obtain L' where "rescue_funds rt x ?e (Some s) ea ?c ca m (DstRescueFunds.token_program a) (ta_amount (snd ea))
      (escrow_seeds order_hash hashlock ?c amount @ [[bump]]) L = Inr L'"
    using rescue_funds_live [OF ok live _ l(3) _ sg, where start = "Some s" and rcp = ?c and ra = ca
        and m = m and p = "DstRescueFunds.token_program a"] s(2) tr n K l by auto
  then have r: "dst_rescue_funds rt x a order_hash hashlock amount (ta_amount (snd ea)) L = Inr L'"
    using ac s(1) id by (simp add: dst_rescue_funds_def check_entry_def require_def Let_def)
  have b: "unat (ta_amount (snd ea)) = tokens L (DstRescueFunds.escrow_ata a)" using tokens_SomeI [OF l(3)] l(2) by simp
  have "rescued L L' (DstRescueFunds.escrow_ata a) (DstRescueFunds.creator_ata a) ?c (tokens L (DstRescueFunds.escrow_ata a))"
    using dst_rescue_funds_rescues [OF ok r ns] b by simp
  note a = rescued_all [OF this]
  have "DstRescueFunds.escrow_ata a \<noteq> DstRescueFunds.creator_ata a" using tr by (simp add: transferable_def)
  with a r e show ?thesis by auto
qed

section \<open>Examples\<close>

text \<open>The example escrow with a cancellation from 1401000, after the rescue delay: at 692200 it can be
  claimed with the secret and rescued without.\<close>

definition late_timelocks :: u64x4 where
  "late_timelocks = (85899345930, 6442450945400000, 0, 4294967296000)"

definition late_escrow :: EscrowSrc where
  "late_escrow = demo_escrow\<lparr>es_timelocks := late_timelocks\<rparr>"

lemma late_get:
  "get (Timelocks (U256 late_timelocks)) SrcWithdrawal = Inr 1010"
  "get (Timelocks (U256 late_timelocks)) SrcCancellation = Inr 1401000"
  "deployed_at (U256 late_timelocks) = 1000"
  by (simp_all add: get_Inr_iff late_timelocks_def deployed_at_U256 delta_U256 drop_bit_eq_div del: U256.simps)

lemma demo_finds_canonical: "finds_canonical demo_runtime"
  by (simp add: finds_canonical_def)

theorem rescue_takes_open_escrow_witness:
  "src_can_claim late_escrow (now (demo_exec 692200))
    \<and> (\<exists>L'. rescue_funds_for_escrow demo_runtime (demo_exec 692200) demo_rescue [31] [41] 100 100
        (demo_ledger late_escrow) = Inr L' \<and> tokens L' [200, 12, 6] = 101)"
proof -
  let ?rr = "\<lparr>rr_mint = ([6], \<lparr>m_decimals = 9, m_program = [2]\<rparr>),
    rr_ata = (200 # demo_escrow_key @ [6], demo_account demo_escrow_key 100),
    rr_dest = ([200, 12, 6], demo_account [12] 1), rr_bump = 255\<rparr>"
  have k: "RescueFundsForEscrow.taker demo_rescue = [12]" "RescueFundsForEscrow.escrow demo_rescue = demo_escrow_key"
    "RescueFundsForEscrow.escrow_ata demo_rescue = 200 # demo_escrow_key @ [6]"
    "RescueFundsForEscrow.taker_ata demo_rescue = [200, 12, 6]" "RescueFundsForEscrow.token_program demo_rescue = [2]"
    by (simp_all add: demo_rescue_def)
  have c: "src_can_claim late_escrow (now (demo_exec 692200))"
    by (simp add: src_can_claim_def in_window_def late_escrow_def late_get demo_now)
  have ac: "RescueFundsForEscrow_accounts demo_runtime (demo_exec 692200) demo_rescue [31] [41] 100
      (demo_ledger late_escrow) = Inr ?rr"
    by (simp add: RescueFundsForEscrow_accounts_def find_pda_def demo_rescue_def demo_run_simps)
  have ns: "RescueFundsForEscrow.escrow demo_rescue \<notin> set (signers (demo_exec 692200))"
    by (simp add: k demo_exec_sel demo_keys)
  have e: "prog (demo_ledger late_escrow) (RescueFundsForEscrow.escrow demo_rescue) = Some (EscrowSrcAcc late_escrow)"
    unfolding k(2) by (rule demo_balances(4))
  have t: "unat (deployed_at (U256 (es_timelocks late_escrow))) + unat RESCUE_DELAY \<le> unat (now (demo_exec 692200))"
    by (simp add: late_escrow_def late_get RESCUE_DELAY_def demo_now)
  have K: "room {RescueFundsForEscrow.escrow_ata demo_rescue, RescueFundsForEscrow.taker_ata demo_rescue,
      RescueFundsForEscrow.taker demo_rescue} (demo_ledger late_escrow)"
    by (rule room_1000) (simp_all add: k demo_balances card_insert_if)
  have b: "tokens (demo_ledger late_escrow) [200, 12, 6] = 1"
    by (simp add: tokens_def demo_ledger_def demo_account_def demo_keys demo_keys [symmetric])
  from rescue_takes_open_escrow [OF demo_runtime_ok demo_runtime_live demo_finds_canonical _ ac ns e t _ _ K] c
  show ?thesis by (simp add: k demo_exec_sel demo_transferable demo_balances b demo_account_def) blast
qed

end
