(* ===== verification/Spec2Isabelle.thy ===== *)
theory Spec2Isabelle
  imports Atomicity FillLiveness RescueLiveness MerkleTree DstAmount
begin

text \<open>
  A verification library for the Solana programs of this repository: a cross-chain swap by
  hash-time-locked escrows.

  \<^bold>\<open>The programs.\<close>  A maker places an order on the source chain; whitelisted takers fill it, each
  fill opening an escrow of the source program; for each of them the taker opens an escrow of the
  destination program under the same hashlock.  Who knows the secret claims both; if nobody does,
  both are refunded after their timelocks.  Three programs take part:
  \<^item> \<open>programs/cross-chain-escrow-src\<close>: \<open>create\<close>, \<open>create_escrow\<close>, \<open>withdraw\<close>, \<open>public_withdraw\<close>,
    \<open>cancel_escrow\<close>, \<open>public_cancel_escrow\<close>, \<open>cancel_order\<close>, \<open>cancel_order_by_resolver\<close>,
    \<open>rescue_funds_for_escrow\<close>, \<open>rescue_funds_for_order\<close>; with \<open>auction.rs\<close>, \<open>merkle_tree.rs\<close> and
    \<open>utils.rs\<close>;
  \<^item> \<open>programs/cross-chain-escrow-dst\<close>: \<open>create\<close>, \<open>withdraw\<close>, \<open>public_withdraw\<close>, \<open>cancel\<close>,
    \<open>rescue_funds\<close>; with \<open>utils.rs\<close>;
  \<^item> \<open>programs/whitelist\<close>: \<open>initialize\<close>, \<open>register\<close>, \<open>deregister\<close>, \<open>set_authority\<close>.
  They share \<open>common/src\<close> (\<open>timelocks.rs\<close>, \<open>escrow.rs\<close>, \<open>constants.rs\<close>, \<open>error.rs\<close>, \<open>utils.rs\<close>).  All
  the instructions of the three programs are modelled.

  \<^bold>\<open>State and errors.\<close>  A ledger (\<open>Accounts\<close>) maps keys to lamports, token accounts, mints and the
  account data of the programs, whose records have the fields of the \<open>#[account]\<close> structs under a
  prefix (\<open>o_\<close>, \<open>es_\<close>, \<open>ed_\<close>).  An instruction is a function from the ledger to \<open>Inl\<close> an error or
  \<open>Inr\<close> the new ledger (\<open>Errors\<close>: the codes of \<open>error.rs\<close> and of the framework, and \<open>Panic\<close>); a
  failing transaction leaves the ledger alone, so the intermediate ledgers of a failure are never
  seen.  Machine integers are words; every checked operation can panic, since the workspace sets
  \<open>overflow-checks = true\<close>.  A 256-bit \<open>U256\<close> is one word, its four limbs the tuple \<open>u64x4\<close>.

  \<^bold>\<open>Outside code.\<close>  Keccak, program addresses, the system and token programs, the associated token
  program and the Anchor framework are the record \<open>runtime\<close>, a parameter of every definition that
  uses them (\<open>Runtime\<close>).  \<open>runtime_ok\<close> states what the programs rely on: a call that succeeds has its
  documented effect, the definitions \<open>spec_...\<close>.  Only the theorems about success need the converse,
  \<open>runtime_live\<close>.  Both hold of \<open>demo_runtime\<close>, on which the witnesses run, and on \<open>run_runtime\<close>, which
  keeps one byte of a hash so that keys stay short.  \<open>Clock::get\<close> and \<open>Rent::get\<close> are taken to succeed.

  \<^bold>\<open>Handlers.\<close>  For an instruction \<open>f\<close> with the struct \<open>F\<close> of accounts there is a record \<open>F\<close> of the keys
  passed, the checks and initialisations Anchor does before the handler as \<open>F_accounts\<close>, in the order
  the framework does them, and the handler as \<open>f\<close>.  Accounts are read once, when they are loaded, as
  in the code: a handler that reads a balance after a call reads the copy or the ledger as the source
  does.  \<open>Constraints\<close> holds the checks.  The flag \<open>mut\<close> belongs to the transaction and is not
  modelled.

  \<^bold>\<open>Theories.\<close>
  \<^item> \<open>Prelude\<close>: checked arithmetic, results, bytes, the collection \<open>res_simps\<close>; \<open>Errors\<close>.
  \<^item> \<open>Timelocks\<close> (\<open>timelocks.rs\<close>): the stages, read back as deployment plus delay.
  \<^item> \<open>Auction\<close> (\<open>auction.rs\<close>): the rate bump equals a piecewise linear curve, never panics and falls
    with time; the cancellation premium and its one overflow.
  \<^item> \<open>MerkleTree\<close> (\<open>merkle_tree.rs\<close>): soundness up to a hash collision, and completeness.
  \<^item> \<open>Fills\<close>, \<open>DstAmount\<close>, \<open>OrderHash\<close> (free functions of the source \<open>lib.rs\<close>): the rule of the parts,
    the destination amounts, what hashes and addresses commit to.
  \<^item> \<open>Accounts\<close>, \<open>Runtime\<close>, \<open>Constraints\<close>, \<open>Balances\<close>: the ledger, the runtime, the account
    constraints, and the vocabulary of effects: \<open>settle\<close>, \<open>conserved\<close>, \<open>wf_ledger\<close>.
  \<^item> \<open>CommonEscrow\<close> (\<open>escrow.rs\<close>): transfers, payouts and rescues; \<open>payout_and_close\<close> is the common end
    of seven instructions, \<open>settled\<close> its outcome.
  \<^item> \<open>Interfaces\<close>: the locales \<open>registry\<close> (interpreted on the whitelist and on the escrows of either
    program), \<open>htlc_window\<close> (on the escrows of either chain) and \<open>conserving\<close> (on all instructions).
  \<^item> \<open>Whitelist\<close>; \<open>SrcOrders\<close>, \<open>SrcFills\<close>, \<open>SrcClaims\<close>, \<open>SrcRescue\<close>; \<open>DstOpening\<close>, \<open>DstClaims\<close>: the
    instructions, each with a theorem that says under which conditions it succeeds and what it
    then does to data, tokens and lamports.
  \<^item> \<open>Exclusion\<close>: when the claims of an escrow precede the other ways out of it; \<open>Swap\<close>: the two
    escrows of a swap together.
  \<^item> \<open>Books\<close>: the abstract specification, a ledger of orders and escrows changed by events; \<open>System\<close>:
    every instruction implements its event and conserves lamports.
  \<^item> \<open>Reserves\<close>: no instruction takes lamports from an account of the programs that it does not end;
    \<open>Runs\<close>: runs of all instructions interleaved with steps of other programs, and their invariants.
  \<^item> \<open>Liveness\<close>: settlements succeed when they should; \<open>FillLiveness\<close>: so do the fills that pass their
    checks; \<open>RescueLiveness\<close>: what a rescue can do to an open escrow; \<open>Atomicity\<close>: runs up to a time, and
    what a swap guarantees the taker.

  \<^bold>\<open>What the theorems show.\<close>  A claim of an escrow precedes its cancellation on either chain.  It
  precedes a public cancellation if the public cancellation does not start before the cancellation,
  and a rescue if the cancellation starts within the rescue delay; the programs check neither of
  the two, and without them an escrow can lose its assets while it can be claimed.  A claim of a
  destination escrow that was opened with the cancellation time of the source escrow happens before
  that time; if the public cancellation is not the earlier one, nothing but a claim has ended the
  source escrow by then, and the taker can collect on the source chain.  No order is overfilled and no secret of an order is
  used twice; an escrow pays out once; all tokens of an escrow or order go to the party the
  instruction names, and lamports only change hands; safety deposits are covered in every run; and
  the settlements of escrows and orders succeed when their accounts are in order.

  \<^bold>\<open>Assumptions made where they are needed.\<close>  A program's own accounts have no private key and do
  not sign transactions; no key holds two kinds of data (\<open>wf_ledger\<close>, kept by all instructions);
  the balance of wrapped SOL is covered by lamports (\<open>backed_at\<close>); other programs neither write to
  the accounts of these programs nor take lamports from them; the two chains read one clock
  (\<open>Swap\<close>); a transfer of tokens moves the exact amount, so mints with transfer fees are left out
  (\<open>runtime_ok\<close>).  Statements about hashes and addresses either exhibit the collision or speak of the
  bytes hashed.  There is no fuel: every loop of the code is a structural recursion.

  \<^bold>\<open>Not modelled.\<close>  Tests, fixtures and build files hold no program logic.  The internals of Keccak,
  of the system and token programs, of Solana's account locking and of Anchor's serialisation are
  parameters or left out, as said above; logs and compute budgets are left out.  The conversions
  of \<open>U24\<close> into \<open>u32\<close> and \<open>u64\<close> by \<open>From\<close> only call the methods modelled.
\<close>

end
